(* ===== verification/Prelude.thy ===== *)
theory Prelude
  imports Complex_Main
begin

text \<open>
  Shared vocabulary of the development: the units, the Python built-ins the sources use on lists
  (the first minimum under a key, the maximum of a list), the value of a float division that may be
  a NaN or an infinity, and the generic lemmas and hint collections the component proofs share.
  Python floats are real numbers here: rounding and overflow are not modelled, while the places
  where the code itself produces or tests for NaN and infinity use the type \<open>pyfloat\<close>.
\<close>

type_synonym hz = real
type_synonym watts = real
type_synonym joules = real

named_theorems nonneg_intros \<open>introduction rules for non-negativity\<close>
named_theorems mono_intros \<open>introduction rules for monotonicity\<close>
named_theorems model_defs \<open>constants and small definitions to unfold\<close>

subsection \<open>Float results that may be special\<close>

datatype pyfloat = Fin real | NaN | PInf | NInf

fun is_finite :: "pyfloat \<Rightarrow> bool" where
  "is_finite (Fin _) = True"
| "is_finite _ = False"

text \<open>\<open>(a / b) if b > eps else d\<close>, the guarded quotients of the sources.\<close>

definition guarded_div :: "real \<Rightarrow> real \<Rightarrow> real \<Rightarrow> pyfloat \<Rightarrow> pyfloat" where
  "guarded_div eps a b d = (if b > eps then Fin (a / b) else d)"

subsection \<open>Exceptions\<close>

datatype py_error =
    ZeroDivisionError
  | ValueError
  | IndexError
  | KeyError
  | OSError
  | TypeError
  | OverflowError
  | TimeoutExpired
  | SystemExit string

subsection \<open>Errors in sequence\<close>

definition err_bind :: "py_error + 'a \<Rightarrow> ('a \<Rightarrow> py_error + 'b) \<Rightarrow> py_error + 'b" where
  "err_bind m f = (case m of Inl e \<Rightarrow> Inl e | Inr a \<Rightarrow> f a)"

fun err_map :: "('a \<Rightarrow> py_error + 'b) \<Rightarrow> 'a list \<Rightarrow> py_error + 'b list" where
  "err_map f [] = Inr []"
| "err_map f (x # xs) = err_bind (f x) (\<lambda>y. err_bind (err_map f xs) (\<lambda>ys. Inr (y # ys)))"

lemma err_bind_Inr: "err_bind m f = Inr b \<longleftrightarrow> (\<exists>a. m = Inr a \<and> f a = Inr b)"
  by (cases m) (auto simp: err_bind_def)

lemma err_bind_simps [simp]: "err_bind (Inr a) f = f a" "err_bind (Inl e) f = Inl e"
  by (simp_all add: err_bind_def)

lemma err_map_length: "err_map f xs = Inr ys \<Longrightarrow> length ys = length xs"
  by (induction xs arbitrary: ys) (auto simp: err_bind_Inr)

lemma err_map_nth: "err_map f xs = Inr ys \<Longrightarrow> i < length xs \<Longrightarrow> f (xs ! i) = Inr (ys ! i)"
  by (induction xs arbitrary: ys i) (auto simp: err_bind_Inr nth_Cons split: nat.splits)

subsection \<open>Python's min, max and sum on lists\<close>

text \<open>\<open>max(xs)\<close> and \<open>min(xs)\<close> of a non-empty list; the callers guard against the empty one.\<close>

fun list_max :: "'a::linorder list \<Rightarrow> 'a" where
  "list_max [x] = x"
| "list_max (x # y # ys) = max x (list_max (y # ys))"

fun list_min :: "'a::linorder list \<Rightarrow> 'a" where
  "list_min [x] = x"
| "list_min (x # y # ys) = min x (list_min (y # ys))"

lemma list_max_ge: "x \<in> set xs \<Longrightarrow> x \<le> list_max xs"
  by (induction xs rule: list_max.induct) (auto simp: le_max_iff_disj)

lemma list_max_in: "xs \<noteq> [] \<Longrightarrow> list_max xs \<in> set xs"
  by (induction xs rule: list_max.induct) (auto simp: max_def)

lemma list_min_le: "x \<in> set xs \<Longrightarrow> list_min xs \<le> x"
  by (induction xs rule: list_min.induct) (auto simp: min_le_iff_disj)

lemma list_min_in: "xs \<noteq> [] \<Longrightarrow> list_min xs \<in> set xs"
  by (induction xs rule: list_min.induct) (auto simp: min_def)

lemma list_max_least: "xs \<noteq> [] \<Longrightarrow> (\<And>x. x \<in> set xs \<Longrightarrow> x \<le> b) \<Longrightarrow> list_max xs \<le> b"
  using list_max_in by blast

lemma list_min_greatest: "xs \<noteq> [] \<Longrightarrow> (\<And>x. x \<in> set xs \<Longrightarrow> b \<le> x) \<Longrightarrow> b \<le> list_min xs"
  using list_min_in by blast

text \<open>\<open>min(xs, key=f)\<close>: the first element with the least key.\<close>

fun min_by :: "('a \<Rightarrow> real) \<Rightarrow> 'a list \<Rightarrow> 'a option" where
  "min_by f [] = None"
| "min_by f (x # xs) =
     (case min_by f xs of None \<Rightarrow> Some x | Some y \<Rightarrow> Some (if f x \<le> f y then x else y))"

lemma min_by_None [simp]: "min_by f xs = None \<longleftrightarrow> xs = []"
  by (cases xs) (auto split: option.splits)

lemma min_by_Some:
  "min_by f xs = Some m \<Longrightarrow> m \<in> set xs \<and> (\<forall>x \<in> set xs. f m \<le> f x)"
proof (induction xs arbitrary: m)
  case (Cons x xs)
  show ?case
  proof (cases "min_by f xs")
    case None
    with Cons.prems show ?thesis by auto
  next
    case (Some y)
    with Cons.IH [OF Some] Cons.prems show ?thesis
      by (auto split: if_splits)
  qed
qed simp

lemma min_by_exists: "xs \<noteq> [] \<Longrightarrow> \<exists>m. min_by f xs = Some m"
  using min_by_None by fastforce

lemma min_by_cong: "map f xs = map g xs \<Longrightarrow> min_by f xs = min_by g xs"
  by (induction xs) (auto split: option.splits dest: min_by_Some)

lemma the_min_by:
  assumes "xs \<noteq> []"
  shows "the (min_by f xs) \<in> set xs" and "x \<in> set xs \<Longrightarrow> f (the (min_by f xs)) \<le> f x"
  using min_by_Some [of f xs] min_by_exists [OF assms, of f] by auto

text \<open>\<open>max(xs, key=f)\<close>: the first element with the greatest key.\<close>

definition max_by :: "('a \<Rightarrow> real) \<Rightarrow> 'a list \<Rightarrow> 'a option" where
  "max_by f xs = min_by (\<lambda>x. - f x) xs"

lemma max_by_Some:
  "max_by f xs = Some m \<Longrightarrow> m \<in> set xs \<and> (\<forall>x \<in> set xs. f x \<le> f m)"
  using min_by_Some [of "\<lambda>x. - f x" xs m] by (auto simp: max_by_def)

lemma max_by_exists: "xs \<noteq> [] \<Longrightarrow> \<exists>m. max_by f xs = Some m"
  unfolding max_by_def by (rule min_by_exists)

subsection \<open>Sums over lists\<close>

lemma sum_list_mono_map:
  "(\<And>x. x \<in> set xs \<Longrightarrow> f x \<le> (g x :: real)) \<Longrightarrow> sum_list (map f xs) \<le> sum_list (map g xs)"
  by (rule sum_list_mono)

lemma sum_list_map_nonneg [nonneg_intros]:
  "(\<And>x. x \<in> set xs \<Longrightarrow> 0 \<le> (f x :: real)) \<Longrightarrow> 0 \<le> sum_list (map f xs)"
  by (rule sum_list_nonneg) auto

lemma sum_list_mono_all2:
  "list_all2 (\<lambda>x y. f x \<le> (g y :: real)) xs ys \<Longrightarrow> sum_list (map f xs) \<le> sum_list (map g ys)"
  by (induction xs ys rule: list_all2_induct) auto

lemma list_all2_in: "list_all2 P xs ys \<Longrightarrow> x \<in> set xs \<Longrightarrow> \<exists>y \<in> set ys. P x y"
  by (induction xs ys rule: list_all2_induct) auto

lemma eight: "map f [0..<8] = [f 0, f 1, f 2, f 3, f 4, f 5, f 6, f 7]" for f :: "nat \<Rightarrow> 'a"
  by (simp add: upt_rec numeral_eq_Suc)

end
