(* ===== verification/Constants.thy ===== *)
theory Constants
  imports Prelude
begin

text \<open>
  The constants block of \<open>sim/rail_model.py\<close>, one definition per constant the model reads, in the
  source's units (hertz, volts, watts, degrees, giga-cycles), and \<open>PARAMS\<close>, the mutable copy the
  calibrator overwrites, as a record that is passed explicitly.
\<close>

subsection \<open>Part identity and frequency domain\<close>

definition N_PHYS_CORES :: nat where "N_PHYS_CORES = 4"
definition N_LOGICAL_CPUS :: nat where "N_LOGICAL_CPUS = 8"
definition SMT_SIBLING_STRIDE :: nat where "SMT_SIBLING_STRIDE = 4"
definition F_MIN_HZ :: hz where "F_MIN_HZ = 400 * 10 ^ 6"
definition F_BASE_HZ :: hz where "F_BASE_HZ = 1800 * 10 ^ 6"
definition F_TURBO_MAX_HZ :: hz where "F_TURBO_MAX_HZ = 4000 * 10 ^ 6"

definition TURBO_BINS_HZ :: "(int \<times> hz) list" where
  "TURBO_BINS_HZ = [(1, 4000 * 10 ^ 6), (2, 4000 * 10 ^ 6), (3, 3900 * 10 ^ 6), (4, 3700 * 10 ^ 6)]"

definition F_LITTLE_HZ :: hz where "F_LITTLE_HZ = 800 * 10 ^ 6"

subsection \<open>Voltage-frequency anchors\<close>

definition VF_ANCHORS :: "(real \<times> real) list" where
  "VF_ANCHORS =
     [(400, 0.650), (800, 0.680), (1200, 0.725), (1800, 0.830), (2400, 0.925),
      (3000, 1.020), (3400, 1.075), (3700, 1.115), (4000, 1.150)]"

subsection \<open>Power\<close>

definition C_EFF_W_PER_V2_GHZ :: real where "C_EFF_W_PER_V2_GHZ = 2.20"
definition VT_EFF_V :: real where "VT_EFF_V = 0.300"
definition K_LEAK :: real where "K_LEAK = 0.01035"
definition T_REF_C :: real where "T_REF_C = 60"
definition T_DEFAULT_C :: real where "T_DEFAULT_C = 60"
definition LEAK_TEMP_DOUBLING_C :: real where "LEAK_TEMP_DOUBLING_C = 25"
definition C6_LEAK_RESIDUAL :: real where "C6_LEAK_RESIDUAL = 0.10"
definition ACTIVITY_C6_EPS :: real where "ACTIVITY_C6_EPS = 1 / 10 ^ 6"
definition P_SA_FLOOR_W :: watts where "P_SA_FLOOR_W = 0.90"
definition P_PKG_C6_W :: watts where "P_PKG_C6_W = 0.15"
definition C_RING_W_PER_V2_GHZ :: real where "C_RING_W_PER_V2_GHZ = 0.55"
definition F_RING_MIN_HZ :: hz where "F_RING_MIN_HZ = 800 * 10 ^ 6"
definition F_RING_MAX_HZ :: hz where "F_RING_MAX_HZ = 3900 * 10 ^ 6"
definition K_UNCORE_TRAFFIC_W_PER_GHZ :: real where "K_UNCORE_TRAFFIC_W_PER_GHZ = 0.12"
definition PL1_W :: watts where "PL1_W = 15"

subsection \<open>Workload of experiments B and C\<close>

definition W_COMPILE_GCYCLES :: real where "W_COMPILE_GCYCLES = 120"
definition W_LIGHT_GCYCLES_PER_TASK :: real where "W_LIGHT_GCYCLES_PER_TASK = 15"
definition N_LIGHT_TASKS :: nat where "N_LIGHT_TASKS = 3"
definition HORIZON_S :: real where "HORIZON_S = 30"
definition FREQ_SWEEP_STEP_HZ :: hz where "FREQ_SWEEP_STEP_HZ = 25 * 10 ^ 6"

lemmas constant_defs [model_defs] =
  N_PHYS_CORES_def N_LOGICAL_CPUS_def SMT_SIBLING_STRIDE_def F_MIN_HZ_def F_BASE_HZ_def
  F_TURBO_MAX_HZ_def F_LITTLE_HZ_def C_EFF_W_PER_V2_GHZ_def VT_EFF_V_def K_LEAK_def T_REF_C_def
  T_DEFAULT_C_def LEAK_TEMP_DOUBLING_C_def C6_LEAK_RESIDUAL_def ACTIVITY_C6_EPS_def P_SA_FLOOR_W_def
  P_PKG_C6_W_def C_RING_W_PER_V2_GHZ_def F_RING_MIN_HZ_def F_RING_MAX_HZ_def
  K_UNCORE_TRAFFIC_W_PER_GHZ_def PL1_W_def W_COMPILE_GCYCLES_def W_LIGHT_GCYCLES_PER_TASK_def
  N_LIGHT_TASKS_def HORIZON_S_def FREQ_SWEEP_STEP_HZ_def

subsection \<open>The calibrated parameters\<close>

record params =
  C_eff :: real
  k_leak :: real
  p_sa_floor :: watts

definition PARAMS :: params where
  "PARAMS = \<lparr>C_eff = C_EFF_W_PER_V2_GHZ, k_leak = K_LEAK, p_sa_floor = P_SA_FLOOR_W\<rparr>"

text \<open>Physically meaningful parameter values; the calibrator only ever stores such values.\<close>

definition params_ok :: "params \<Rightarrow> bool" where
  "params_ok ps \<longleftrightarrow> 0 < C_eff ps \<and> 0 \<le> k_leak ps \<and> 0 \<le> p_sa_floor ps"

lemma params_ok_PARAMS [simp]: "params_ok PARAMS"
  by (simp add: params_ok_def PARAMS_def constant_defs)

lemma PARAMS_sel [simp]:
  "C_eff PARAMS = 2.2" "k_leak PARAMS = 0.01035" "p_sa_floor PARAMS = 0.9"
  by (simp_all add: PARAMS_def constant_defs)

end
