(* ===== verification/Physics.thy ===== *)
theory Physics
  imports Constants
begin

text \<open>
  The physics section of \<open>sim/rail_model.py\<close>: the voltage-frequency curve, leakage, and the package
  power breakdown on a shared rail and on split rails. The curve is an interface of its own
  (\<open>vf_curve\<close>: a table whose frequencies increase and whose voltages do not decrease), so that its
  monotonicity and its bounds are proved once and hold for the table of this part.
\<close>

subsection \<open>Piecewise-linear interpolation\<close>

text \<open>The loop over \<open>zip(VF_ANCHORS, VF_ANCHORS[1:])\<close>; \<open>None\<close> is falling off its end.\<close>

fun anchor_scan :: "(real \<times> real) list \<Rightarrow> real \<Rightarrow> real option" where
  "anchor_scan ((f0, v0) # (f1, v1) # ps) f =
     (if f0 \<le> f \<and> f \<le> f1 then
        let t = (f - f0) / (f1 - f0) in Some (v0 + t * (v1 - v0))
      else anchor_scan ((f1, v1) # ps) f)"
| "anchor_scan _ f = None"

definition v_of_table :: "(real \<times> real) list \<Rightarrow> real \<Rightarrow> real" where
  "v_of_table A f =
     (if f \<le> fst (hd A) then snd (hd A)
      else if f \<ge> fst (last A) then snd (last A)
      else case anchor_scan A f of Some v \<Rightarrow> v | None \<Rightarrow> snd (last A))"

definition v_of_f :: "hz \<Rightarrow> real" where
  "v_of_f f_hz = v_of_table VF_ANCHORS (f_hz / 10 ^ 6)"

fun table_ok :: "(real \<times> real) list \<Rightarrow> bool" where
  "table_ok ((f0, v0) # (f1, v1) # ps) \<longleftrightarrow> f0 < f1 \<and> v0 \<le> v1 \<and> table_ok ((f1, v1) # ps)"
| "table_ok ps \<longleftrightarrow> ps \<noteq> []"

lemma table_ok_ends: "table_ok A \<Longrightarrow> fst (hd A) \<le> fst (last A) \<and> snd (hd A) \<le> snd (last A)"
  by (induction A rule: table_ok.induct) auto

lemma table_ok_strict: "table_ok A \<Longrightarrow> 1 < length A \<Longrightarrow> fst (hd A) < fst (last A)"
  by (cases A rule: table_ok.cases) (auto dest: table_ok_ends)

lemma segment_bounds:
  fixes f0 f1 v0 v1 f :: real
  assumes "f0 < f1" "v0 \<le> v1" "f0 \<le> f" "f \<le> f1"
  shows "v0 \<le> v0 + (f - f0) / (f1 - f0) * (v1 - v0)"
    and "v0 + (f - f0) / (f1 - f0) * (v1 - v0) \<le> v1"
proof -
  have t: "0 \<le> (f - f0) / (f1 - f0)" "(f - f0) / (f1 - f0) \<le> 1"
    using assms by (auto simp: divide_simps)
  then show "v0 \<le> v0 + (f - f0) / (f1 - f0) * (v1 - v0)"
    using assms by simp
  have "(f - f0) / (f1 - f0) * (v1 - v0) \<le> 1 * (v1 - v0)"
    using t assms by (intro mult_right_mono) auto
  then show "v0 + (f - f0) / (f1 - f0) * (v1 - v0) \<le> v1" by simp
qed

lemma anchor_scan_bounds:
  "table_ok A \<Longrightarrow> anchor_scan A f = Some v \<Longrightarrow>
     snd (hd A) \<le> v \<and> v \<le> snd (last A) \<and> fst (hd A) \<le> f \<and> f \<le> fst (last A)"
proof (induction A f rule: anchor_scan.induct)
  case (1 f0 v0 f1 v1 ps f)
  have ok: "f0 < f1" "v0 \<le> v1" "table_ok ((f1, v1) # ps)" using "1.prems" by auto
  note ends = table_ok_ends [OF ok(3)]
  show ?case
  proof (cases "f0 \<le> f \<and> f \<le> f1")
    case True
    then show ?thesis
      using segment_bounds [OF ok(1,2), of f] ends "1.prems" by (auto simp: Let_def)
  next
    case False
    then have "anchor_scan ((f1, v1) # ps) f = Some v" using "1.prems" by (auto split: if_splits)
    from "1.IH" [OF False ok(3) this] show ?thesis using ok ends by auto
  qed
qed auto

lemma anchor_scan_total:
  "table_ok A \<Longrightarrow> 1 < length A \<Longrightarrow> fst (hd A) \<le> f \<Longrightarrow> f \<le> fst (last A) \<Longrightarrow> \<exists>v. anchor_scan A f = Some v"
proof (induction A f rule: anchor_scan.induct)
  case (1 f0 v0 f1 v1 ps f)
  show ?case
  proof (cases "f0 \<le> f \<and> f \<le> f1")
    case False
    then have gt: "f1 < f" using "1.prems" by auto
    then have "1 < length ((f1, v1) # ps)" using "1.prems" by (cases ps) auto
    with "1.IH" [OF False] "1.prems" gt False show ?thesis by auto
  qed (auto simp: Let_def)
qed auto

lemma anchor_scan_mono:
  "table_ok A \<Longrightarrow> anchor_scan A f = Some v \<Longrightarrow> anchor_scan A g = Some w \<Longrightarrow> f \<le> g \<Longrightarrow> v \<le> w"
proof (induction A f arbitrary: v w rule: anchor_scan.induct)
  case (1 f0 v0 f1 v1 ps f)
  have ok: "f0 < f1" "v0 \<le> v1" "table_ok ((f1, v1) # ps)" using "1.prems" by auto
  consider (both) "f0 \<le> f" "g \<le> f1" | (apart) "f0 \<le> f" "f \<le> f1" "f1 < g" | (later) "\<not> (f0 \<le> f \<and> f \<le> f1)"
    using "1.prems" by linarith
  then show ?case
  proof cases
    case both
    then have "(f - f0) / (f1 - f0) * (v1 - v0) \<le> (g - f0) / (f1 - f0) * (v1 - v0)"
      using ok "1.prems" by (intro mult_right_mono divide_right_mono) auto
    with both "1.prems" show ?thesis by (auto simp: Let_def)
  next
    case apart
    then have "v \<le> v1" using segment_bounds [OF ok(1,2), of f] "1.prems" by (auto simp: Let_def)
    moreover have "v1 \<le> w" using apart anchor_scan_bounds [OF ok(3), of g w] "1.prems" by auto
    ultimately show ?thesis by simp
  next
    case later
    then have f: "anchor_scan ((f1, v1) # ps) f = Some v" using "1.prems" by (auto split: if_splits)
    then have "f1 \<le> f" using anchor_scan_bounds [OF ok(3)] by force
    then have "anchor_scan ((f1, v1) # ps) g = Some w \<or> f = g \<and> v = w"
      using later "1.prems" f by (auto split: if_splits)
    then show ?thesis using "1.IH" [OF later ok(3) f] "1.prems" by auto
  qed
qed auto

subsection \<open>The curve as an interface\<close>

locale vf_curve =
  fixes A :: "(real \<times> real) list"
  assumes ok: "table_ok A" and two: "1 < length A"
begin

lemma nonempty: "A \<noteq> []"
  using two by auto

lemma scan_in_range:
  assumes "fst (hd A) < f" "f < fst (last A)"
  obtains v where "anchor_scan A f = Some v" "v_of_table A f = v"
  using anchor_scan_total [OF ok two, of f] assms that by (auto simp: v_of_table_def)

lemma lower: "snd (hd A) \<le> v_of_table A f"
  using table_ok_ends [OF ok] anchor_scan_bounds [OF ok, of f]
  by (auto simp: v_of_table_def split: option.splits)

lemma upper: "v_of_table A f \<le> snd (last A)"
  using table_ok_ends [OF ok] anchor_scan_bounds [OF ok, of f]
  by (auto simp: v_of_table_def split: option.splits)

lemma mono: "f \<le> g \<Longrightarrow> v_of_table A f \<le> v_of_table A g"
proof -
  assume fg: "f \<le> g"
  consider "f \<le> fst (hd A)" | "fst (last A) \<le> g" | (mid) "fst (hd A) < f" "g < fst (last A)"
    by linarith
  then show ?thesis
  proof cases
    case mid
    obtain v where v: "anchor_scan A f = Some v" "v_of_table A f = v"
      using mid fg scan_in_range [of f] by auto
    obtain w where w: "anchor_scan A g = Some w" "v_of_table A g = w"
      using mid fg scan_in_range [of g] by auto
    from anchor_scan_mono [OF ok v(1) w(1) fg] v w show ?thesis by simp
  next
    case 1
    then show ?thesis using lower [of g] by (simp add: v_of_table_def [of A f])
  next
    case 2
    then have "v_of_table A g = snd (last A)"
      using table_ok_strict [OF ok two] by (simp add: v_of_table_def)
    then show ?thesis using upper [of f] by simp
  qed
qed

end

interpretation anchors: vf_curve VF_ANCHORS
  by unfold_locales (simp_all add: VF_ANCHORS_def)

lemma v_of_f_mono [mono_intros]: "f \<le> g \<Longrightarrow> v_of_f f \<le> v_of_f g"
  unfolding v_of_f_def by (rule anchors.mono) (simp add: divide_right_mono)

lemma v_of_f_lower: "0.650 \<le> v_of_f f"
  using anchors.lower [of "f / 10 ^ 6"] by (simp add: v_of_f_def VF_ANCHORS_def)

lemma v_of_f_upper: "v_of_f f \<le> 1.150"
  using anchors.upper [of "f / 10 ^ 6"] by (simp add: v_of_f_def VF_ANCHORS_def)

lemma v_of_f_pos [simp]: "0 < v_of_f f" "0 \<le> v_of_f f"
  using v_of_f_lower [of f] by simp_all

lemma v_of_f_min: "f \<le> F_MIN_HZ \<Longrightarrow> v_of_f f = 0.650"
  by (simp add: v_of_f_def v_of_table_def VF_ANCHORS_def F_MIN_HZ_def)

lemma v_of_f_F_MIN_le [simp]: "v_of_f F_MIN_HZ \<le> v_of_f f"
  using v_of_f_lower [of f] by (simp add: v_of_f_min)

subsection \<open>Leakage\<close>

definition leak_shape :: "real \<Rightarrow> real" where
  "leak_shape v = v * exp (v / VT_EFF_V)"

definition leak_temp_factor :: "real \<Rightarrow> real" where
  "leak_temp_factor temp_c = 2 powr ((temp_c - T_REF_C) / LEAK_TEMP_DOUBLING_C)"

definition core_leakage_w :: "params \<Rightarrow> real \<Rightarrow> bool \<Rightarrow> real \<Rightarrow> watts" where
  "core_leakage_w ps v active temp_c =
     (let g = k_leak ps * leak_shape v * leak_temp_factor temp_c
      in if active then g else g * C6_LEAK_RESIDUAL)"

lemma leak_shape_mono [mono_intros]: "0 \<le> v \<Longrightarrow> v \<le> w \<Longrightarrow> leak_shape v \<le> leak_shape w"
  unfolding leak_shape_def
  by (intro mult_mono) (auto simp: VT_EFF_V_def)

lemma leak_shape_nonneg [nonneg_intros]: "0 \<le> v \<Longrightarrow> 0 \<le> leak_shape v"
  by (simp add: leak_shape_def)

lemma leak_temp_factor_pos [simp]: "0 < leak_temp_factor t" "0 \<le> leak_temp_factor t"
  by (simp_all add: leak_temp_factor_def)

lemma core_leakage_mono [mono_intros]:
  "params_ok ps \<Longrightarrow> 0 \<le> v \<Longrightarrow> v \<le> w \<Longrightarrow> core_leakage_w ps v b t \<le> core_leakage_w ps w b t"
  unfolding core_leakage_w_def Let_def
  by (auto simp: params_ok_def C6_LEAK_RESIDUAL_def
      intro!: mult_right_mono mult_left_mono leak_shape_mono)

lemma core_leakage_nonneg [nonneg_intros]:
  "params_ok ps \<Longrightarrow> 0 \<le> v \<Longrightarrow> 0 \<le> core_leakage_w ps v b t"
  by (auto simp: core_leakage_w_def Let_def params_ok_def C6_LEAK_RESIDUAL_def leak_shape_nonneg)

subsection \<open>Package power\<close>

type_synonym core_state = "hz \<times> real"

record power =
  dyn :: watts
  leak :: watts
  uncore :: watts
  uncore_sa :: watts
  uncore_ring :: watts
  uncore_traffic :: watts
  total_w :: watts
  v_rail :: real
  f_max_active_hz :: hz

definition core_active :: "real \<Rightarrow> bool" where
  "core_active a \<longleftrightarrow> a > ACTIVITY_C6_EPS"

definition f_ring_of :: "hz \<Rightarrow> hz" where
  "f_ring_of f_max = min (max f_max F_RING_MIN_HZ) F_RING_MAX_HZ"

definition ring_w :: "hz \<Rightarrow> watts" where
  "ring_w f_max = C_RING_W_PER_V2_GHZ * (v_of_f (f_ring_of f_max))\<^sup>2 * (f_ring_of f_max / 10 ^ 9)"

text \<open>The two accumulators of the loop over \<open>core_states\<close>, for a core at supply \<open>v\<close>.\<close>

definition core_dyn :: "params \<Rightarrow> real \<Rightarrow> core_state \<Rightarrow> watts" where
  "core_dyn ps v c = (if core_active (snd c) then snd c * C_eff ps * v\<^sup>2 * (fst c / 10 ^ 9) else 0)"

definition core_volt :: "bool \<Rightarrow> real \<Rightarrow> core_state \<Rightarrow> real" where
  "core_volt shared_rail v c =
     (if shared_rail then v else v_of_f (if core_active (snd c) then fst c else F_MIN_HZ))"

definition package_power :: "params \<Rightarrow> core_state list \<Rightarrow> bool \<Rightarrow> real \<Rightarrow> power" where
  "package_power ps core_states shared_rail temp_c =
     (let active = filter (\<lambda>c. core_active (snd c)) core_states in
      if active = [] then
        let v_idle = v_of_f F_MIN_HZ;
            lk = sum_list (map (\<lambda>_. core_leakage_w ps v_idle False temp_c) core_states)
        in \<lparr>dyn = 0, leak = lk, uncore = P_PKG_C6_W, uncore_sa = P_PKG_C6_W, uncore_ring = 0,
            uncore_traffic = 0, total_w = lk + P_PKG_C6_W, v_rail = v_idle, f_max_active_hz = 0\<rparr>
      else
        let f_max = list_max (map fst active);
            v = v_of_f f_max;
            d = sum_list (map (\<lambda>c. core_dyn ps (core_volt shared_rail v c) c) core_states);
            lk = sum_list (map (\<lambda>c. core_leakage_w ps (core_volt shared_rail v c)
                                       (core_active (snd c)) temp_c) core_states);
            ring = ring_w f_max;
            traffic = K_UNCORE_TRAFFIC_W_PER_GHZ * sum_list (map (\<lambda>c. snd c * fst c / 10 ^ 9) active);
            sa = p_sa_floor ps;
            un = sa + ring + traffic
        in \<lparr>dyn = d, leak = lk, uncore = un, uncore_sa = sa, uncore_ring = ring,
            uncore_traffic = traffic, total_w = d + lk + un, v_rail = v, f_max_active_hz = f_max\<rparr>)"

subsection \<open>One core's share of the package power\<close>

text \<open>
  With at least one active core the total is a sum of per-core shares plus the ring and the system
  agent: the form every comparison below is proved in.
\<close>

definition core_traffic :: "core_state \<Rightarrow> watts" where
  "core_traffic c =
     (if core_active (snd c) then K_UNCORE_TRAFFIC_W_PER_GHZ * (snd c * fst c / 10 ^ 9) else 0)"

definition core_share :: "params \<Rightarrow> real \<Rightarrow> real \<Rightarrow> core_state \<Rightarrow> watts" where
  "core_share ps temp_c v c =
     core_dyn ps v c + core_leakage_w ps v (core_active (snd c)) temp_c + core_traffic c"

definition some_active :: "core_state list \<Rightarrow> bool" where
  "some_active cs \<longleftrightarrow> (\<exists>c \<in> set cs. core_active (snd c))"

definition f_max_of :: "core_state list \<Rightarrow> hz" where
  "f_max_of cs = list_max (map fst (filter (\<lambda>c. core_active (snd c)) cs))"

lemma some_active_iff: "some_active cs \<longleftrightarrow> filter (\<lambda>c. core_active (snd c)) cs \<noteq> []"
  by (auto simp: some_active_def filter_empty_conv)

lemma f_max_of_ge: "c \<in> set cs \<Longrightarrow> core_active (snd c) \<Longrightarrow> fst c \<le> f_max_of cs"
  unfolding f_max_of_def by (rule list_max_ge) auto

lemma f_max_of_in:
  assumes "some_active cs"
  obtains c where "c \<in> set cs" "core_active (snd c)" "f_max_of cs = fst c"
proof -
  have "f_max_of cs \<in> set (map fst (filter (\<lambda>c. core_active (snd c)) cs))"
    unfolding f_max_of_def using assms by (intro list_max_in) (simp add: some_active_iff)
  then show thesis using that by auto
qed

lemma f_max_of_eqI:
  "c \<in> set cs \<Longrightarrow> core_active (snd c) \<Longrightarrow> (\<And>d. d \<in> set cs \<Longrightarrow> core_active (snd d) \<Longrightarrow> fst d \<le> fst c)
     \<Longrightarrow> f_max_of cs = fst c"
  using f_max_of_ge [of c cs] f_max_of_in [of cs] unfolding some_active_def
  by (metis antisym)

lemma core_active_pos: "core_active a \<Longrightarrow> 0 < a"
  by (simp add: core_active_def ACTIVITY_C6_EPS_def)

lemma traffic_sum:
  "K_UNCORE_TRAFFIC_W_PER_GHZ
     * sum_list (map (\<lambda>c. snd c * fst c / 10 ^ 9) (filter (\<lambda>c. core_active (snd c)) cs))
   = sum_list (map core_traffic cs)"
  by (induction cs) (auto simp: core_traffic_def algebra_simps)

lemma total_active:
  assumes "some_active cs"
  shows "total_w (package_power ps cs shared t) =
    sum_list (map (\<lambda>c. core_share ps t (core_volt shared (v_of_f (f_max_of cs)) c) c) cs)
    + ring_w (f_max_of cs) + p_sa_floor ps"
  using assms
  unfolding package_power_def Let_def traffic_sum
  by (simp add: some_active_iff f_max_of_def [symmetric] core_share_def [abs_def] sum_list_addf)

lemma total_idle:
  "\<not> some_active cs \<Longrightarrow> total_w (package_power ps cs shared t) =
     real (length cs) * core_leakage_w ps (v_of_f F_MIN_HZ) False t + P_PKG_C6_W"
  by (simp add: package_power_def Let_def some_active_iff sum_list_triv)

lemma total_sum: "total_w (package_power ps cs shared t) =
    dyn (package_power ps cs shared t) + leak (package_power ps cs shared t)
    + uncore (package_power ps cs shared t)"
  by (simp add: package_power_def Let_def)

lemma v_rail_active: "some_active cs \<Longrightarrow> v_rail (package_power ps cs shared t) = v_of_f (f_max_of cs)"
  by (simp add: package_power_def Let_def some_active_iff f_max_of_def)

lemma core_share_mono:
  assumes "params_ok ps" "0 \<le> v" "v \<le> w" "0 \<le> f" "f \<le> g"
  shows "core_share ps t v (f, a) \<le> core_share ps t w (g, a)"
proof -
  have a: "0 \<le> a" if "core_active a" using core_active_pos [OF that] by simp
  have "core_dyn ps v (f, a) \<le> core_dyn ps w (g, a)"
    unfolding core_dyn_def using assms a
    by (auto intro!: mult_mono power_mono divide_right_mono simp: params_ok_def)
  moreover have "core_leakage_w ps v (core_active a) t \<le> core_leakage_w ps w (core_active a) t"
    using assms by (intro core_leakage_mono)
  moreover have "core_traffic (f, a) \<le> core_traffic (g, a)"
    using assms a
    by (auto intro!: mult_left_mono divide_right_mono
        simp: core_traffic_def K_UNCORE_TRAFFIC_W_PER_GHZ_def)
  ultimately show ?thesis by (auto simp: core_share_def)
qed

lemma ring_w_mono [mono_intros]: "f \<le> g \<Longrightarrow> ring_w f \<le> ring_w g"
proof -
  assume "f \<le> g"
  then have r: "f_ring_of f \<le> f_ring_of g" "0 \<le> f_ring_of f"
    by (auto simp: f_ring_of_def F_RING_MIN_HZ_def F_RING_MAX_HZ_def)
  show ?thesis
    unfolding ring_w_def using r
    by (intro mult_mono power_mono divide_right_mono v_of_f_mono)
      (auto simp: C_RING_W_PER_V2_GHZ_def)
qed

lemma ring_w_nonneg [nonneg_intros]: "0 \<le> ring_w f"
  by (auto simp: ring_w_def C_RING_W_PER_V2_GHZ_def f_ring_of_def F_RING_MIN_HZ_def F_RING_MAX_HZ_def)

lemma core_volt_le_rail:
  assumes "c \<in> set cs"
  shows "core_volt shared (v_of_f (f_max_of cs)) c \<le> v_of_f (f_max_of cs)"
  using f_max_of_ge [OF assms] by (auto simp: core_volt_def intro: v_of_f_mono)

lemma core_volt_nonneg [simp]: "0 \<le> core_volt shared (v_of_f f) c"
  by (simp add: core_volt_def)

subsection \<open>Comparing two rails and two frequency settings\<close>

lemma total_split_le_shared:
  assumes "params_ok ps" "\<And>c. c \<in> set cs \<Longrightarrow> 0 \<le> fst c"
  shows "total_w (package_power ps cs False t) \<le> total_w (package_power ps cs True t)"
proof (cases "some_active cs")
  case True
  have "core_share ps t (core_volt False (v_of_f (f_max_of cs)) c) c
      \<le> core_share ps t (core_volt True (v_of_f (f_max_of cs)) c) c" if "c \<in> set cs" for c
  proof -
    have "core_share ps t (core_volt False (v_of_f (f_max_of cs)) c) (fst c, snd c)
        \<le> core_share ps t (v_of_f (f_max_of cs)) (fst c, snd c)"
      using assms that core_volt_le_rail [OF that] by (intro core_share_mono) auto
    then show ?thesis by (simp add: core_volt_def [of True])
  qed
  then show ?thesis
    by (auto simp: total_active [OF True] intro!: sum_list_mono_map)
next
  case False
  then show ?thesis by (simp add: total_idle)
qed

lemma core_share_nonneg [nonneg_intros]:
  assumes "params_ok ps" "0 \<le> v" "0 \<le> fst c"
  shows "0 \<le> core_share ps t v c"
  using assms core_active_pos [of "snd c"] core_leakage_nonneg [of ps v _ t]
  by (auto simp: core_share_def core_dyn_def core_traffic_def params_ok_def
      K_UNCORE_TRAFFIC_W_PER_GHZ_def intro!: add_nonneg_nonneg)

lemma total_nonneg [nonneg_intros]:
  assumes "params_ok ps" "\<And>c. c \<in> set cs \<Longrightarrow> 0 \<le> fst c"
  shows "0 \<le> total_w (package_power ps cs shared t)"
proof (cases "some_active cs")
  case True
  show ?thesis
    using assms
    by (auto simp: total_active [OF True] params_ok_def
        intro!: add_nonneg_nonneg sum_list_map_nonneg core_share_nonneg ring_w_nonneg)
next
  case False
  then show ?thesis
    using assms core_leakage_nonneg [of ps "v_of_f F_MIN_HZ" False t]
    by (simp add: total_idle P_PKG_C6_W_def)
qed

text \<open>\<open>slower c d\<close>: the same activity at a frequency that is not higher.\<close>

definition slower :: "core_state \<Rightarrow> core_state \<Rightarrow> bool" where
  "slower c d \<longleftrightarrow> snd c = snd d \<and> 0 \<le> fst c \<and> fst c \<le> fst d"

lemma slower_active: "list_all2 slower cs ds \<Longrightarrow> some_active cs \<longleftrightarrow> some_active ds"
  by (induction cs ds rule: list_all2_induct) (auto simp: some_active_def slower_def)

lemma slower_f_max:
  assumes "list_all2 slower cs ds" "some_active cs"
  shows "f_max_of cs \<le> f_max_of ds"
proof -
  obtain c where c: "c \<in> set cs" "core_active (snd c)" "f_max_of cs = fst c"
    using f_max_of_in [OF assms(2)] .
  obtain d where d: "d \<in> set ds" "slower c d"
    using list_all2_in [OF assms(1) c(1)] by blast
  then have "fst d \<le> f_max_of ds" using c by (intro f_max_of_ge) (auto simp: slower_def)
  with c d show ?thesis by (auto simp: slower_def)
qed

lemma total_slower:
  assumes "params_ok ps" "list_all2 slower cs ds"
  shows "total_w (package_power ps cs shared t) \<le> total_w (package_power ps ds shared t)"
proof (cases "some_active cs")
  case True
  then have act: "some_active ds" using slower_active assms(2) by blast
  note fm = slower_f_max [OF assms(2) True]
  have "core_share ps t (core_volt shared (v_of_f (f_max_of cs)) c) c
      \<le> core_share ps t (core_volt shared (v_of_f (f_max_of ds)) d) d" if "slower c d" for c d
  proof -
    have "core_volt shared (v_of_f (f_max_of cs)) c \<le> core_volt shared (v_of_f (f_max_of ds)) d"
      using that fm by (auto simp: core_volt_def slower_def intro: v_of_f_mono)
    then have "core_share ps t (core_volt shared (v_of_f (f_max_of cs)) c) (fst c, snd c)
        \<le> core_share ps t (core_volt shared (v_of_f (f_max_of ds)) d) (fst d, snd c)"
      using that assms(1) by (intro core_share_mono) (auto simp: slower_def)
    then show ?thesis using that by (simp add: slower_def)
  qed
  then have "list_all2 (\<lambda>c d. core_share ps t (core_volt shared (v_of_f (f_max_of cs)) c) c
      \<le> core_share ps t (core_volt shared (v_of_f (f_max_of ds)) d) d) cs ds"
    using assms(2) by (rule list_all2_mono [rotated])
  from sum_list_mono_all2 [OF this] ring_w_mono [OF fm] show ?thesis
    by (simp add: total_active [OF True] total_active [OF act])
next
  case False
  then show ?thesis
    using slower_active [OF assms(2)] list_all2_lengthD [OF assms(2)] by (simp add: total_idle)
qed

subsection \<open>At the default parameters\<close>

lemma exp_le_pow: "x \<le> real n \<Longrightarrow> exp x \<le> 3 ^ n"
proof -
  assume "x \<le> real n"
  then have "exp x \<le> exp (real n * 1)" by simp
  also have "\<dots> = exp 1 ^ n" by (rule exp_of_nat_mult)
  also have "\<dots> \<le> 3 ^ n" by (rule power_mono) (auto simp: exp_le)
  finally show ?thesis .
qed

lemma temp_default [simp]: "leak_temp_factor T_DEFAULT_C = 1"
  by (simp add: leak_temp_factor_def T_REF_C_def T_DEFAULT_C_def)

lemma core_share_default:
  "core_share PARAMS T_DEFAULT_C v (f, a) =
     (if core_active a
      then a * (2.2 * v\<^sup>2 + 0.12) * (f / 10 ^ 9) + 0.01035 * v * exp (v / 0.3)
      else 0.001035 * v * exp (v / 0.3))"
  by (simp add: core_share_def core_dyn_def core_traffic_def core_leakage_w_def leak_shape_def
      constant_defs temp_default [unfolded T_DEFAULT_C_def] field_simps)

lemmas v_eval = v_of_f_def v_of_table_def VF_ANCHORS_def
lemmas ring_eval = ring_w_def f_ring_of_def C_RING_W_PER_V2_GHZ_def F_RING_MIN_HZ_def F_RING_MAX_HZ_def

lemma exp_lower16: "0 \<le> x \<Longrightarrow> (1 + x / 16) ^ 16 \<le> exp (x :: real)"
  using exp_ge_one_plus_x_over_n_power_n [of 16 x] by simp

lemma exp_upper16: "0 \<le> x \<Longrightarrow> x < 16 \<Longrightarrow> exp (x :: real) \<le> 1 / (1 - x / 16) ^ 16"
proof -
  assume x: "0 \<le> x" "x < 16"
  have "(1 - x / 16) ^ 16 \<le> exp (- x)"
    using exp_ge_one_minus_x_over_n_power_n [of x 16] x by simp
  then have "1 / exp (- x) \<le> 1 / (1 - x / 16) ^ 16"
    using x by (intro divide_left_mono) auto
  then show ?thesis by (simp add: exp_minus field_simps)
qed

subsection \<open>Properties\<close>

text \<open>C3: on the same placement a shared rail never draws less package power than split rails:
  the rail tax is non-negative for every set of core states, temperature and physical parameters.\<close>

theorem rail_tax_nonneg:
  assumes "params_ok ps" and "\<forall>c \<in> set cs. 0 \<le> fst c"
  shows "total_w (package_power ps cs False temp_c) \<le> total_w (package_power ps cs True temp_c)"
  using assms by (intro total_split_le_shared) auto

theorem rail_tax_nonneg_witness:
  "total_w (package_power PARAMS [(4000 * 10 ^ 6, 1), (800 * 10 ^ 6, 0.15)] False 60)
     \<le> total_w (package_power PARAMS [(4000 * 10 ^ 6, 1), (800 * 10 ^ 6, 0.15)] True 60)"
  by (rule rail_tax_nonneg) simp_all

text \<open>C25: on the shared rail, slowing an active core down to a frequency below that of another
  active core saves exactly the term linear in the frequency: the voltage, the leakage and the ring
  stay where the fastest core puts them.\<close>

theorem shared_rail_saves_linear_term_only:
  assumes "core_active a" and "(g, b) \<in> set (xs @ ys)" and "core_active b" and "f \<le> g" and "f' \<le> g"
  shows "total_w (package_power ps (xs @ (f, a) # ys) True temp_c)
       - total_w (package_power ps (xs @ (f', a) # ys) True temp_c)
     = a * (C_eff ps * (v_rail (package_power ps (xs @ ys) True temp_c))\<^sup>2
            + K_UNCORE_TRAFFIC_W_PER_GHZ) * ((f - f') / 10 ^ 9)"
proof -
  have act: "some_active (xs @ (h, a) # ys)" "some_active (xs @ ys)" for h
    using assms by (force simp: some_active_def)+
  have fm: "f_max_of (xs @ (h, a) # ys) = f_max_of (xs @ ys)" if "h \<le> g" for h
  proof -
    obtain c where c: "c \<in> set (xs @ ys)" "core_active (snd c)" "f_max_of (xs @ ys) = fst c"
      using f_max_of_in [OF act(2)] .
    moreover have "g \<le> fst c" using f_max_of_ge [OF assms(2)] assms(3) c by simp
    ultimately show ?thesis
      using f_max_of_ge [of _ "xs @ ys"] that
      by (intro f_max_of_eqI [of c, THEN trans]) (auto simp del: set_append, auto)
  qed
  show ?thesis
    using assms(1)
    by (simp add: total_active [OF act(1)] fm assms v_rail_active [OF act(2)] core_volt_def
        core_share_def core_dyn_def core_traffic_def) (simp add: field_simps)
qed

theorem shared_rail_saves_linear_term_only_witness:
  "total_w (package_power PARAMS ([(4000 * 10 ^ 6, 1)] @ (4000 * 10 ^ 6, 0.15) # []) True 60)
   - total_w (package_power PARAMS ([(4000 * 10 ^ 6, 1)] @ (800 * 10 ^ 6, 0.15) # []) True 60)
   = 0.15 * (C_eff PARAMS * (v_rail (package_power PARAMS ([(4000 * 10 ^ 6, 1)] @ []) True 60))\<^sup>2
             + K_UNCORE_TRAFFIC_W_PER_GHZ) * ((4000 * 10 ^ 6 - 800 * 10 ^ 6) / 10 ^ 9)"
  by (rule shared_rail_saves_linear_term_only [where g = "4000 * 10 ^ 6" and b = 1])
    (simp_all add: core_active_def ACTIVITY_C6_EPS_def)

text \<open>Package power is monotone in the frequencies: raising the clock of any cores, with the
  activities unchanged, never lowers the total, on either rail.\<close>

theorem package_power_mono:
  assumes "params_ok ps" and "list_all2 slower cs ds"
  shows "total_w (package_power ps cs shared temp_c) \<le> total_w (package_power ps ds shared temp_c)"
  using assms by (rule total_slower)

theorem package_power_mono_witness:
  "total_w (package_power PARAMS [(800 * 10 ^ 6, 1), (400 * 10 ^ 6, 0)] False 60)
     \<le> total_w (package_power PARAMS [(3700 * 10 ^ 6, 1), (400 * 10 ^ 6, 0)] False 60)"
  by (rule package_power_mono) (simp_all add: slower_def)

text \<open>The supply voltage is a monotone function of the frequency, stays between the first and
  the last anchor voltage, and passes through every anchor of the table exactly.\<close>

theorem v_of_f_spec:
  "mono v_of_f \<and> (\<forall>f. 0.650 \<le> v_of_f f \<and> v_of_f f \<le> 1.150)
   \<and> map (\<lambda>(f_mhz, v). v_of_f (f_mhz * 10 ^ 6)) VF_ANCHORS = map snd VF_ANCHORS"
proof (intro conjI)
  show "mono v_of_f" by (intro monoI v_of_f_mono)
  show "\<forall>f. 0.650 \<le> v_of_f f \<and> v_of_f f \<le> 1.150" by (intro allI conjI v_of_f_lower v_of_f_upper)
  show "map (\<lambda>(f_mhz, v). v_of_f (f_mhz * 10 ^ 6)) VF_ANCHORS = map snd VF_ANCHORS"
    by (simp add: VF_ANCHORS_def v_of_f_def v_of_table_def)
qed

end
