(* ===== verification/PowerCap.thy ===== *)
theory PowerCap
  imports Physics
begin

text \<open>
  \<open>turbo_limit_hz\<close> and \<open>freq_under_power_cap\<close> of \<open>sim/rail_model.py\<close>: the turbo ceiling, and the
  bisection for the highest common frequency that keeps the package under its power cap. What the
  bisection needs of the power model is the interface \<open>monotone_load\<close> (power does not fall when the
  frequency rises); the package model is shown to provide it.
\<close>

subsection \<open>Turbo ceiling\<close>

definition turbo_limit_hz :: "int \<Rightarrow> hz" where
  "turbo_limit_hz n_active_cores =
     (if n_active_cores \<le> 0 then F_MIN_HZ
      else let n = min n_active_cores (list_max (map fst TURBO_BINS_HZ))
           in the (map_of TURBO_BINS_HZ n))"

lemma turbo_bins_found:
  "0 < n \<Longrightarrow> \<exists>f. map_of TURBO_BINS_HZ (min n (list_max (map fst TURBO_BINS_HZ))) = Some f"
proof -
  assume "0 < n"
  then have "min n 4 = 1 \<or> min n 4 = 2 \<or> min n 4 = 3 \<or> min n 4 = (4::int)" by linarith
  then show ?thesis by (auto simp: TURBO_BINS_HZ_def)
qed

lemma turbo_limit_eq:
  "turbo_limit_hz n = (if n \<le> 0 then 400 * 10 ^ 6 else if n \<le> 2 then 4000 * 10 ^ 6
     else if n = 3 then 3900 * 10 ^ 6 else 3700 * 10 ^ 6)"
proof -
  consider "n \<le> 0" | "n = 1" | "n = 2" | "n = 3" | "4 \<le> n" by linarith
  then show ?thesis
    by cases (auto simp: turbo_limit_hz_def TURBO_BINS_HZ_def F_MIN_HZ_def)
qed

subsection \<open>Bisection under the cap\<close>

text \<open>The arguments the local function \<open>p_at\<close> closes over.\<close>

record load =
  ld_params :: params
  ld_n :: nat
  ld_activity :: real
  ld_shared :: bool
  ld_temp :: real
  ld_others :: "core_state list"

definition p_at :: "load \<Rightarrow> hz \<Rightarrow> watts" where
  "p_at l f =
     total_w (package_power (ld_params l) (replicate (ld_n l) (f, ld_activity l) @ ld_others l)
       (ld_shared l) (ld_temp l))"

text \<open>The \<open>for _ in range(60)\<close> loop, with its \<open>break\<close>; the first argument counts the rounds left.\<close>

fun cap_bisect :: "nat \<Rightarrow> (hz \<Rightarrow> watts) \<Rightarrow> watts \<Rightarrow> hz \<Rightarrow> hz \<Rightarrow> hz" where
  "cap_bisect 0 p cap_w lo hi = lo"
| "cap_bisect (Suc k) p cap_w lo hi =
     (let mid = 0.5 * (lo + hi);
          lo' = (if p mid > cap_w then lo else mid);
          hi' = (if p mid > cap_w then mid else hi)
      in if hi' - lo' < 10 ^ 5 then lo' else cap_bisect k p cap_w lo' hi')"

declare cap_bisect.simps(2) [simp del]

definition freq_under_power_cap :: "load \<Rightarrow> hz \<Rightarrow> watts \<Rightarrow> hz" where
  "freq_under_power_cap l f_ceiling_hz cap_w =
     (if p_at l F_MIN_HZ \<ge> cap_w then F_MIN_HZ
      else if p_at l f_ceiling_hz \<le> cap_w then f_ceiling_hz
      else cap_bisect 60 (p_at l) cap_w F_MIN_HZ f_ceiling_hz)"

subsection \<open>Bisection over any monotone load\<close>

locale monotone_load =
  fixes p :: "'e \<Rightarrow> real \<Rightarrow> real" and ok :: "'e \<Rightarrow> bool"
  assumes mono: "ok e \<Longrightarrow> 0 \<le> f \<Longrightarrow> f \<le> g \<Longrightarrow> p e f \<le> p e g"
begin

lemma bisect_range:
  "lo \<le> hi \<Longrightarrow> p e lo \<le> cap \<Longrightarrow>
     lo \<le> cap_bisect k (p e) cap lo hi \<and> cap_bisect k (p e) cap lo hi \<le> hi
     \<and> p e (cap_bisect k (p e) cap lo hi) \<le> cap"
proof (induction k arbitrary: lo hi)
  case (Suc k)
  define mid where "mid = 0.5 * (lo + hi)"
  define lo' where "lo' = (if p e mid > cap then lo else mid)"
  define hi' where "hi' = (if p e mid > cap then mid else hi)"
  have m: "lo \<le> mid" "mid \<le> hi" using Suc.prems by (auto simp: mid_def)
  have b: "lo \<le> lo'" "lo' \<le> hi'" "hi' \<le> hi" "p e lo' \<le> cap"
    using m Suc.prems by (auto simp: lo'_def hi'_def)
  have eq: "cap_bisect (Suc k) (p e) cap lo hi
      = (if hi' - lo' < 10 ^ 5 then lo' else cap_bisect k (p e) cap lo' hi')"
    by (simp add: mid_def lo'_def hi'_def Let_def cap_bisect.simps(2))
  show ?case using Suc.IH [OF b(2,4)] b unfolding eq by auto
qed simp

text \<open>With enough rounds the answer is within the tolerance of a frequency that breaks the cap.\<close>

lemma bisect_close:
  "lo \<le> hi \<Longrightarrow> p e hi > cap \<Longrightarrow> hi - lo < 10 ^ 5 * 2 ^ Suc k \<Longrightarrow>
     \<exists>h. cap_bisect (Suc k) (p e) cap lo hi \<le> h \<and> h - cap_bisect (Suc k) (p e) cap lo hi < 10 ^ 5
         \<and> p e h > cap \<and> h \<le> hi"
proof (induction k arbitrary: lo hi)
  case 0
  show ?case
  proof (cases "p e (0.5 * (lo + hi)) > cap")
    case True
    with 0 show ?thesis by (intro exI [of _ "0.5 * (lo + hi)"]) (simp add: Let_def cap_bisect.simps(2) field_simps)
  next
    case False
    with 0 show ?thesis by (intro exI [of _ hi]) (simp add: Let_def cap_bisect.simps(2) field_simps)
  qed
next
  case (Suc k)
  define mid where "mid = 0.5 * (lo + hi)"
  define lo' where "lo' = (if p e mid > cap then lo else mid)"
  define hi' where "hi' = (if p e mid > cap then mid else hi)"
  have b: "lo' \<le> hi'" "hi' \<le> hi" "p e hi' > cap" "hi' - lo' < 10 ^ 5 * 2 ^ Suc k"
    using Suc.prems by (auto simp: lo'_def hi'_def mid_def field_simps)
  have eq: "cap_bisect (Suc (Suc k)) (p e) cap lo hi
      = (if hi' - lo' < 10 ^ 5 then lo' else cap_bisect (Suc k) (p e) cap lo' hi')"
    by (simp add: mid_def lo'_def hi'_def Let_def cap_bisect.simps(2))
  show ?case
  proof (cases "hi' - lo' < 10 ^ 5")
    case True
    then show ?thesis using b by (auto simp: eq intro!: exI [of _ hi'])
  next
    case False
    then show ?thesis using Suc.IH [OF b(1,3,4)] b(2) unfolding eq by auto
  qed
qed

lemma bisect_rounds:
  "lo \<le> hi \<Longrightarrow> hi - lo < 10 ^ 5 * 2 ^ Suc k \<Longrightarrow>
     cap_bisect (Suc k + j) q cap lo hi = cap_bisect (Suc k) q cap lo hi"
proof (induction k arbitrary: lo hi)
  case 0
  then show ?case by (auto simp: Let_def cap_bisect.simps(2) field_simps)
next
  case (Suc k)
  define mid where "mid = 0.5 * (lo + hi)"
  define lo' where "lo' = (if q mid > cap then lo else mid)"
  define hi' where "hi' = (if q mid > cap then mid else hi)"
  have b: "lo' \<le> hi'" "hi' - lo' < 10 ^ 5 * 2 ^ Suc k"
    using Suc.prems by (auto simp: lo'_def hi'_def mid_def field_simps)
  have "cap_bisect (Suc n) q cap lo hi
      = (if hi' - lo' < 10 ^ 5 then lo' else cap_bisect n q cap lo' hi')" for n
    by (simp add: mid_def lo'_def hi'_def Let_def cap_bisect.simps(2))
  from this [of "Suc k + j"] this [of "Suc k"] Suc.IH [OF b] show ?case by simp
qed

lemma above_breaks_cap:
  "ok e \<Longrightarrow> 0 \<le> h \<Longrightarrow> p e h > cap \<Longrightarrow> h \<le> f \<Longrightarrow> p e f > cap"
  using mono [of e h f] by linarith

end

subsection \<open>The package model is a monotone load\<close>

definition load_ok :: "load \<Rightarrow> bool" where
  "load_ok l \<longleftrightarrow> params_ok (ld_params l) \<and> list_all (\<lambda>c. 0 \<le> fst c) (ld_others l)"

lemma slower_refl: "list_all (\<lambda>c. 0 \<le> fst c) cs \<Longrightarrow> list_all2 slower cs cs"
  by (induction cs) (auto simp: slower_def)

lemma slower_replicate: "0 \<le> f \<Longrightarrow> f \<le> g \<Longrightarrow> list_all2 slower (replicate n (f, a)) (replicate n (g, a))"
  by (induction n) (auto simp: slower_def)

interpretation package: monotone_load p_at load_ok
proof unfold_locales
  fix l f g
  assume "load_ok l" "0 \<le> f" "f \<le> (g :: real)"
  then show "p_at l f \<le> p_at l g"
    unfolding p_at_def load_ok_def
    by (intro total_slower list_all2_appendI slower_replicate slower_refl) auto
qed

text \<open>The load in closed form, when the equal cores are the fastest active ones.\<close>

lemma p_at_form:
  assumes "0 < ld_n l" "core_active (ld_activity l)"
    and "\<And>c. c \<in> set (ld_others l) \<Longrightarrow> core_active (snd c) \<Longrightarrow> fst c \<le> f"
  shows "p_at l f = real (ld_n l) * core_share (ld_params l) (ld_temp l) (v_of_f f) (f, ld_activity l)
    + sum_list (map (\<lambda>c. core_share (ld_params l) (ld_temp l) (core_volt (ld_shared l) (v_of_f f) c) c) (ld_others l))
    + ring_w f + p_sa_floor (ld_params l)"
proof -
  let ?cs = "replicate (ld_n l) (f, ld_activity l) @ ld_others l"
  have act: "some_active ?cs" using assms by (auto simp: some_active_def)
  have "f_max_of ?cs = fst (f, ld_activity l)"
    using assms by (intro f_max_of_eqI) auto
  then show ?thesis
    using assms(2) by (simp add: p_at_def total_active [OF act] sum_list_replicate core_volt_def)
qed

lemma p_at_split_le_shared:
  assumes "load_ok l" "0 \<le> f"
  shows "p_at (l\<lparr>ld_shared := False\<rparr>) f \<le> p_at (l\<lparr>ld_shared := True\<rparr>) f"
  unfolding p_at_def using assms
  by (auto simp: load_ok_def list_all_iff intro!: total_split_le_shared)

subsection \<open>What the bisection returns\<close>

lemma cap_range:
  assumes "F_MIN_HZ \<le> f_ceil"
  shows "F_MIN_HZ \<le> freq_under_power_cap l f_ceil cap \<and> freq_under_power_cap l f_ceil cap \<le> f_ceil
    \<and> (p_at l (freq_under_power_cap l f_ceil cap) \<le> cap
       \<or> freq_under_power_cap l f_ceil cap = F_MIN_HZ \<and> p_at l F_MIN_HZ \<ge> cap)"
  using package.bisect_range [OF assms, of l cap 60] assms
  by (auto simp: freq_under_power_cap_def)

lemma cap_close:
  assumes "load_ok l" "F_MIN_HZ \<le> f_ceil" "f_ceil \<le> F_TURBO_MAX_HZ"
    and "freq_under_power_cap l f_ceil cap + 10 ^ 5 \<le> f" "f \<le> f_ceil"
  shows "cap \<le> p_at l f"
proof -
  let ?r = "freq_under_power_cap l f_ceil cap"
  have pos: "0 \<le> F_MIN_HZ" "0 \<le> ?r" using cap_range [OF assms(2), of l cap]
    by (auto simp: F_MIN_HZ_def)
  consider (low) "p_at l F_MIN_HZ \<ge> cap"
    | (top) "?r = f_ceil"
    | (mid) "p_at l f_ceil > cap" "?r = cap_bisect 60 (p_at l) cap F_MIN_HZ f_ceil"
    unfolding freq_under_power_cap_def by (smt (verit))
  then show ?thesis
  proof cases
    case low
    then show ?thesis
      using package.mono [OF assms(1) pos(1), of f] cap_range [OF assms(2), of l cap] assms(4) by auto
  next
    case top
    then show ?thesis using assms by simp
  next
    case mid
    have "f_ceil - F_MIN_HZ < 10 ^ 5 * 2 ^ Suc 59"
      using assms(3) by (simp add: F_MIN_HZ_def F_TURBO_MAX_HZ_def)
    from package.bisect_close [OF assms(2) mid(1) this] mid(2)
    obtain h where h: "?r \<le> h" "h - ?r < 10 ^ 5" "p_at l h > cap"
      by (auto)
    then show ?thesis
      using package.above_breaks_cap [OF assms(1) _ h(3), of f] pos assms(4) by simp
  qed
qed

lemma cap_reaches:
  assumes "load_ok l" "F_MIN_HZ \<le> f_ceil" "f_ceil \<le> F_TURBO_MAX_HZ" "f \<le> f_ceil" "p_at l f < cap"
  shows "f - 10 ^ 5 < freq_under_power_cap l f_ceil cap"
  using cap_close [OF assms(1-3), of cap f] assms(4,5) by force

subsection \<open>Properties\<close>

text \<open>The capped frequency lies between the minimum P-state and the ceiling and keeps the
  package at or under the cap, except when the cap is already reached at the minimum P-state, where
  the minimum is returned.\<close>

theorem freq_under_power_cap_respects_cap:
  assumes "F_MIN_HZ \<le> f_ceil"
  shows "F_MIN_HZ \<le> freq_under_power_cap l f_ceil cap \<and> freq_under_power_cap l f_ceil cap \<le> f_ceil
    \<and> (p_at l (freq_under_power_cap l f_ceil cap) \<le> cap
       \<or> freq_under_power_cap l f_ceil cap = F_MIN_HZ \<and> p_at l F_MIN_HZ \<ge> cap)"
  using assms by (rule cap_range)

definition demo_load :: load where
  "demo_load = \<lparr>ld_params = PARAMS, ld_n = 4, ld_activity = 1, ld_shared = True, ld_temp = 60, ld_others = []\<rparr>"

lemma demo_load_ok [simp]: "load_ok demo_load"
  by (simp add: load_ok_def demo_load_def)

theorem freq_under_power_cap_respects_cap_witness:
  "F_MIN_HZ \<le> freq_under_power_cap demo_load F_TURBO_MAX_HZ PL1_W"
  using freq_under_power_cap_respects_cap [of F_TURBO_MAX_HZ demo_load PL1_W]
  by (simp add: F_MIN_HZ_def F_TURBO_MAX_HZ_def)

text \<open>C7: the capped frequency is the highest one up to the bisection's tolerance: every frequency
  under the ceiling that is at least 100 kHz above it reaches or breaks the cap.\<close>

theorem freq_under_power_cap_optimal:
  assumes "load_ok l" "F_MIN_HZ \<le> f_ceil" "f_ceil \<le> F_TURBO_MAX_HZ"
    and "freq_under_power_cap l f_ceil cap + 10 ^ 5 \<le> f" "f \<le> f_ceil"
  shows "cap \<le> p_at l f"
  using assms by (rule cap_close)

theorem freq_under_power_cap_optimal_witness: "0 \<le> p_at demo_load F_TURBO_MAX_HZ"
proof (rule freq_under_power_cap_optimal [where f_ceil = F_TURBO_MAX_HZ])
  have "0 \<le> p_at demo_load F_MIN_HZ"
    unfolding p_at_def demo_load_def
    by (rule total_nonneg) (auto simp: F_MIN_HZ_def)
  then show "freq_under_power_cap demo_load F_TURBO_MAX_HZ 0 + 10 ^ 5 \<le> F_TURBO_MAX_HZ"
    by (simp add: freq_under_power_cap_def constant_defs)
qed (simp_all add: constant_defs)

text \<open>The search stops by its \<open>break\<close>: for every ceiling up to the maximum turbo, sixteen of the
  sixty rounds decide the answer, so the iteration budget is never exhausted.\<close>

theorem cap_bisect_sixteen_rounds:
  assumes "F_MIN_HZ \<le> f_ceil" "f_ceil \<le> F_TURBO_MAX_HZ" "16 \<le> k"
  shows "cap_bisect k p cap F_MIN_HZ f_ceil = cap_bisect 16 p cap F_MIN_HZ f_ceil"
proof -
  have "f_ceil - F_MIN_HZ < 10 ^ 5 * 2 ^ Suc 15"
    using assms by (simp add: F_MIN_HZ_def F_TURBO_MAX_HZ_def)
  from package.bisect_rounds [OF assms(1) this, of "k - 16" p cap] assms(3)
  show ?thesis by simp
qed

theorem cap_bisect_sixteen_rounds_witness:
  "cap_bisect 60 (p_at demo_load) PL1_W F_MIN_HZ F_TURBO_MAX_HZ
     = cap_bisect 16 (p_at demo_load) PL1_W F_MIN_HZ F_TURBO_MAX_HZ"
  by (rule cap_bisect_sixteen_rounds) (simp_all add: constant_defs)

end
