(* ===== verification/RailTax.thy ===== *)
theory RailTax
  imports PowerCap
begin

text \<open>
  Experiment A of \<open>sim/rail_model.py\<close> (\<open>experiment_a\<close>): one core pinned at turbo, 1 to 7 light
  threads on the other cores, and the marginal package power of the light threads on the shared
  rail, on split rails and without any partition. The printing half of the function is not modelled.
\<close>

subsection \<open>Placement of the light threads\<close>

text \<open>Threads 0..2 go to the physical cores 1..3, 3..5 to their siblings, later ones to core 0.\<close>

definition light_core :: "nat \<Rightarrow> nat" where
  "light_core k = (let n_free = N_PHYS_CORES - 1 in if k \<ge> 2 * n_free then 0 else 1 + k mod n_free)"

definition phys_light_activity :: "nat \<Rightarrow> real \<Rightarrow> real list" where
  "phys_light_activity n_light light_activity =
     foldl (\<lambda>acts k. acts[light_core k := acts ! light_core k + light_activity])
       (replicate N_PHYS_CORES 0) [0..<n_light]"

definition n_siblings_on_big :: "nat \<Rightarrow> nat" where
  "n_siblings_on_big n_light = n_light - 2 * (N_PHYS_CORES - 1)"

text \<open>The local function \<open>build\<close>, and the states of the no-partition reference.\<close>

definition light_or_idle :: "hz \<Rightarrow> real \<Rightarrow> core_state" where
  "light_or_idle f a = (if core_active a then (f, a) else (F_MIN_HZ, 0))"

definition build :: "hz \<Rightarrow> hz \<Rightarrow> real list \<Rightarrow> core_state list" where
  "build f_big f_light_hz acts =
     map (\<lambda>pc. if pc = 0 then (f_big, 1) else light_or_idle f_light_hz (min (acts ! pc) 1))
       [0..<N_PHYS_CORES]"

definition naive_states :: "hz \<Rightarrow> real list \<Rightarrow> core_state list" where
  "naive_states f_big acts =
     (f_big, 1) # map (\<lambda>pc. light_or_idle f_big (min (acts ! pc) 1)) [1..<N_PHYS_CORES]"

definition base_states :: "hz \<Rightarrow> core_state list" where
  "base_states f_big = (f_big, 1) # replicate (N_PHYS_CORES - 1) (F_MIN_HZ, 0)"

subsection \<open>Rows and detail\<close>

record a_row =
  a_n_light :: nat
  n_light_on_big_sibling :: nat
  marginal_w_shared :: watts
  marginal_w_split :: watts
  marginal_w_no_partition :: watts
  rail_tax_w :: watts
  cost_ratio_shared_over_split :: pyfloat
  saving_retained_frac :: pyfloat
  saving_destroyed_frac :: pyfloat
  pkg_w_shared :: watts
  pkg_w_split :: watts

fun one_minus :: "pyfloat \<Rightarrow> pyfloat" where
  "one_minus (Fin x) = Fin (1 - x)"
| "one_minus NaN = NaN"
| "one_minus PInf = NInf"
| "one_minus NInf = PInf"

definition a_row_of :: "params \<Rightarrow> real \<Rightarrow> hz \<Rightarrow> real \<Rightarrow> nat \<Rightarrow> a_row" where
  "a_row_of ps light_activity f_light_hz temp_c n_light =
     (let f_big = turbo_limit_hz 1;
          acts = phys_light_activity n_light light_activity;
          pw = (\<lambda>cs shared. total_w (package_power ps cs shared temp_c));
          p_base_sh = pw (base_states f_big) True;
          p_with_sh = pw (build f_big f_light_hz acts) True;
          p_base_sp = pw (base_states f_big) False;
          p_with_sp = pw (build f_big f_light_hz acts) False;
          marg_sh = p_with_sh - p_base_sh;
          marg_sp = p_with_sp - p_base_sp;
          p_naive = pw (naive_states f_big acts) True;
          marg_naive = p_naive - p_base_sh;
          save_sh = marg_naive - marg_sh;
          save_sp = marg_naive - marg_sp;
          retained = guarded_div (1 / 10 ^ 9) save_sh save_sp NaN
      in \<lparr>a_n_light = n_light, n_light_on_big_sibling = n_siblings_on_big n_light,
          marginal_w_shared = marg_sh, marginal_w_split = marg_sp,
          marginal_w_no_partition = marg_naive, rail_tax_w = marg_sh - marg_sp,
          cost_ratio_shared_over_split = guarded_div (1 / 10 ^ 9) marg_sh marg_sp PInf,
          saving_retained_frac = retained, saving_destroyed_frac = one_minus retained,
          pkg_w_shared = p_with_sh, pkg_w_split = p_with_sp\<rparr>)"

record a_detail =
  f_big_ghz :: real
  v_rail_big_v :: real
  f_light_ghz :: real
  v_light_if_split_v :: real
  ad_light_activity :: real
  one_light_core_shared_dyn_w :: watts
  one_light_core_shared_leak_w :: watts
  one_light_core_split_dyn_w :: watts
  one_light_core_split_leak_w :: watts
  one_light_core_shared_total_w :: watts
  one_light_core_split_total_w :: watts
  one_light_core_cost_ratio :: real
  v_squared_penalty :: real
  leak_penalty :: real

definition a_detail_of :: "params \<Rightarrow> real \<Rightarrow> hz \<Rightarrow> real \<Rightarrow> py_error + a_detail" where
  "a_detail_of ps light_activity f_light_hz temp_c =
     (let f_big = turbo_limit_hz 1;
          v_big = v_of_f f_big;
          v_lit = v_of_f f_light_hz;
          sh_dyn = light_activity * C_eff ps * v_big\<^sup>2 * f_light_hz / 10 ^ 9;
          sh_leak = core_leakage_w ps v_big True temp_c;
          sp_dyn = light_activity * C_eff ps * v_lit\<^sup>2 * f_light_hz / 10 ^ 9;
          sp_leak = core_leakage_w ps v_lit True temp_c
      in if sp_dyn + sp_leak = 0 then Inl ZeroDivisionError
         else Inr \<lparr>f_big_ghz = f_big / 10 ^ 9, v_rail_big_v = v_big, f_light_ghz = f_light_hz / 10 ^ 9,
          v_light_if_split_v = v_lit, ad_light_activity = light_activity,
          one_light_core_shared_dyn_w = sh_dyn, one_light_core_shared_leak_w = sh_leak,
          one_light_core_split_dyn_w = sp_dyn, one_light_core_split_leak_w = sp_leak,
          one_light_core_shared_total_w = sh_dyn + sh_leak,
          one_light_core_split_total_w = sp_dyn + sp_leak,
          one_light_core_cost_ratio = (sh_dyn + sh_leak) / (sp_dyn + sp_leak),
          v_squared_penalty = (v_big / v_lit)\<^sup>2,
          leak_penalty = leak_shape v_big / leak_shape v_lit\<rparr>)"

definition experiment_a ::
  "params \<Rightarrow> real \<Rightarrow> hz \<Rightarrow> real \<Rightarrow> nat \<Rightarrow> py_error + a_row list \<times> a_detail" where
  "experiment_a ps light_activity f_light_hz temp_c max_light_cores =
     (let rows = map (a_row_of ps light_activity f_light_hz temp_c) [1..<max_light_cores + 1]
      in case a_detail_of ps light_activity f_light_hz temp_c of
           Inl e \<Rightarrow> Inl e
         | Inr detail \<Rightarrow> Inr (rows, detail))"

subsection \<open>The marginal cost of one light core\<close>

definition light_cost :: "params \<Rightarrow> real \<Rightarrow> bool \<Rightarrow> hz \<Rightarrow> real \<Rightarrow> watts" where
  "light_cost ps t shared f a =
     (let c = light_or_idle f a; v = v_of_f (4000 * 10 ^ 6) in
      core_share ps t (core_volt shared v c) c
      - core_share ps t (core_volt shared v (F_MIN_HZ, 0)) (F_MIN_HZ, 0))"

lemma turbo_1 [simp]: "turbo_limit_hz 1 = 4000 * 10 ^ 6"
  by (simp add: turbo_limit_eq)

lemma not_active_0 [simp]: "\<not> core_active 0"
  by (simp add: core_active_def ACTIVITY_C6_EPS_def)

lemma active_1 [simp]: "core_active 1"
  by (simp add: core_active_def ACTIVITY_C6_EPS_def)

lemma total_with_big:
  assumes "\<And>c. c \<in> set cs \<Longrightarrow> core_active (snd c) \<Longrightarrow> fst c \<le> fb"
  shows "total_w (package_power ps ((fb, 1) # cs) shared t) =
    core_share ps t (v_of_f fb) (fb, 1)
    + sum_list (map (\<lambda>c. core_share ps t (core_volt shared (v_of_f fb) c) c) cs)
    + ring_w fb + p_sa_floor ps"
proof -
  have act: "some_active ((fb, 1) # cs)" by (simp add: some_active_def)
  have "f_max_of ((fb, 1) # cs) = fst (fb, 1::real)"
    using assms by (intro f_max_of_eqI) auto
  then show ?thesis by (simp add: total_active [OF act] core_volt_def)
qed

lemma cores_1_4: "[1..<N_PHYS_CORES] = [1, 2, 3]" "[0..<N_PHYS_CORES] = [0, 1, 2, 3]"
  by (simp_all add: N_PHYS_CORES_def upt_rec)

lemma marginal:
  assumes "f \<le> 4000 * 10 ^ 6"
  shows "total_w (package_power ps (build (4000 * 10 ^ 6) f acts) shared t)
       - total_w (package_power ps (base_states (4000 * 10 ^ 6)) shared t)
     = sum_list (map (\<lambda>pc. light_cost ps t shared f (min (acts ! pc) 1)) [1, 2, 3])"
proof -
  let ?fb = "4000 * 10 ^ 6 :: real"
  have b: "build ?fb f acts = (?fb, 1) # map (\<lambda>pc. light_or_idle f (min (acts ! pc) 1)) [1, 2, 3]"
    by (simp add: build_def cores_1_4)
  have z: "base_states ?fb = (?fb, 1) # [(F_MIN_HZ, 0), (F_MIN_HZ, 0), (F_MIN_HZ, 0)]"
    by (simp add: base_states_def N_PHYS_CORES_def numeral_eq_Suc)
  have tb: "total_w (package_power ps (build ?fb f acts) shared t) =
    core_share ps t (v_of_f ?fb) (?fb, 1)
    + sum_list (map (\<lambda>c. core_share ps t (core_volt shared (v_of_f ?fb) c) c)
        (map (\<lambda>pc. light_or_idle f (min (acts ! pc) 1)) [1, 2, 3]))
    + ring_w ?fb + p_sa_floor ps"
    unfolding b by (rule total_with_big) (use assms in \<open>auto simp: light_or_idle_def split: if_splits\<close>)
  have tz: "total_w (package_power ps (base_states ?fb) shared t) =
    core_share ps t (v_of_f ?fb) (?fb, 1)
    + sum_list (map (\<lambda>c. core_share ps t (core_volt shared (v_of_f ?fb) c) c)
        [(F_MIN_HZ, 0), (F_MIN_HZ, 0), (F_MIN_HZ, 0)])
    + ring_w ?fb + p_sa_floor ps"
    unfolding z by (rule total_with_big) auto
  show ?thesis unfolding tb tz by (simp add: light_cost_def Let_def)
qed

lemma naive_build: "naive_states (4000 * 10 ^ 6) acts = build (4000 * 10 ^ 6) (4000 * 10 ^ 6) acts"
  using cores_1_4 by (simp add: naive_states_def build_def)

lemma a_row_marginals:
  assumes "f \<le> 4000 * 10 ^ 6"
  shows "marginal_w_shared (a_row_of ps la f t n)
           = sum_list (map (\<lambda>pc. light_cost ps t True f (min (phys_light_activity n la ! pc) 1)) [1, 2, 3])"
    and "marginal_w_split (a_row_of ps la f t n)
           = sum_list (map (\<lambda>pc. light_cost ps t False f (min (phys_light_activity n la ! pc) 1)) [1, 2, 3])"
    and "marginal_w_no_partition (a_row_of ps la f t n)
           = sum_list (map (\<lambda>pc. light_cost ps t True (4000 * 10 ^ 6) (min (phys_light_activity n la ! pc) 1)) [1, 2, 3])"
  using marginal [OF assms(1), of ps "phys_light_activity n la"] marginal [of "4000 * 10 ^ 6" ps "phys_light_activity n la"]
  by (simp_all only: a_row_of_def Let_def turbo_1 naive_build a_row.simps order_refl)

lemma v_turbo: "v_of_f (4000 * 10 ^ 6) = 1.15"
  by (simp add: v_of_f_def v_of_table_def VF_ANCHORS_def)

lemma light_cost_idle [simp]: "\<not> core_active a \<Longrightarrow> light_cost ps t shared f a = 0"
  by (simp add: light_cost_def light_or_idle_def Let_def)

lemma light_cost_shared:
  "core_active a \<Longrightarrow> light_cost ps t True f a =
     a * (C_eff ps * 1.3225 + 0.12) * (f / 10 ^ 9)
     + 0.9 * (k_leak ps * leak_shape 1.15 * leak_temp_factor t)"
  unfolding light_cost_def light_or_idle_def Let_def v_turbo
  by (simp add: core_share_def core_volt_def core_dyn_def core_traffic_def core_leakage_w_def
      C6_LEAK_RESIDUAL_def K_UNCORE_TRAFFIC_W_PER_GHZ_def power2_eq_square field_simps)

lemma light_cost_split:
  "core_active a \<Longrightarrow> light_cost ps t False f a =
     a * (C_eff ps * (v_of_f f)\<^sup>2 + 0.12) * (f / 10 ^ 9)
     + k_leak ps * (leak_shape (v_of_f f) - 0.1 * leak_shape 0.65) * leak_temp_factor t"
  unfolding light_cost_def light_or_idle_def Let_def
  by (simp add: core_share_def core_volt_def core_dyn_def core_traffic_def core_leakage_w_def
      C6_LEAK_RESIDUAL_def K_UNCORE_TRAFFIC_W_PER_GHZ_def v_of_f_min field_simps)

lemma light_cost_tax:
  assumes "params_ok ps" "0 \<le> f" "v_of_f f \<le> 1.035"
  shows "light_cost ps t False f a \<le> light_cost ps t True f a"
proof (cases "core_active a")
  case True
  note a = core_active_pos [OF True]
  have "(v_of_f f)\<^sup>2 \<le> 1.15\<^sup>2"
    using v_of_f_upper [of f] by (intro power_mono) auto
  then have "a * (C_eff ps * (v_of_f f)\<^sup>2 + 0.12) * (f / 10 ^ 9) \<le> a * (C_eff ps * 1.3225 + 0.12) * (f / 10 ^ 9)"
    using assms a by (intro mult_right_mono mult_left_mono add_mono)
      (auto simp: params_ok_def power2_eq_square)
  moreover have "v_of_f f * exp (v_of_f f / 0.3) \<le> (0.9 * 1.15) * exp (1.15 / 0.3)"
    using assms(3) v_of_f_upper [of f] by (intro mult_mono) auto
  then have "leak_shape (v_of_f f) - 0.1 * leak_shape 0.65 \<le> 0.9 * leak_shape 1.15"
    by (simp add: leak_shape_def VT_EFF_V_def) (smt (verit) exp_gt_zero)
  then have "k_leak ps * (leak_shape (v_of_f f) - 0.1 * leak_shape 0.65) * leak_temp_factor t
      \<le> k_leak ps * (0.9 * leak_shape 1.15) * leak_temp_factor t"
    using assms by (intro mult_right_mono mult_left_mono) (auto simp: params_ok_def)
  ultimately show ?thesis by (simp add: light_cost_shared [OF True] light_cost_split [OF True] field_simps)
qed simp

lemma light_cost_mono:
  assumes "params_ok ps" "f \<le> g"
  shows "light_cost ps t True f a \<le> light_cost ps t True g a"
proof (cases "core_active a")
  case True
  then show ?thesis
    using assms core_active_pos [OF True]
    by (auto simp: light_cost_shared params_ok_def intro!: mult_left_mono divide_right_mono mult_nonneg_nonneg)
qed simp

subsection \<open>Activities\<close>

lemma phys_light_activity_Suc:
  "phys_light_activity (Suc n) a =
     (let acts = phys_light_activity n a in acts[light_core n := acts ! light_core n + a])"
  by (simp add: phys_light_activity_def Let_def)

lemma phys_light_activity_0: "phys_light_activity 0 a = [0, 0, 0, 0]"
  by (simp add: phys_light_activity_def N_PHYS_CORES_def numeral_eq_Suc)

lemma light_core_table:
  "light_core 0 = 1" "light_core 1 = 2" "light_core 2 = 3" "light_core 3 = 1"
  "light_core 4 = 2" "light_core 5 = 3" "light_core 6 = 0" "light_core (Suc 0) = 2"
  by (simp_all add: light_core_def N_PHYS_CORES_def)

lemma phys_light_activity_table [simp]:
  "phys_light_activity 1 a = [0, a, 0, 0]"
  "phys_light_activity (Suc 0) a = [0, a, 0, 0]"
  "phys_light_activity 2 a = [0, a, a, 0]"
  "phys_light_activity 3 a = [0, a, a, a]"
  "phys_light_activity 4 a = [0, a + a, a, a]"
  "phys_light_activity 5 a = [0, a + a, a + a, a]"
  "phys_light_activity 6 a = [0, a + a, a + a, a + a]"
  "phys_light_activity 7 a = [a, a + a, a + a, a + a]"
proof -
  show 1: "phys_light_activity 1 a = [0, a, 0, 0]"
    using phys_light_activity_Suc [of 0 a] by (simp add: phys_light_activity_0 light_core_table)
  then show "phys_light_activity (Suc 0) a = [0, a, 0, 0]" by simp
  show 2: "phys_light_activity 2 a = [0, a, a, 0]"
    using phys_light_activity_Suc [of 1 a] 1 by (simp add: light_core_table numeral_2_eq_2)
  show 3: "phys_light_activity 3 a = [0, a, a, a]"
    using phys_light_activity_Suc [of 2 a] 2 by (simp add: light_core_table)
  show 4: "phys_light_activity 4 a = [0, a + a, a, a]"
    using phys_light_activity_Suc [of 3 a] 3 by (simp add: light_core_table)
  show 5: "phys_light_activity 5 a = [0, a + a, a + a, a]"
    using phys_light_activity_Suc [of 4 a] 4 by (simp add: light_core_table)
  show 6: "phys_light_activity 6 a = [0, a + a, a + a, a + a]"
    using phys_light_activity_Suc [of 5 a] 5 by (simp add: light_core_table)
  show "phys_light_activity 7 a = [a, a + a, a + a, a + a]"
    using phys_light_activity_Suc [of 6 a] 6 by (simp add: light_core_table)
qed

subsection \<open>What the partition saves, per light core\<close>

text \<open>With the default constants: the saving on the shared rail, and what split rails add to it.\<close>

definition core_save :: "real \<Rightarrow> watts" where
  "core_save a = light_cost PARAMS 60 True (4000 * 10 ^ 6) a - light_cost PARAMS 60 True (800 * 10 ^ 6) a"

definition core_extra :: "real \<Rightarrow> watts" where
  "core_extra a = light_cost PARAMS 60 True (800 * 10 ^ 6) a - light_cost PARAMS 60 False (800 * 10 ^ 6) a"

lemma v_little: "v_of_f (800 * 10 ^ 6) = 0.68"
  by (simp add: v_of_f_def v_of_table_def VF_ANCHORS_def)

lemma exp_23_6: "exp (23 / 6 :: real) \<le> 81"
proof -
  have "exp (23 / 6 :: real) \<le> exp (4 * 1)" by simp
  also have "\<dots> = exp 1 ^ 4" by (simp only: exp_of_nat_mult [of 4, simplified])
  also have "\<dots> \<le> 3 ^ 4" by (rule power_mono) (auto simp: exp_le)
  finally show ?thesis by simp
qed

lemma core_save_bounds:
  assumes "0.15 \<le> a"
  shows "0 < core_extra a" "core_extra a < core_save a" "1 < core_save a"
proof -
  have act: "core_active a" using assms by (simp add: core_active_def ACTIVITY_C6_EPS_def)
  have t: "leak_temp_factor 60 = 1" by (simp add: leak_temp_factor_def T_REF_C_def)
  have save: "core_save a = 9.6944 * a"
    unfolding core_save_def light_cost_shared [OF act] by (simp add: field_simps)
  have extra: "core_extra a = 1.513776 * a
      + 0.01035 * (0.9 * leak_shape 1.15 - leak_shape 0.68 + 0.1 * leak_shape 0.65)"
    unfolding core_extra_def light_cost_shared [OF act] light_cost_split [OF act] v_little t
    by (simp add: field_simps power2_eq_square)
  have "leak_shape 0.68 \<le> 0.9 * leak_shape 1.15"
    unfolding leak_shape_def VT_EFF_V_def
    using mult_mono [of "0.68" "0.9 * 1.15" "exp (0.68 / 0.3)" "exp (1.15 / 0.3 :: real)"] by simp
  moreover have "leak_shape 1.15 \<le> 1.15 * 81"
    using exp_23_6 by (simp add: leak_shape_def VT_EFF_V_def)
  moreover have "0 \<le> leak_shape 0.65" "leak_shape 0.65 \<le> leak_shape 0.68"
    by (auto intro: leak_shape_mono leak_shape_nonneg)
  ultimately have "0 < core_extra a \<and> core_extra a < core_save a \<and> 1 < core_save a"
    unfolding save extra using assms by (intro conjI) (simp_all add: field_simps)
  then show "0 < core_extra a" "core_extra a < core_save a" "1 < core_save a" by auto
qed

lemma core_save_0 [simp]: "core_save 0 = 0" "core_extra 0 = 0"
  by (simp_all add: core_save_def core_extra_def)

lemma retained_default:
  "saving_retained_frac (a_row_of PARAMS 0.15 F_LITTLE_HZ T_DEFAULT_C n) =
     (let acts = phys_light_activity n 0.15;
          s = sum_list (map (\<lambda>pc. core_save (min (acts ! pc) 1)) [1, 2, 3]);
          e = sum_list (map (\<lambda>pc. core_extra (min (acts ! pc) 1)) [1, 2, 3])
      in guarded_div (1 / 10 ^ 9) s (s + e) NaN)"
proof -
  have "saving_retained_frac r = guarded_div (1 / 10 ^ 9)
      (marginal_w_no_partition r - marginal_w_shared r) (marginal_w_no_partition r - marginal_w_split r) NaN"
    if "r = a_row_of ps la f t n" for r ps la f t
    by (simp add: that a_row_of_def Let_def)
  note eq = this [OF refl]
  have le: "F_LITTLE_HZ \<le> 4000 * 10 ^ 6" by (simp add: F_LITTLE_HZ_def)
  show ?thesis
    unfolding eq a_row_marginals [OF le]
    by (simp add: F_LITTLE_HZ_def T_DEFAULT_C_def core_save_def core_extra_def Let_def algebra_simps)
qed

lemma guarded_ratio:
  assumes "0 < e" "e < s" "1 < (s::real)"
  shows "\<exists>x. guarded_div (1 / 10 ^ 9) s (s + e) NaN = Fin x \<and> 1 / 2 < x \<and> x < 1"
proof -
  have "guarded_div (1 / 10 ^ 9) s (s + e) NaN = Fin (s / (s + e))"
    using assms by (simp add: guarded_div_def)
  moreover have "1 / 2 < s / (s + e)" "s / (s + e) < 1" using assms by (simp_all add: field_simps)
  ultimately show ?thesis by blast
qed

lemma default_sums:
  assumes "1 \<le> n" "n \<le> 7"
  defines "sum_of \<equiv> \<lambda>g. sum_list (map (\<lambda>pc. g (min (phys_light_activity n 0.15 ! pc) 1)) [1, 2, 3])"
  shows "0 < sum_of core_extra \<and> sum_of core_extra < sum_of core_save \<and> 1 < sum_of core_save"
proof -
  note b = core_save_bounds [of "0.15", OF order_refl] core_save_bounds [of "0.15 + 0.15"]
  consider "n = 1" | "n = 2" | "n = 3" | "n = 4" | "n = 5" | "n = 6" | "n = 7"
    using assms by linarith
  then show ?thesis
    unfolding sum_of_def by cases (use b in simp_all)
qed

subsection \<open>The detail record\<close>

lemma exp_upper: "0 \<le> x \<Longrightarrow> x < 1 \<Longrightarrow> exp x \<le> 1 / (1 - (x::real))"
  using exp_ge_add_one_self [of "- x"] by (simp add: exp_minus field_simps)

lemma exp_lower: "0 \<le> x \<Longrightarrow> 1 + x + x\<^sup>2 / 2 \<le> exp (x::real)"
  by (rule exp_lower_Taylor_quadratic)

lemma exp_pow_bounds:
  assumes "0 \<le> x" "x < 1"
  shows "(1 + x + x\<^sup>2 / 2) ^ n \<le> exp (real n * x)" "exp (real n * x) \<le> (1 / (1 - x)) ^ n"
  unfolding exp_of_nat_mult
  using assms exp_upper [OF assms] exp_lower [OF assms(1)] by (auto intro!: power_mono add_nonneg_nonneg)

lemma exp_rail_bounds:
  "45 < exp (23 / 6 :: real)" "exp (23 / 6 :: real) < 49.5"
  "9.5 < exp (34 / 15 :: real)" "exp (34 / 15 :: real) < 10.5"
proof -
  have "45 < (85 / 72 :: real) ^ 23" by (simp add: power_divide)
  also have "\<dots> \<le> exp (real 23 * (1 / 6))"
    using exp_pow_bounds(1) [of "1 / 6" 23] by (simp add: power2_eq_square)
  finally show "45 < exp (23 / 6 :: real)" by simp
  have "exp (real 115 * (1 / 30)) \<le> (30 / 29 :: real) ^ 115"
    using exp_pow_bounds(2) [of "1 / 30" 115] by simp
  also have "\<dots> < 49.5" by (simp add: power_divide)
  finally show "exp (23 / 6 :: real) < 49.5" by simp
  have "9.5 < (481 / 450 :: real) ^ 34" by (simp add: power_divide)
  also have "\<dots> \<le> exp (real 34 * (1 / 15))"
    using exp_pow_bounds(1) [of "1 / 15" 34] by (simp add: power2_eq_square)
  finally show "9.5 < exp (34 / 15 :: real)" by simp
  have "exp (real 34 * (1 / 15)) \<le> (15 / 14 :: real) ^ 34"
    using exp_pow_bounds(2) [of "1 / 15" 34] by simp
  also have "\<dots> < 10.5" by (simp add: power_divide)
  finally show "exp (34 / 15 :: real) < 10.5" by simp
qed

lemma detail_default:
  assumes "a_detail_of PARAMS 0.15 F_LITTLE_HZ T_DEFAULT_C = Inr d"
  shows "3 < one_light_core_cost_ratio d \<and> one_light_core_cost_ratio d < 5"
proof -
  let ?big = "exp (23 / 6 :: real)" and ?lit = "exp (34 / 15 :: real)"
  have t: "leak_temp_factor T_DEFAULT_C = 1"
    by (simp add: leak_temp_factor_def T_REF_C_def T_DEFAULT_C_def)
  have d: "one_light_core_cost_ratio d
      = (0.34914 + 0.0119025 * ?big) / (0.1220736 + 0.007038 * ?lit)"
    using assms unfolding a_detail_of_def Let_def turbo_1 v_turbo F_LITTLE_HZ_def v_little t
    by (auto simp: core_leakage_w_def leak_shape_def VT_EFF_V_def t power2_eq_square split: if_splits)
  show ?thesis
    unfolding d using exp_rail_bounds by (simp add: field_simps)
qed

lemma detail_default_exists: "\<exists>d. a_detail_of PARAMS 0.15 F_LITTLE_HZ T_DEFAULT_C = Inr d"
proof -
  have "0 < v_of_f F_LITTLE_HZ * exp (v_of_f F_LITTLE_HZ / VT_EFF_V)" by simp
  then have "0 < core_leakage_w PARAMS (v_of_f F_LITTLE_HZ) True T_DEFAULT_C"
    by (simp add: core_leakage_w_def leak_shape_def)
  moreover have "0 \<le> 0.15 * C_eff PARAMS * (v_of_f F_LITTLE_HZ)\<^sup>2 * F_LITTLE_HZ / 10 ^ 9"
    by (simp add: F_LITTLE_HZ_def)
  ultimately have "0.15 * C_eff PARAMS * (v_of_f F_LITTLE_HZ)\<^sup>2 * F_LITTLE_HZ / 10 ^ 9
      + core_leakage_w PARAMS (v_of_f F_LITTLE_HZ) True T_DEFAULT_C \<noteq> 0"
    by linarith
  then show ?thesis by (simp add: a_detail_of_def Let_def)
qed

lemma a_row_tax:
  assumes "params_ok ps" "0 \<le> f" "f \<le> 3000 * 10 ^ 6"
  shows "0 \<le> rail_tax_w (a_row_of ps la f t n)"
proof -
  have "v_of_f f \<le> v_of_f (3000 * 10 ^ 6)" using assms(3) by (rule v_of_f_mono)
  also have "\<dots> = 1.02" by (simp add: v_of_f_def v_of_table_def VF_ANCHORS_def)
  finally have v: "v_of_f f \<le> 1.035" by simp
  have f: "f \<le> 4000 * 10 ^ 6" using assms(3) by simp
  have "rail_tax_w (a_row_of ps la f t n)
      = marginal_w_shared (a_row_of ps la f t n) - marginal_w_split (a_row_of ps la f t n)"
    by (simp add: a_row_of_def Let_def)
  also have "\<dots> \<ge> 0"
    unfolding a_row_marginals [OF f] diff_ge_0_iff_ge
    by (rule sum_list_mono_map) (rule light_cost_tax [OF assms(1,2) v])
  finally show ?thesis .
qed

lemma default_row_retained:
  assumes "1 \<le> k" "k \<le> 7"
  shows "\<exists>x. saving_retained_frac (a_row_of PARAMS 0.15 F_LITTLE_HZ T_DEFAULT_C k) = Fin x \<and> 1 / 2 < x \<and> x < 1"
  unfolding retained_default Let_def by (rule guarded_ratio) (use default_sums [OF assms] in auto)

subsection \<open>Properties\<close>

text \<open>In every row of experiment A the light threads cost at least as much on the shared rail as
  on split rails, for every number of threads, activity and temperature, as long as the LITTLE
  frequency is at most 3 GHz.\<close>

theorem experiment_a_rail_tax_nonneg:
  assumes "params_ok ps" and "0 \<le> f_light_hz" and "f_light_hz \<le> 3000 * 10 ^ 6"
    and "experiment_a ps light_activity f_light_hz temp_c n = Inr (rows, detail)"
  shows "list_all (\<lambda>r. 0 \<le> rail_tax_w r) rows"
  using assms by (auto simp: experiment_a_def Let_def list_all_iff a_row_tax split: sum.splits)

theorem experiment_a_rail_tax_nonneg_witness:
  "\<exists>rows detail. experiment_a PARAMS 0.15 F_LITTLE_HZ T_DEFAULT_C 7 = Inr (rows, detail)
     \<and> list_all (\<lambda>r. 0 \<le> rail_tax_w r) rows"
proof -
  obtain d where "a_detail_of PARAMS 0.15 F_LITTLE_HZ T_DEFAULT_C = Inr d"
    using detail_default_exists by blast
  then have e: "experiment_a PARAMS 0.15 F_LITTLE_HZ T_DEFAULT_C 7
      = Inr (map (a_row_of PARAMS 0.15 F_LITTLE_HZ T_DEFAULT_C) [1..<7 + 1], d)"
    by (simp add: experiment_a_def Let_def)
  from experiment_a_rail_tax_nonneg [OF params_ok_PARAMS _ _ e] e show ?thesis
    by (simp add: F_LITTLE_HZ_def)
qed

text \<open>C32: with the default settings the run succeeds with seven rows, and in every row EPP retains
  more than half, and less than all, of the saving a true LITTLE cluster would deliver, so the
  destroyed fraction is below one half.\<close>

theorem experiment_a_default_retained:
  "\<exists>rows detail. experiment_a PARAMS 0.15 F_LITTLE_HZ T_DEFAULT_C 7 = Inr (rows, detail)
     \<and> map a_n_light rows = [1..<8]
     \<and> list_all (\<lambda>r. \<exists>x. saving_retained_frac r = Fin x \<and> 1 / 2 < x \<and> x < 1
                     \<and> saving_destroyed_frac r = Fin (1 - x)) rows"
proof -
  obtain d where d: "a_detail_of PARAMS 0.15 F_LITTLE_HZ T_DEFAULT_C = Inr d"
    using detail_default_exists by blast
  let ?row = "a_row_of PARAMS 0.15 F_LITTLE_HZ T_DEFAULT_C"
  have n: "a_n_light (?row k) = k" for k by (simp add: a_row_of_def Let_def)
  have ret: "\<exists>x. saving_retained_frac (?row k) = Fin x \<and> 1 / 2 < x \<and> x < 1
      \<and> saving_destroyed_frac (?row k) = Fin (1 - x)" if "1 \<le> k" "k \<le> 7" for k
  proof -
    have "\<exists>x. saving_retained_frac (?row k) = Fin x \<and> 1 / 2 < x \<and> x < 1"
      by (rule default_row_retained [OF that])
    moreover have "saving_destroyed_frac (?row k) = one_minus (saving_retained_frac (?row k))"
      by (simp add: a_row_of_def Let_def)
    ultimately show ?thesis by auto
  qed
  have "experiment_a PARAMS 0.15 F_LITTLE_HZ T_DEFAULT_C 7 = Inr (map ?row [1..<8], d)"
    using d by (simp add: experiment_a_def Let_def)
  moreover have "map a_n_light (map ?row [1..<8]) = [1..<8]"
    by (simp only: map_map comp_def n list.map_ident)
  moreover have "list_all (\<lambda>r. \<exists>x. saving_retained_frac r = Fin x \<and> 1 / 2 < x \<and> x < 1
      \<and> saving_destroyed_frac r = Fin (1 - x)) (map ?row [1..<8])"
    by (simp only: list_all_iff set_map ball_simps) (intro ballI ret, simp_all)
  ultimately show ?thesis by blast
qed

text \<open>Prediction P1's cost ratio: with the default settings one light core costs between three
  and five times as much on the shared rail as on a rail of its own.\<close>

theorem experiment_a_cost_ratio:
  "\<exists>rows detail. experiment_a PARAMS 0.15 F_LITTLE_HZ T_DEFAULT_C 7 = Inr (rows, detail)
     \<and> 3 < one_light_core_cost_ratio detail \<and> one_light_core_cost_ratio detail < 5"
proof -
  obtain d where d: "a_detail_of PARAMS 0.15 F_LITTLE_HZ T_DEFAULT_C = Inr d"
    using detail_default_exists by blast
  then show ?thesis using detail_default [OF d] by (auto simp: experiment_a_def Let_def)
qed

end
