(* ===== verification/PartitionSweep.thy ===== *)
theory PartitionSweep
  imports PowerCap
begin

text \<open>
  Experiment B of \<open>sim/rail_model.py\<close> (\<open>experiment_b\<close>): a fixed compile job and three background
  tasks, the number of big cores swept from 0 to 4, on the shared rail and on split rails. A row is
  one configuration; the summary picks the cheapest deadline-feasible row of each rail and compares
  the rails at each partition point. The printing half of the function is not modelled. With 0 to 4
  big cores the number of working cores is never 0, so the infinite compile time of the source's
  conditional is not reached.
\<close>

subsection \<open>One configuration\<close>

record b_row =
  b_n_big :: nat
  b_n_little :: nat
  b_shared_rail :: bool
  f_work_ghz :: real
  f_bg_ghz :: real
  bg_activity :: real
  t_compile_s :: real
  t_window_s :: real
  finished_in_horizon :: bool
  p_phase1_w :: watts
  p_phase2_w :: watts
  v_rail_phase1_v :: real
  energy_j :: joules

definition n_work_of :: "nat \<Rightarrow> nat" where
  "n_work_of n_big = (if n_big = 0 then N_PHYS_CORES - n_big else n_big)"

definition f_start_of :: "nat \<Rightarrow> hz" where
  "f_start_of n_big = (if n_big = 0 then F_LITTLE_HZ else turbo_limit_hz (int (max n_big 1)))"

definition f_bg_of :: "nat \<Rightarrow> hz" where
  "f_bg_of n_big = (if N_PHYS_CORES - n_big > 0 then F_LITTLE_HZ else f_start_of n_big)"

definition n_bg_of :: "nat \<Rightarrow> nat" where
  "n_bg_of n_big =
     (if N_PHYS_CORES - n_big > 0 then min (N_PHYS_CORES - n_big) N_LIGHT_TASKS
      else min n_big N_LIGHT_TASKS)"

definition a_bg_of :: "nat \<Rightarrow> real" where
  "a_bg_of n_big =
     (let bg_cycles_per_core =
            real N_LIGHT_TASKS * W_LIGHT_GCYCLES_PER_TASK / real (max (n_bg_of n_big) 1)
      in min 1 (bg_cycles_per_core * 10 ^ 9 / (f_bg_of n_big * HORIZON_S)))"

definition bg_states_fixed :: "nat \<Rightarrow> core_state list" where
  "bg_states_fixed n_big =
     map (\<lambda>i. if i < n_bg_of n_big then (f_bg_of n_big, a_bg_of n_big) else (F_MIN_HZ, 0))
       [0..<N_PHYS_CORES - n_work_of n_big]"

definition b_load :: "params \<Rightarrow> real \<Rightarrow> nat \<Rightarrow> bool \<Rightarrow> load" where
  "b_load ps temp_c n_big shared =
     \<lparr>ld_params = ps, ld_n = n_work_of n_big, ld_activity = 1, ld_shared = shared,
      ld_temp = temp_c, ld_others = bg_states_fixed n_big\<rparr>"

definition f_work_of :: "params \<Rightarrow> real \<Rightarrow> bool \<Rightarrow> nat \<Rightarrow> bool \<Rightarrow> hz" where
  "f_work_of ps temp_c apply_pl1 n_big shared =
     (if apply_pl1 \<and> n_big > 0
      then freq_under_power_cap (b_load ps temp_c n_big shared) (f_start_of n_big) PL1_W
      else f_start_of n_big)"

definition phase1_states :: "nat \<Rightarrow> hz \<Rightarrow> core_state list" where
  "phase1_states n_big f_work =
     map (\<lambda>i. if i < n_work_of n_big then (f_work, 1)
              else if i < n_work_of n_big + n_bg_of n_big then (f_bg_of n_big, a_bg_of n_big)
              else (F_MIN_HZ, 0)) [0..<N_PHYS_CORES]"

definition phase2_states :: "nat \<Rightarrow> core_state list" where
  "phase2_states n_big =
     (if n_bg_of n_big > 0 \<and> N_PHYS_CORES - n_big = 0
      then replicate (n_bg_of n_big) (f_bg_of n_big, a_bg_of n_big)
           @ replicate (N_PHYS_CORES - n_bg_of n_big) (F_MIN_HZ, 0)
      else map (\<lambda>i. if i < n_work_of n_big then (F_MIN_HZ, 0)
                    else if i < n_work_of n_big + n_bg_of n_big then (f_bg_of n_big, a_bg_of n_big)
                    else (F_MIN_HZ, 0)) [0..<N_PHYS_CORES])"

definition b_row_of :: "params \<Rightarrow> real \<Rightarrow> bool \<Rightarrow> nat \<Rightarrow> bool \<Rightarrow> b_row" where
  "b_row_of ps temp_c apply_pl1 n_big shared =
     (let f_work = f_work_of ps temp_c apply_pl1 n_big shared;
          t_compile = W_COMPILE_GCYCLES * 10 ^ 9 / (real (n_work_of n_big) * f_work);
          t_end = max t_compile HORIZON_S;
          p1 = package_power ps (phase1_states n_big f_work) shared temp_c;
          t2 = max 0 (t_end - t_compile);
          p2 = package_power ps (phase2_states n_big) shared temp_c
      in \<lparr>b_n_big = n_big, b_n_little = N_PHYS_CORES - n_big, b_shared_rail = shared,
          f_work_ghz = f_work / 10 ^ 9, f_bg_ghz = f_bg_of n_big / 10 ^ 9,
          bg_activity = a_bg_of n_big, t_compile_s = t_compile, t_window_s = t_end,
          finished_in_horizon = (t_compile \<le> HORIZON_S),
          p_phase1_w = total_w p1, p_phase2_w = total_w p2, v_rail_phase1_v = v_rail p1,
          energy_j = total_w p1 * t_compile + total_w p2 * t2\<rparr>)"

subsection \<open>The sweep and its summary\<close>

definition b_rows :: "params \<Rightarrow> real \<Rightarrow> bool \<Rightarrow> b_row list" where
  "b_rows ps temp_c apply_pl1 =
     concat (map (\<lambda>n_big. map (b_row_of ps temp_c apply_pl1 n_big) [True, False])
       [0..<N_PHYS_CORES + 1])"

definition best_of :: "b_row list \<Rightarrow> b_row" where
  "best_of rows =
     (let feas = filter finished_in_horizon rows
      in the (min_by energy_j (if feas = [] then rows else feas)))"

definition interior :: "b_row list \<Rightarrow> bool" where
  "interior rows = (let b = best_of rows in 0 < b_n_big b \<and> b_n_big b < N_PHYS_CORES)"

definition row_at :: "nat \<Rightarrow> b_row list \<Rightarrow> b_row" where
  "row_at n rows = hd (filter (\<lambda>r. b_n_big r = n) rows)"

definition spread :: "b_row list \<Rightarrow> real" where
  "spread rows =
     (let feas = filter finished_in_horizon rows;
          e = map energy_j (if feas = [] then rows else feas)
      in (list_max e - list_min e) / list_min e)"

record tax_row =
  tx_n_big :: nat
  energy_j_shared :: joules
  energy_j_split :: joules
  rail_tax_j :: joules
  rail_tax_pct :: real
  feasible :: bool

definition tax_row_of :: "b_row list \<Rightarrow> b_row list \<Rightarrow> nat \<Rightarrow> tax_row" where
  "tax_row_of shared_rows split_rows n =
     (let rs = row_at n shared_rows; rp = row_at n split_rows
      in \<lparr>tx_n_big = n, energy_j_shared = energy_j rs, energy_j_split = energy_j rp,
          rail_tax_j = energy_j rs - energy_j rp,
          rail_tax_pct = 100 * (energy_j rs - energy_j rp) / energy_j rp,
          feasible = (finished_in_horizon rs \<and> finished_in_horizon rp)\<rparr>)"

record b_summary =
  best_n_big_shared :: nat
  best_energy_j_shared :: joules
  best_n_big_split :: nat
  best_energy_j_split :: joules
  interior_optimum_shared :: bool
  interior_optimum_split :: bool
  energy_gap_j :: joules
  energy_gap_pct :: real
  partition_benefit_j_shared :: joules
  partition_benefit_j_split :: joules
  partition_benefit_retained_frac :: pyfloat
  curve_spread_frac_shared :: real
  curve_spread_frac_split :: real
  rail_tax_by_n_big :: "tax_row list"
  pl1_applied :: bool

definition experiment_b :: "params \<Rightarrow> real \<Rightarrow> bool \<Rightarrow> b_row list \<times> b_summary" where
  "experiment_b ps temp_c apply_pl1 =
     (let results = b_rows ps temp_c apply_pl1;
          shared_rows = filter b_shared_rail results;
          split_rows = filter (\<lambda>r. \<not> b_shared_rail r) results;
          best_shared = best_of shared_rows;
          best_split = best_of split_rows;
          ben_shared = energy_j (row_at N_PHYS_CORES shared_rows) - energy_j best_shared;
          ben_split = energy_j (row_at N_PHYS_CORES split_rows) - energy_j best_split;
          gap = energy_j best_shared - energy_j best_split
      in (results,
          \<lparr>best_n_big_shared = b_n_big best_shared, best_energy_j_shared = energy_j best_shared,
           best_n_big_split = b_n_big best_split, best_energy_j_split = energy_j best_split,
           interior_optimum_shared = interior shared_rows, interior_optimum_split = interior split_rows,
           energy_gap_j = gap, energy_gap_pct = 100 * gap / energy_j best_split,
           partition_benefit_j_shared = ben_shared, partition_benefit_j_split = ben_split,
           partition_benefit_retained_frac = guarded_div (1 / 10 ^ 9) ben_shared ben_split NaN,
           curve_spread_frac_shared = spread shared_rows, curve_spread_frac_split = spread split_rows,
           rail_tax_by_n_big = map (tax_row_of shared_rows split_rows) [0..<N_PHYS_CORES + 1],
           pl1_applied = apply_pl1\<rparr>))"

subsection \<open>The rows of the sweep\<close>

lemma upto_cores: "[0..<N_PHYS_CORES + 1] = [0, 1, 2, 3, 4]"
  by (simp add: N_PHYS_CORES_def upt_rec)

lemma shared_rows: "filter b_shared_rail (b_rows ps t pl1) = map (\<lambda>n. b_row_of ps t pl1 n True) [0, 1, 2, 3, 4]"
  and split_rows: "filter (\<lambda>r. \<not> b_shared_rail r) (b_rows ps t pl1)
    = map (\<lambda>n. b_row_of ps t pl1 n False) [0, 1, 2, 3, 4]"
  unfolding b_rows_def upto_cores by (simp_all add: b_row_of_def Let_def)

lemma row_at_map:
  "n \<in> set [0, 1, 2, 3, 4::nat] \<Longrightarrow>
     row_at n (map (\<lambda>n. b_row_of ps t pl1 n sh) [0, 1, 2, 3, 4]) = b_row_of ps t pl1 n sh"
  by (auto simp: row_at_def b_row_of_def Let_def)

lemma best_of_cases:
  assumes "rows \<noteq> []"
  shows "best_of rows \<in> set rows"
    and "r \<in> set rows \<Longrightarrow> finished_in_horizon r \<Longrightarrow>
           finished_in_horizon (best_of rows) \<and> energy_j (best_of rows) \<le> energy_j r"
    and "\<forall>r \<in> set rows. \<not> finished_in_horizon r \<Longrightarrow> r' \<in> set rows \<Longrightarrow>
           energy_j (best_of rows) \<le> energy_j r'"
proof -
  let ?feas = "filter finished_in_horizon rows"
  show "best_of rows \<in> set rows"
    using the_min_by(1) [of ?feas energy_j] the_min_by(1) [OF assms, of energy_j]
    by (auto simp: best_of_def Let_def)
  show "finished_in_horizon (best_of rows) \<and> energy_j (best_of rows) \<le> energy_j r"
    if "r \<in> set rows" "finished_in_horizon r"
  proof -
    have "r \<in> set ?feas" using that by simp
    then have "?feas \<noteq> []" by (metis empty_iff list.set(1))
    from the_min_by(1) [OF this, of energy_j] the_min_by(2) [OF this \<open>r \<in> set ?feas\<close>, of energy_j] this
    show ?thesis by (simp add: best_of_def Let_def)
  qed
  show "energy_j (best_of rows) \<le> energy_j r'"
    if "\<forall>r \<in> set rows. \<not> finished_in_horizon r" "r' \<in> set rows"
  proof -
    have "?feas = []" using that(1) by (simp add: filter_empty_conv)
    then show ?thesis using the_min_by(2) [OF assms that(2), of energy_j] by (simp add: best_of_def Let_def)
  qed
qed

lemma f_start_range: "n \<le> 4 \<Longrightarrow> F_MIN_HZ \<le> f_start_of n \<and> f_start_of n \<le> F_TURBO_MAX_HZ"
  by (simp add: f_start_of_def turbo_limit_eq constant_defs)

lemma f_work_pos: "n \<le> 4 \<Longrightarrow> 0 < f_work_of ps t pl1 n sh"
  using f_start_range [of n] cap_range [of "f_start_of n" "b_load ps t n sh" PL1_W]
  by (auto simp: f_work_of_def F_MIN_HZ_def)

lemma f_bg_pos: "n \<le> 4 \<Longrightarrow> 0 < f_bg_of n"
  using f_start_range [of n] by (auto simp: f_bg_of_def F_LITTLE_HZ_def F_MIN_HZ_def)

lemma n_work_pos: "0 < n_work_of n"
  by (simp add: n_work_of_def N_PHYS_CORES_def)

lemma phase_states_nonneg:
  "n \<le> 4 \<Longrightarrow> 0 \<le> f \<Longrightarrow> c \<in> set (phase1_states n f) \<Longrightarrow> 0 \<le> fst c"
  "n \<le> 4 \<Longrightarrow> c \<in> set (phase2_states n) \<Longrightarrow> 0 \<le> fst c"
  using f_bg_pos [of n]
  by (auto simp: phase1_states_def phase2_states_def F_MIN_HZ_def split: if_splits)

text \<open>Without the cap both rails run the same states for the same time.\<close>

lemma tax_no_cap:
  assumes "params_ok ps" "n \<le> 4"
  shows "energy_j (b_row_of ps t False n False) \<le> energy_j (b_row_of ps t False n True)"
proof -
  let ?f = "f_start_of n"
  have f: "f_work_of ps t False n sh = ?f" for sh by (simp add: f_work_of_def)
  have pos: "0 < ?f" using f_work_pos [OF assms(2), of ps t False True] by (simp add: f)
  have "total_w (package_power ps (phase1_states n ?f) False t) \<le> total_w (package_power ps (phase1_states n ?f) True t)"
    by (intro total_split_le_shared assms phase_states_nonneg(1) [OF assms(2) less_imp_le [OF pos]])
  moreover have "total_w (package_power ps (phase2_states n) False t) \<le> total_w (package_power ps (phase2_states n) True t)"
    by (intro total_split_le_shared assms phase_states_nonneg(2) [OF assms(2)])
  ultimately show ?thesis
    using pos n_work_pos [of n]
    by (auto simp: b_row_of_def Let_def f W_COMPILE_GCYCLES_def
        intro!: add_mono mult_right_mono divide_right_mono)
qed

subsection \<open>The capped runs\<close>

lemma b_load_ok: "params_ok ps \<Longrightarrow> n \<le> 4 \<Longrightarrow> load_ok (b_load ps t n sh)"
  using f_bg_pos [of n] by (auto simp: load_ok_def b_load_def bg_states_fixed_def list_all_iff F_MIN_HZ_def)

lemma bg_tables:
  "bg_states_fixed 2 = [(800 * 10 ^ 6, 15 / 16), (800 * 10 ^ 6, 15 / 16)]"
  "bg_states_fixed 3 = [(800 * 10 ^ 6, 1)]"
  "n_work_of 2 = 2" "n_work_of 3 = 3" "a_bg_of 3 = 1" "n_bg_of 3 = 1" "f_bg_of 3 = 800 * 10 ^ 6"
  "f_start_of 2 = 4000 * 10 ^ 6" "f_start_of 3 = 3900 * 10 ^ 6"
  by (simp_all add: bg_states_fixed_def n_bg_of_def f_bg_of_def a_bg_of_def n_work_of_def f_start_of_def
      turbo_limit_eq constant_defs Let_def upt_rec)

lemma p_at_3_below: "p_at (b_load PARAMS T_DEFAULT_C 3 True) (1400 * 10 ^ 6) < 15"
proof -
  have v: "v_of_f 1400000000 = 19 / 25" by (simp add: v_eval)
  have "p_at (b_load PARAMS T_DEFAULT_C 3 True) (1400 * 10 ^ 6)
      = 3 * core_share PARAMS T_DEFAULT_C 0.76 (1400 * 10 ^ 6, 1)
        + core_share PARAMS T_DEFAULT_C 0.76 (800 * 10 ^ 6, 1) + ring_w (1400 * 10 ^ 6) + 0.9"
    by (subst p_at_form) (simp_all add: b_load_def bg_tables v core_volt_def core_active_def ACTIVITY_C6_EPS_def)
  also have "\<dots> < 15"
    using exp_le_pow [of "38 / 15" 3]
    by (simp add: core_share_default core_active_def ACTIVITY_C6_EPS_def ring_eval v_eval power2_eq_square)
  finally show ?thesis .
qed

lemma f_work_3:
  assumes "n = 3"
  shows "1399 * 10 ^ 6 < f_work_of PARAMS T_DEFAULT_C True n sh"
proof -
  have "p_at (b_load PARAMS T_DEFAULT_C 3 sh) (1400 * 10 ^ 6) < 15"
    using p_at_3_below p_at_split_le_shared [OF b_load_ok [of PARAMS 3 T_DEFAULT_C sh], of "1400 * 10 ^ 6"]
    by (cases sh) (simp_all add: b_load_def)
  then have "1400 * 10 ^ 6 - 10 ^ 5 < freq_under_power_cap (b_load PARAMS T_DEFAULT_C 3 sh) (f_start_of 3) PL1_W"
    by (intro cap_reaches b_load_ok) (simp_all add: bg_tables constant_defs)
  then show ?thesis by (simp add: f_work_of_def assms)
qed

lemma p_at_2_shared_above: "15 < p_at (b_load PARAMS T_DEFAULT_C 2 True) (2450 * 10 ^ 6)"
proof -
  have v: "v_of_f 2450000000 = 2239 / 2400" by (simp add: v_eval)
  have "15 < 2 * core_share PARAMS T_DEFAULT_C (11195 / 12000) (2450 * 10 ^ 6, 1)
        + (core_share PARAMS T_DEFAULT_C (11195 / 12000) (800 * 10 ^ 6, 15 / 16)
        + core_share PARAMS T_DEFAULT_C (11195 / 12000) (800 * 10 ^ 6, 15 / 16)) + ring_w (2450 * 10 ^ 6) + 0.9"
    using exp_ge_add_one_self [of "(11195 / 12000) / (0.3 :: real)"]
    by (simp add: core_share_default core_active_def ACTIVITY_C6_EPS_def ring_eval v_eval power2_eq_square)
  also have "\<dots> = p_at (b_load PARAMS T_DEFAULT_C 2 True) (2450 * 10 ^ 6)"
    by (subst p_at_form) (simp_all add: b_load_def bg_tables v core_volt_def core_active_def ACTIVITY_C6_EPS_def)
  finally show ?thesis .
qed

lemma p_at_2_split_below: "p_at (b_load PARAMS T_DEFAULT_C 2 False) (2460 * 10 ^ 6) < 15"
proof -
  have v: "v_of_f 2460000000 = 1869 / 2000" "v_of_f 800000000 = 17 / 25" by (simp_all add: v_eval)
  have "p_at (b_load PARAMS T_DEFAULT_C 2 False) (2460 * 10 ^ 6)
      = 2 * core_share PARAMS T_DEFAULT_C 0.9345 (2460 * 10 ^ 6, 1)
        + (core_share PARAMS T_DEFAULT_C 0.68 (800 * 10 ^ 6, 15 / 16)
        + core_share PARAMS T_DEFAULT_C 0.68 (800 * 10 ^ 6, 15 / 16)) + ring_w (2460 * 10 ^ 6) + 0.9"
    by (subst p_at_form) (simp_all add: b_load_def bg_tables v core_volt_def core_active_def ACTIVITY_C6_EPS_def)
  also have "\<dots> < 15"
  proof -
    have "exp (623 / 200 :: real) = exp 3 * exp (23 / 200)" by (simp add: exp_add [symmetric])
    moreover have "exp (23 / 200 :: real) \<le> 1.2"
      using exp_ge_add_one_self [of "- (23 / 200) :: real"] by (simp add: exp_minus field_simps)
    ultimately have "exp (623 / 200 :: real) \<le> 27 * 1.2"
      using exp_le_pow [of 3 3] mult_mono [of "exp 3" 27 "exp (23 / 200)" "1.2 :: real"] by simp
    moreover have "exp (34 / 15 :: real) \<le> 27" using exp_le_pow [of "34 / 15" 3] by simp
    ultimately show ?thesis
      by (simp add: core_share_default core_active_def ACTIVITY_C6_EPS_def ring_eval v_eval power2_eq_square)
  qed
  finally show ?thesis .
qed

subsection \<open>Background work\<close>

text \<open>
  The background work of the whole job, in giga-cycles, and the part of it the background cores of a
  row can execute in a time span at the row's frequency and activity.
\<close>

definition bg_demand_gcycles :: real where
  "bg_demand_gcycles = real N_LIGHT_TASKS * W_LIGHT_GCYCLES_PER_TASK"

definition bg_done_gcycles :: "b_row \<Rightarrow> real \<Rightarrow> real" where
  "bg_done_gcycles r secs = real (n_bg_of (b_n_big r)) * bg_activity r * f_bg_ghz r * secs"

lemma tables_4:
  "n_bg_of 4 = 3" "n_work_of 4 = 4" "f_bg_of 4 = 3700 * 10 ^ 6" "a_bg_of 4 = 5 / 37"
  by (simp_all add: n_bg_of_def n_work_of_def f_bg_of_def a_bg_of_def f_start_of_def turbo_limit_eq
      constant_defs Let_def)

lemma phase1_all_big: "phase1_states 4 f = replicate 4 (f, 1)"
  by (rule nth_equalityI) (simp_all add: phase1_states_def tables_4 N_PHYS_CORES_def)

lemma row_in_sweep: "n \<le> 4 \<Longrightarrow> b_row_of ps t pl1 n sh \<in> set (fst (experiment_b ps t pl1))"
  by (cases sh) (auto simp: experiment_b_def Let_def b_rows_def N_PHYS_CORES_def)

lemma row_sel:
  "b_n_big (b_row_of ps t pl1 n sh) = n" "bg_activity (b_row_of ps t pl1 n sh) = a_bg_of n"
  "f_bg_ghz (b_row_of ps t pl1 n sh) = f_bg_of n / 10 ^ 9"
  "f_work_ghz (b_row_of ps t pl1 n sh) = f_work_of ps t pl1 n sh / 10 ^ 9"
  "b_shared_rail (b_row_of ps t pl1 n sh) = sh"
  "t_compile_s (b_row_of ps t pl1 n sh)
     = W_COMPILE_GCYCLES * 10 ^ 9 / (real (n_work_of n) * f_work_of ps t pl1 n sh)"
  "t_window_s (b_row_of ps t pl1 n sh) = max (t_compile_s (b_row_of ps t pl1 n sh)) HORIZON_S"
  "finished_in_horizon (b_row_of ps t pl1 n sh) = (t_compile_s (b_row_of ps t pl1 n sh) \<le> HORIZON_S)"
  by (simp_all add: b_row_of_def Let_def)

lemma t_compile_pos: "n \<le> 4 \<Longrightarrow> 0 < t_compile_s (b_row_of ps t pl1 n sh)"
  using f_work_pos [of n ps t pl1 sh] n_work_pos [of n] by (simp add: row_sel W_COMPILE_GCYCLES_def)

subsection \<open>Properties\<close>

text \<open>With the power cap ignored, experiment B's rail tax is non-negative at every partition
  point: the same placement never costs less energy on the shared rail.\<close>

theorem experiment_b_rail_tax_nonneg:
  assumes "params_ok ps"
  shows "list_all (\<lambda>r. 0 \<le> rail_tax_j r) (rail_tax_by_n_big (snd (experiment_b ps temp_c False)))"
  unfolding experiment_b_def Let_def shared_rows split_rows upto_cores
  using tax_no_cap [OF assms]
  by (simp add: tax_row_of_def Let_def row_at_map [simplified])

theorem experiment_b_rail_tax_nonneg_witness:
  "list_all (\<lambda>r. 0 \<le> rail_tax_j r) (rail_tax_by_n_big (snd (experiment_b PARAMS T_DEFAULT_C False)))"
  by (rule experiment_b_rail_tax_nonneg) simp



text \<open>C33: in the default run the configurations with three big cores are counted as meeting the
  deadline on both rails, although their single background core is saturated and executes at most
  24 of the 45 giga-cycles of background work within the accounting window.\<close>

theorem experiment_b_background_deadline_missed:
  "list_all (\<lambda>sh. \<exists>r. r \<in> set (fst (experiment_b PARAMS T_DEFAULT_C True))
      \<and> b_n_big r = 3 \<and> b_shared_rail r = sh \<and> finished_in_horizon r \<and> bg_activity r = 1
      \<and> bg_done_gcycles r (t_window_s r) = 24 \<and> bg_demand_gcycles = 45) [True, False]"
proof -
  let ?r = "\<lambda>sh. b_row_of PARAMS T_DEFAULT_C True 3 sh"
  have t: "t_compile_s (?r sh) \<le> 30" for sh
    using f_work_3 [of 3 sh] by (simp add: row_sel bg_tables W_COMPILE_GCYCLES_def field_simps)
  then have "finished_in_horizon (?r sh) \<and> t_window_s (?r sh) = 30" for sh
    using t [of sh] by (simp add: row_sel(7,8) HORIZON_S_def max_def)
  moreover have "?r sh \<in> set (fst (experiment_b PARAMS T_DEFAULT_C True))" for sh
    by (rule row_in_sweep) simp
  moreover have "bg_demand_gcycles = 45"
    by (simp add: bg_demand_gcycles_def N_LIGHT_TASKS_def W_LIGHT_GCYCLES_PER_TASK_def)
  ultimately show ?thesis
    unfolding list.pred_inject
    by (intro conjI TrueI exI [of _ "?r True"] exI [of _ "?r False"])
      (simp_all add: row_sel(1-5) bg_tables bg_done_gcycles_def)
qed

text \<open>With all four cores big, phase 1 runs the compile on every core, and the background is
  executed only in what is left of the window, so the energy charged covers strictly less than the
  background work; for every parameter set, rail and cap setting.\<close>

theorem experiment_b_all_big_undercharges:
  "phase1_states 4 f_work = replicate 4 (f_work, 1)
   \<and> (let r = b_row_of ps temp_c pl1 4 shared
      in bg_done_gcycles r (t_window_s r - t_compile_s r) < bg_demand_gcycles)"
proof -
  let ?r = "b_row_of ps temp_c pl1 4 shared"
  have "t_window_s ?r - t_compile_s ?r < 30"
    using t_compile_pos [of 4 ps temp_c pl1 shared] by (simp add: row_sel(7) HORIZON_S_def max_def)
  then have "bg_done_gcycles ?r (t_window_s ?r - t_compile_s ?r) < 45"
    by (simp add: bg_done_gcycles_def row_sel(1-5) tables_4)
  then show ?thesis
    by (simp add: phase1_all_big Let_def bg_demand_gcycles_def N_LIGHT_TASKS_def W_LIGHT_GCYCLES_PER_TASK_def)
qed

text \<open>In the default run the two rails are not compared at the same frequency: under PL1 the
  two-big-core configuration runs faster on split rails than on the shared rail.\<close>

theorem experiment_b_frequencies_differ:
  "\<exists>rs rp. {rs, rp} \<subseteq> set (fst (experiment_b PARAMS T_DEFAULT_C True))
     \<and> b_n_big rs = 2 \<and> b_n_big rp = 2 \<and> b_shared_rail rs \<and> \<not> b_shared_rail rp
     \<and> f_work_ghz rs < 2.45 \<and> 2.45 < f_work_ghz rp"
proof -
  let ?l = "b_load PARAMS T_DEFAULT_C 2"
  have top: "F_MIN_HZ \<le> f_start_of 2" "f_start_of 2 \<le> F_TURBO_MAX_HZ"
    using f_start_range [of 2] by simp_all
  have "f_work_of PARAMS T_DEFAULT_C True 2 True < 2450 * 10 ^ 6"
  proof (rule ccontr)
    assume "\<not> ?thesis"
    then have ge: "2450 * 10 ^ 6 \<le> freq_under_power_cap (?l True) (f_start_of 2) PL1_W"
      by (simp add: f_work_of_def)
    then have "p_at (?l True) (2450 * 10 ^ 6) \<le> p_at (?l True) (freq_under_power_cap (?l True) (f_start_of 2) PL1_W)"
      by (intro package.mono b_load_ok) simp_all
    with p_at_2_shared_above ge cap_range [OF top(1), of "?l True" PL1_W]
    show False by (auto simp: PL1_W_def F_MIN_HZ_def)
  qed
  moreover have "2460 * 10 ^ 6 - 10 ^ 5 < f_work_of PARAMS T_DEFAULT_C True 2 False"
  proof -
    have "2460 * 10 ^ 6 - 10 ^ 5 < freq_under_power_cap (?l False) (f_start_of 2) PL1_W"
      using p_at_2_split_below
      by (intro cap_reaches b_load_ok top) (simp_all add: bg_tables PL1_W_def)
    then show ?thesis by (simp add: f_work_of_def)
  qed
  ultimately show ?thesis
    by (intro exI [of _ "b_row_of PARAMS T_DEFAULT_C True 2 True"] exI [of _ "b_row_of PARAMS T_DEFAULT_C True 2 False"])
      (simp add: row_sel(1-5) row_in_sweep)
qed

end
