(* ===== verification/RaceToIdle.thy ===== *)
theory RaceToIdle
  imports PowerCap
begin

text \<open>
  Experiment C of \<open>sim/rail_model.py\<close> (\<open>experiment_c\<close>): the energy of a fixed job against the
  frequency it is run at, with the package floor, without it, and for the cores alone. The frequency
  loop is a recursive function with a termination proof; the run is a value of a sum type whose left
  side is the exception Python raises. The printing half is not modelled.
\<close>

subsection \<open>The frequency sweep\<close>

record c_row =
  f_ghz :: real
  v_v :: real
  t_s :: real
  p_w :: watts
  p_dyn_w :: watts
  p_leak_w :: watts
  p_uncore_w :: watts
  e_j :: joules
  e_j_no_fixed_floor :: joules
  e_j_core_only :: joules

definition c_states :: "nat \<Rightarrow> hz \<Rightarrow> core_state list" where
  "c_states n_cores f = replicate n_cores (f, 1) @ replicate (N_PHYS_CORES - n_cores) (F_MIN_HZ, 0)"

definition c_row_of :: "params \<Rightarrow> nat \<Rightarrow> real \<Rightarrow> real \<Rightarrow> hz \<Rightarrow> c_row" where
  "c_row_of ps n_cores work_gcycles temp_c f =
     (let p = package_power ps (c_states n_cores f) True temp_c;
          t = work_gcycles * 10 ^ 9 / (real n_cores * f)
      in \<lparr>f_ghz = f / 10 ^ 9, v_v = v_rail p, t_s = t, p_w = total_w p, p_dyn_w = dyn p,
          p_leak_w = leak p, p_uncore_w = uncore p, e_j = total_w p * t,
          e_j_no_fixed_floor = (total_w p - uncore_sa p) * t,
          e_j_core_only = (dyn p + leak p) * t\<rparr>)"

text \<open>The \<open>while f <= f_ceiling + 1\<close> loop, for any row function.\<close>

function c_curve :: "(hz \<Rightarrow> 'r) \<Rightarrow> hz \<Rightarrow> hz \<Rightarrow> 'r list" where
  "c_curve row f_ceiling f =
     (if f \<le> f_ceiling + 1 then row f # c_curve row f_ceiling (f + FREQ_SWEEP_STEP_HZ) else [])"
  by pat_completeness auto
termination
proof (relation "measure (\<lambda>(row, c, f). nat \<lceil>(c + 2 - f) / FREQ_SWEEP_STEP_HZ\<rceil>)")
  fix row :: "hz \<Rightarrow> 'r" and c f :: hz
  assume "f \<le> c + 1"
  then have "0 < (c + 2 - f) / FREQ_SWEEP_STEP_HZ" by (simp add: FREQ_SWEEP_STEP_HZ_def)
  moreover have "(c + 2 - (f + FREQ_SWEEP_STEP_HZ)) / FREQ_SWEEP_STEP_HZ = (c + 2 - f) / FREQ_SWEEP_STEP_HZ - 1"
    by (simp add: FREQ_SWEEP_STEP_HZ_def field_simps)
  ultimately show "((row, c, f + FREQ_SWEEP_STEP_HZ), row, c, f)
      \<in> measure (\<lambda>(row, c, f). nat \<lceil>(c + 2 - f) / FREQ_SWEEP_STEP_HZ\<rceil>)"
    by simp
qed simp

declare c_curve.simps [simp del]

record c_summary =
  c_n_cores :: nat
  c_work_gcycles :: real
  crossover_f_ghz :: real
  crossover_v_v :: real
  crossover_energy_j :: joules
  crossover_runtime_s :: real
  f_opt_ghz_without_fixed_floor :: real
  f_opt_ghz_core_only :: real
  energy_at_f_min_j :: joules
  energy_penalty_of_running_at_f_min_pct :: real
  uncore_share_at_f_min_pct :: real
  uncore_share_at_crossover_pct :: real

definition c_summary_of :: "nat \<Rightarrow> real \<Rightarrow> c_row list \<Rightarrow> c_row \<Rightarrow> c_summary" where
  "c_summary_of n_cores work_gcycles curve e_at_min =
     (let best = the (min_by e_j curve) in
      \<lparr>c_n_cores = n_cores, c_work_gcycles = work_gcycles,
       crossover_f_ghz = f_ghz best, crossover_v_v = v_v best, crossover_energy_j = e_j best,
       crossover_runtime_s = t_s best,
       f_opt_ghz_without_fixed_floor = f_ghz (the (min_by e_j_no_fixed_floor curve)),
       f_opt_ghz_core_only = f_ghz (the (min_by e_j_core_only curve)),
       energy_at_f_min_j = e_j e_at_min,
       energy_penalty_of_running_at_f_min_pct = 100 * (e_j e_at_min - e_j best) / e_j best,
       uncore_share_at_f_min_pct = 100 * p_uncore_w e_at_min / p_w e_at_min,
       uncore_share_at_crossover_pct = 100 * p_uncore_w best / p_w best\<rparr>)"

definition experiment_c :: "params \<Rightarrow> nat \<Rightarrow> real \<Rightarrow> real \<Rightarrow> py_error + c_row list \<times> c_summary" where
  "experiment_c ps n_cores work_gcycles temp_c =
     (if n_cores = 0 then Inl ZeroDivisionError
      else
        let f_ceiling = turbo_limit_hz (int n_cores);
            curve = c_curve (c_row_of ps n_cores work_gcycles temp_c) f_ceiling F_MIN_HZ;
            best = the (min_by e_j curve)
        in case filter (\<lambda>r. \<bar>f_ghz r - F_MIN_HZ / 10 ^ 9\<bar> < 1 / 10 ^ 6) curve of
             [] \<Rightarrow> Inl IndexError
           | e_at_min # _ \<Rightarrow>
               if e_j best = 0 \<or> p_w e_at_min = 0 \<or> p_w best = 0 then Inl ZeroDivisionError
               else Inr (curve, c_summary_of n_cores work_gcycles curve e_at_min))"

subsection \<open>What the loop visits\<close>

lemma c_curve_cons: "f \<le> c + 1 \<Longrightarrow> c_curve row c f = row f # c_curve row c (f + FREQ_SWEEP_STEP_HZ)"
  and c_curve_end: "\<not> f \<le> c + 1 \<Longrightarrow> c_curve row c f = []"
  by (simp_all add: c_curve.simps [of row c f])

lemma c_curve_map: "c_curve row c f = map row (c_curve (\<lambda>f. f) c f)"
proof (induction row c f rule: c_curve.induct)
  case (1 row c f)
  show ?case
    by (cases "f \<le> c + 1") (simp_all add: c_curve_cons c_curve_end "1.IH")
qed

lemma c_curve_set:
  "g \<in> set (c_curve (\<lambda>f. f) c f) \<longleftrightarrow> g \<le> c + 1 \<and> (\<exists>i. g = f + real i * FREQ_SWEEP_STEP_HZ)"
proof (induction "\<lambda>f::hz. f" c f rule: c_curve.induct)
  case (1 c f)
  show ?case
  proof (cases "f \<le> c + 1")
    case True
    have eq: "(\<exists>i. g = f + real i * FREQ_SWEEP_STEP_HZ)
        \<longleftrightarrow> g = f \<or> (\<exists>i. g = f + FREQ_SWEEP_STEP_HZ + real i * FREQ_SWEEP_STEP_HZ)"
    proof
      assume "\<exists>i. g = f + real i * FREQ_SWEEP_STEP_HZ"
      then obtain i where i: "g = f + real i * FREQ_SWEEP_STEP_HZ" by blast
      then show "g = f \<or> (\<exists>i. g = f + FREQ_SWEEP_STEP_HZ + real i * FREQ_SWEEP_STEP_HZ)"
        by (cases i) (auto simp: algebra_simps)
    next
      assume "g = f \<or> (\<exists>i. g = f + FREQ_SWEEP_STEP_HZ + real i * FREQ_SWEEP_STEP_HZ)"
      then obtain i where "g = f + real 0 * FREQ_SWEEP_STEP_HZ \<or> g = f + real (Suc i) * FREQ_SWEEP_STEP_HZ"
        by (auto simp: algebra_simps)
      then show "\<exists>i. g = f + real i * FREQ_SWEEP_STEP_HZ" by blast
    qed
    show ?thesis
      unfolding c_curve_cons [OF True] eq using True by (auto simp: "1.hyps" [OF True])
  next
    case False
    have "c + 1 < f + real i * FREQ_SWEEP_STEP_HZ" for i
      using False by (simp add: FREQ_SWEEP_STEP_HZ_def add_strict_increasing2)
    then show ?thesis unfolding c_curve_end [OF False] by (metis empty_iff list.set(1) not_le)
  qed
qed

lemma turbo_ge_min: "F_MIN_HZ \<le> turbo_limit_hz n"
  by (simp add: turbo_limit_eq F_MIN_HZ_def)

definition c_points :: "nat \<Rightarrow> hz list" where
  "c_points n_cores = c_curve (\<lambda>f. f) (turbo_limit_hz (int n_cores)) F_MIN_HZ"

lemma c_points_hd: "c_points n = F_MIN_HZ # tl (c_points n)"
  using turbo_ge_min [of "int n"] by (simp add: c_points_def c_curve_cons)

lemma c_points_range: "f \<in> set (c_points n) \<Longrightarrow> F_MIN_HZ \<le> f \<and> f \<le> turbo_limit_hz (int n) + 1"
  unfolding c_points_def by (auto simp: c_curve_set FREQ_SWEEP_STEP_HZ_def)

lemma c_points_pos: "f \<in> set (c_points n) \<Longrightarrow> 0 < f"
  using c_points_range [of f n] by (simp add: F_MIN_HZ_def)

lemma c_states_nonneg: "0 \<le> f \<Longrightarrow> c \<in> set (c_states n f) \<Longrightarrow> 0 \<le> fst c"
  by (auto simp: c_states_def F_MIN_HZ_def)


subsection \<open>The rows\<close>

lemma uncore_sa_eq: "uncore_sa (package_power ps cs sh t) = (if some_active cs then p_sa_floor ps else P_PKG_C6_W)"
  by (simp add: package_power_def Let_def some_active_iff)

lemma uncore_split: "uncore (package_power ps cs sh t)
    = uncore_sa (package_power ps cs sh t) + uncore_ring (package_power ps cs sh t) + uncore_traffic (package_power ps cs sh t)"
  by (simp add: package_power_def Let_def)

lemma c_states_active: "0 < n \<Longrightarrow> some_active (c_states n f)"
  by (auto simp: some_active_def c_states_def core_active_def ACTIVITY_C6_EPS_def)

lemma ring_w_pos: "0 < ring_w f"
  unfolding ring_w_def
  by (intro mult_pos_pos zero_less_power divide_pos_pos)
    (auto simp: C_RING_W_PER_V2_GHZ_def f_ring_of_def F_RING_MIN_HZ_def F_RING_MAX_HZ_def less_max_iff_disj)

lemma c_total_pos:
  assumes "params_ok ps" "0 < n" "0 < f"
  shows "0 < total_w (package_power ps (c_states n f) True t)"
proof -
  have "0 \<le> fst c" if "c \<in> set (c_states n f)" for c
    using c_states_nonneg [of f c n] that assms by simp
  then have "0 \<le> sum_list (map (\<lambda>c. core_share ps t (core_volt True (v_of_f (f_max_of (c_states n f))) c) c) (c_states n f))"
    using assms by (intro sum_list_map_nonneg core_share_nonneg) auto
  then show ?thesis
    using assms(1) ring_w_pos [of "f_max_of (c_states n f)"]
    by (simp add: total_active [OF c_states_active [OF assms(2)]] params_ok_def)
qed

lemma c_row_sel:
  "f_ghz (c_row_of ps n w t f) = f / 10 ^ 9"
  "t_s (c_row_of ps n w t f) = w * 10 ^ 9 / (real n * f)"
  "p_w (c_row_of ps n w t f) = total_w (package_power ps (c_states n f) True t)"
  "e_j (c_row_of ps n w t f) = total_w (package_power ps (c_states n f) True t) * (w * 10 ^ 9 / (real n * f))"
  "0 < n \<Longrightarrow> e_j_no_fixed_floor (c_row_of ps n w t f)
     = e_j (c_row_of ps n w t f) - p_sa_floor ps * (w * 10 ^ 9 / (real n * f))"
  by (simp_all add: c_row_of_def Let_def uncore_sa_eq c_states_active left_diff_distrib)

lemma c_row_pos:
  assumes "params_ok ps" "0 < n" "0 < w" "f \<in> set (c_points n)"
  shows "0 < e_j (c_row_of ps n w t f)" and "0 < p_w (c_row_of ps n w t f)"
  using c_total_pos [OF assms(1,2), of f t] c_points_pos [OF assms(4)] assms
  by (simp_all add: c_row_sel)

lemma c_row_order:
  assumes "params_ok ps" "0 < n" "0 < w" "f \<in> set (c_points n)"
  shows "e_j_core_only (c_row_of ps n w t f) \<le> e_j_no_fixed_floor (c_row_of ps n w t f)"
    and "e_j_no_fixed_floor (c_row_of ps n w t f) \<le> e_j (c_row_of ps n w t f)"
proof -
  let ?p = "package_power ps (c_states n f) True t"
  note f = c_points_pos [OF assms(4)]
  have t: "0 \<le> w * 10 ^ 9 / (real n * f)" using f assms by simp
  have "0 \<le> fst c" if "c \<in> set (c_states n f)" for c
    using c_states_nonneg [of f c n] that f by simp
  then have tr: "0 \<le> sum_list (map (\<lambda>c. snd c * fst c / 10 ^ 9) (filter (\<lambda>c. core_active (snd c)) (c_states n f)))"
    using core_active_pos by (intro sum_list_map_nonneg) (fastforce intro: less_imp_le)
  then have "0 \<le> uncore_ring ?p" "0 \<le> uncore_traffic ?p" "0 \<le> uncore_sa ?p"
    using assms(1)
    by (simp_all add: package_power_def Let_def params_ok_def K_UNCORE_TRAFFIC_W_PER_GHZ_def P_PKG_C6_W_def
        ring_w_nonneg)
  then have le: "dyn ?p + leak ?p \<le> total_w ?p - uncore_sa ?p" "total_w ?p - uncore_sa ?p \<le> total_w ?p"
    using total_sum [of ps "c_states n f" True t] uncore_split [of ps "c_states n f" True t] by linarith+
  show "e_j_core_only (c_row_of ps n w t f) \<le> e_j_no_fixed_floor (c_row_of ps n w t f)"
    using mult_right_mono [OF le(1) t] by (simp only: c_row_of_def Let_def c_row.simps)
  show "e_j_no_fixed_floor (c_row_of ps n w t f) \<le> e_j (c_row_of ps n w t f)"
    using mult_right_mono [OF le(2) t] by (simp only: c_row_of_def Let_def c_row.simps)
qed

text \<open>The run, on every input it does not raise on: the energy-minimum row is found, the first row
  is the one at the minimum frequency, and no quotient of the summary divides by zero.\<close>

lemma experiment_c_eq:
  assumes "params_ok ps" "0 < n" "0 < w"
  shows "experiment_c ps n w t =
    (let curve = map (c_row_of ps n w t) (c_points n)
     in Inr (curve, c_summary_of n w curve (c_row_of ps n w t F_MIN_HZ)))"
proof -
  let ?row = "c_row_of ps n w t"
  let ?curve = "map ?row (c_points n)"
  have curve: "c_curve ?row (turbo_limit_hz (int n)) F_MIN_HZ = ?curve"
    unfolding c_points_def by (rule c_curve_map)
  have first: "?curve = ?row F_MIN_HZ # map ?row (tl (c_points n))"
    by (subst c_points_hd) simp
  have fil: "filter (\<lambda>r. \<bar>f_ghz r - F_MIN_HZ / 10 ^ 9\<bar> < 1 / 10 ^ 6) ?curve
      = ?row F_MIN_HZ # filter (\<lambda>r. \<bar>f_ghz r - F_MIN_HZ / 10 ^ 9\<bar> < 1 / 10 ^ 6) (map ?row (tl (c_points n)))"
    by (subst first) (simp add: c_row_sel)
  have "the (min_by e_j ?curve) \<in> set ?curve"
    by (rule the_min_by) (simp add: first)
  moreover have "F_MIN_HZ \<in> set (c_points n)"
    by (subst c_points_hd) simp
  ultimately have "e_j (the (min_by e_j ?curve)) \<noteq> 0 \<and> p_w (the (min_by e_j ?curve)) \<noteq> 0 \<and> p_w (?row F_MIN_HZ) \<noteq> 0"
    using c_row_pos [OF assms, of _ t] by (smt (verit) imageE set_map)
  with fil assms(2) show ?thesis
    by (simp add: experiment_c_def curve Let_def)
qed

subsection \<open>The default run\<close>

lemma e_j_default:
  assumes "0 < f"
  shows "e_j (c_row_of PARAMS 4 120 T_DEFAULT_C f)
    = 30 * (8.8 * (v_of_f f)\<^sup>2 + 0.48 + (0.0414 * v_of_f f * exp (v_of_f f / 0.3) + ring_w f + 0.9) / (f / 10 ^ 9))"
proof -
  have cs: "c_states 4 f = replicate 4 (f, 1)" by (simp add: c_states_def N_PHYS_CORES_def)
  have act: "core_active 1" by (simp add: core_active_def ACTIVITY_C6_EPS_def)
  have "f_max_of (replicate 4 (f, 1)) = fst (f, 1::real)"
    using act by (intro f_max_of_eqI) auto
  then have "total_w (package_power PARAMS (c_states 4 f) True T_DEFAULT_C)
      = 4 * core_share PARAMS T_DEFAULT_C (v_of_f f) (f, 1) + ring_w f + 0.9"
    using c_states_active [of 4 f] by (simp add: total_active cs sum_list_replicate core_volt_def)
  then show ?thesis
    using assms act by (simp add: c_row_sel core_share_default field_simps)
qed

text \<open>A lower bound of the energy on a frequency interval, in GHz.\<close>

lemma e_j_above:
  assumes "0 < a" "a * 10 ^ 9 \<le> f" "f \<le> b * 10 ^ 9"
    and "E < 30 * (8.8 * (v_of_f (a * 10 ^ 9))\<^sup>2 + 0.48
      + (0.0414 * v_of_f (a * 10 ^ 9) * (1 + v_of_f (a * 10 ^ 9) / 0.3 / 16) ^ 16 + ring_w (a * 10 ^ 9) + 0.9) / b)"
  shows "E < e_j (c_row_of PARAMS 4 120 T_DEFAULT_C f)"
proof -
  define v r where "v = v_of_f (a * 10 ^ 9)" and "r = ring_w (a * 10 ^ 9)"
  have "0 < a * 10 ^ 9" using assms(1) by simp
  with assms(2) have "0 < f" by linarith
  then have pos: "0 < f" "0 \<le> v" "0 < f / 10 ^ 9" "f / 10 ^ 9 \<le> b" "0 \<le> r"
    using assms(3) by (auto simp: v_def r_def ring_w_nonneg)
  have v: "v \<le> v_of_f f" using v_of_f_mono [OF assms(2)] by (simp add: v_def)
  have r: "r \<le> ring_w f" using ring_w_mono [OF assms(2)] by (simp add: r_def)
  have "(1 + v / 0.3 / 16) ^ 16 \<le> exp (v / 0.3)" using exp_lower16 [of "v / 0.3"] pos by simp
  also have "\<dots> \<le> exp (v_of_f f / 0.3)" using v by simp
  finally have "0.0414 * v * (1 + v / 0.3 / 16) ^ 16 \<le> 0.0414 * v_of_f f * exp (v_of_f f / 0.3)"
    using v pos by (intro mult_mono) auto
  then have "(0.0414 * v * (1 + v / 0.3 / 16) ^ 16 + r + 0.9) / b
      \<le> (0.0414 * v_of_f f * exp (v_of_f f / 0.3) + ring_w f + 0.9) / (f / 10 ^ 9)"
    using r pos by (intro frac_le) auto
  moreover have "v\<^sup>2 \<le> (v_of_f f)\<^sup>2" using v pos by (intro power_mono)
  moreover have "E < 30 * (8.8 * y + 0.48 + B)"
    if "E < 30 * (8.8 * x + 0.48 + A)" "x \<le> y" "A \<le> B" for x y A B :: real
    using that by simp
  ultimately show ?thesis using assms(4) unfolding e_j_default [OF pos(1)] v_def [symmetric] r_def [symmetric] by blast
qed

lemma e_j_little: "e_j (c_row_of PARAMS 4 120 T_DEFAULT_C F_LITTLE_HZ) \<le> 190.05"
proof -
  have v: "v_of_f 800000000 = 17 / 25" "ring_w 800000000 = 0.8 * 0.55 * (17 / 25)\<^sup>2"
    by (simp_all add: v_eval ring_eval)
  have "exp (34 / 15 :: real) \<le> 1 / (1 - 34 / 15 / 16) ^ 16" by (rule exp_upper16) simp_all
  also have "\<dots> \<le> 11.53" by (simp add: power_divide)
  finally have "exp (34 / 15 :: real) \<le> 11.53" .
  then show ?thesis
    by (simp add: e_j_default F_LITTLE_HZ_def v power2_eq_square field_simps)
qed

lemma v_grid:
  "v_of_f 400000000 = 13 / 20" "v_of_f 600000000 = 133 / 200" "v_of_f 700000000 = 269 / 400"
  "v_of_f 800000000 = 17 / 25" "v_of_f 825000000 = 437 / 640" "v_of_f 925000000 = 2221 / 3200"
  "v_of_f 1050000000 = 1133 / 1600" "v_of_f 1250000000 = 587 / 800" "v_of_f 1275000000 = 1181 / 1600" "v_of_f 1400000000 = 19 / 25"
  "v_of_f 2075000000 = 4193 / 4800" "v_of_f 2150000000 = 85 / 96"
  by (simp_all add: v_eval)

lemma ring_grid: "ring_w f = 0.55 * (v_of_f (f_ring_of f))\<^sup>2 * (f_ring_of f / 10 ^ 9)"
  by (simp add: ring_w_def C_RING_W_PER_V2_GHZ_def)

lemmas grid_eval = v_grid ring_grid f_ring_of_def F_RING_MIN_HZ_def F_RING_MAX_HZ_def

text \<open>Outside 0.6 to 1.25 GHz the energy is above the energy at 0.8 GHz, and nowhere on the curve is
  it below 1/1.05 of it.\<close>

lemma e_j_outside:
  assumes "400 * 10 ^ 6 \<le> f" "f \<le> 3750 * 10 ^ 6" "f \<le> 600 * 10 ^ 6 \<or> 1250 * 10 ^ 6 \<le> f"
  shows "190.05 < e_j (c_row_of PARAMS 4 120 T_DEFAULT_C f)"
proof -
  consider "f \<le> 600 * 10 ^ 6" | "1250 * 10 ^ 6 \<le> f" "f \<le> 1400 * 10 ^ 6"
    | "1400 * 10 ^ 6 \<le> f" "f \<le> 2150 * 10 ^ 6" | "2150 * 10 ^ 6 \<le> f"
    using assms(3) by linarith
  then show ?thesis
  proof cases
    case 1 with assms show ?thesis
      by (intro e_j_above [where a = "0.4" and b = "0.6"]) (simp_all add: grid_eval power_divide)
  next
    case 2 with assms show ?thesis
      by (intro e_j_above [where a = "1.25" and b = "1.4"]) (simp_all add: grid_eval power_divide)
  next
    case 3 with assms show ?thesis
      by (intro e_j_above [where a = "1.4" and b = "2.15"]) (simp_all add: grid_eval power_divide)
  next
    case 4 with assms show ?thesis
      by (intro e_j_above [where a = "2.15" and b = "3.75"]) (simp_all add: grid_eval power_divide)
  qed
qed

lemma e_j_near:
  assumes "400 * 10 ^ 6 \<le> f" "f \<le> 3750 * 10 ^ 6"
  shows "181 < e_j (c_row_of PARAMS 4 120 T_DEFAULT_C f)"
proof -
  consider "f \<le> 700 * 10 ^ 6" | "700 * 10 ^ 6 \<le> f" "f \<le> 825 * 10 ^ 6"
    | "825 * 10 ^ 6 \<le> f" "f \<le> 925 * 10 ^ 6" | "925 * 10 ^ 6 \<le> f" "f \<le> 1050 * 10 ^ 6"
    | "1050 * 10 ^ 6 \<le> f" "f \<le> 1250 * 10 ^ 6" | "1250 * 10 ^ 6 \<le> f"
    by linarith
  then show ?thesis
  proof cases
    case 1 with assms show ?thesis
      by (intro e_j_above [where a = "0.4" and b = "0.7"]) (simp_all add: grid_eval power_divide)
  next
    case 2 with assms show ?thesis
      by (intro e_j_above [where a = "0.7" and b = "0.825"]) (simp_all add: grid_eval power_divide)
  next
    case 3 with assms show ?thesis
      by (intro e_j_above [where a = "0.825" and b = "0.925"]) (simp_all add: grid_eval power_divide)
  next
    case 4 with assms show ?thesis
      by (intro e_j_above [where a = "0.925" and b = "1.05"]) (simp_all add: grid_eval power_divide)
  next
    case 5 with assms show ?thesis
      by (intro e_j_above [where a = "1.05" and b = "1.25"]) (simp_all add: grid_eval power_divide)
  next
    case 6 with assms e_j_outside [of f] show ?thesis by simp
  qed
qed

text \<open>Without the floor the minimum frequency is not the optimum either.\<close>

lemma no_floor_interior:
  "e_j_no_fixed_floor (c_row_of PARAMS 4 120 T_DEFAULT_C (700 * 10 ^ 6))
     < e_j_no_fixed_floor (c_row_of PARAMS 4 120 T_DEFAULT_C F_MIN_HZ)"
proof -
  have "(1 + 13 / 6 / 16) ^ 16 \<le> exp (13 / 6 :: real)" by (rule exp_lower16) simp
  then have lo: "7.5 \<le> exp (13 / 6 :: real)" by (rule order_trans [rotated]) (simp add: power_divide)
  have "exp (269 / 120 :: real) \<le> 1 / (1 - 269 / 120 / 16) ^ 16" by (rule exp_upper16) simp_all
  then have hi: "exp (269 / 120 :: real) \<le> 11.3" by (rule order_trans) (simp add: power_divide)
  show ?thesis
    using lo hi by (simp add: c_row_sel(5) e_j_default F_MIN_HZ_def grid_eval power_divide field_simps)
qed

text \<open>The default crossover, and the penalty at the minimum frequency of any run.\<close>

lemma default_best:
  fixes f :: hz
  assumes "f \<in> set (c_points 4)" "e_j (c_row_of PARAMS 4 120 T_DEFAULT_C f) \<le> e_j (c_row_of PARAMS 4 120 T_DEFAULT_C F_LITTLE_HZ)"
  shows "600 * 10 ^ 6 < f \<and> f < 1250 * 10 ^ 6"
proof -
  have "400 * 10 ^ 6 \<le> f \<and> f \<le> 3750 * 10 ^ 6"
    using c_points_range [OF assms(1)] by (simp add: turbo_limit_eq F_MIN_HZ_def)
  then show ?thesis using e_j_outside [of f] assms(2) e_j_little by force
qed

lemma c_points_grid: "F_MIN_HZ \<in> set (c_points 4)" "700 * 10 ^ 6 \<in> set (c_points 4)" "F_LITTLE_HZ \<in> set (c_points 4)"
  unfolding c_points_def c_curve_set
  by (auto simp: turbo_limit_eq constant_defs intro: exI [of _ 0] exI [of _ 12] exI [of _ 16])

lemma default_summary:
  assumes "s = c_summary_of 4 120 (map (c_row_of PARAMS 4 120 T_DEFAULT_C) (c_points 4)) e"
  shows "0.6 < crossover_f_ghz s \<and> crossover_f_ghz s < 1.25"
proof -
  let ?row = "c_row_of PARAMS 4 120 T_DEFAULT_C"
  have ne: "map ?row (c_points 4) \<noteq> []" using c_points_grid(1) by auto
  from the_min_by [OF ne] obtain f
    where f: "f \<in> set (c_points 4)" "the (min_by e_j (map ?row (c_points 4))) = ?row f" "e_j (?row f) \<le> e_j (?row F_LITTLE_HZ)"
    using c_points_grid(3) by (smt (verit, best) image_iff image_set)
  from default_best [OF f(1,3)] show ?thesis by (simp add: assms c_summary_of_def Let_def f(2) c_row_sel(1))
qed

subsection \<open>Properties\<close>

text \<open>C26: for every admissible parameter set the run raises nothing: the curve samples the
  frequencies from the minimum P-state to the turbo ceiling in 25 MHz steps, each row's core-only
  energy is at most its energy without the floor and that at most its full energy, the reported
  crossover is a row of least energy, and running at the minimum frequency costs no less.\<close>

theorem experiment_c_crossover:
  assumes "params_ok ps" "0 < n_cores" "0 < work"
  shows "\<exists>curve s. experiment_c ps n_cores work temp_c = Inr (curve, s)
    \<and> (\<lambda>r. f_ghz r * 10 ^ 9) ` set curve
        = {f. f \<le> turbo_limit_hz (int n_cores) + 1 \<and> (\<exists>i. f = F_MIN_HZ + real i * FREQ_SWEEP_STEP_HZ)}
    \<and> list_all (\<lambda>r. e_j_core_only r \<le> e_j_no_fixed_floor r \<and> e_j_no_fixed_floor r \<le> e_j r) curve
    \<and> list_ex (\<lambda>b. f_ghz b = crossover_f_ghz s \<and> e_j b = crossover_energy_j s
                    \<and> list_all (\<lambda>r. e_j b \<le> e_j r) curve) curve
    \<and> 0 \<le> energy_penalty_of_running_at_f_min_pct s"
proof -
  let ?row = "c_row_of ps n_cores work temp_c"
  let ?curve = "map ?row (c_points n_cores)"
  let ?best = "the (min_by e_j ?curve)"
  have min_in: "F_MIN_HZ \<in> set (c_points n_cores)" by (subst c_points_hd) simp
  then have ne: "?curve \<noteq> []" by auto
  have best: "?best \<in> set ?curve" "\<And>r. r \<in> set ?curve \<Longrightarrow> e_j ?best \<le> e_j r"
    using the_min_by [OF ne, where f = e_j] by auto
  then have "0 < e_j ?best" using c_row_pos(1) [OF assms, of _ temp_c] by auto
  moreover have "e_j ?best \<le> e_j (?row F_MIN_HZ)" using best(2) min_in by auto
  moreover have "(\<lambda>r. f_ghz r * 10 ^ 9) ` set ?curve = set (c_points n_cores)"
    by (simp add: image_image c_row_sel(1))
  moreover have "\<dots> = {f. f \<le> turbo_limit_hz (int n_cores) + 1
      \<and> (\<exists>i. f = F_MIN_HZ + real i * FREQ_SWEEP_STEP_HZ)}"
    unfolding c_points_def by (auto simp: c_curve_set)
  moreover have "list_all (\<lambda>r. e_j_core_only r \<le> e_j_no_fixed_floor r \<and> e_j_no_fixed_floor r \<le> e_j r) ?curve"
    using c_row_order [OF assms, of _ temp_c] by (auto simp: list_all_iff)
  ultimately show ?thesis
    unfolding experiment_c_eq [OF assms] Let_def using best
    by (intro exI [of _ ?curve] exI conjI, simp, simp, simp)
      (auto simp: c_summary_of_def Let_def list_ex_iff list_all_iff)
qed

theorem experiment_c_crossover_witness:
  "\<exists>curve s. experiment_c PARAMS 4 120 T_DEFAULT_C = Inr (curve, s) \<and> 0 \<le> energy_penalty_of_running_at_f_min_pct s"
  using experiment_c_crossover [of PARAMS 4 120 T_DEFAULT_C] by auto

text \<open>The fixed floor never lowers the energy-optimal frequency: the crossover is at or above
  the optimum computed without the floor.\<close>

theorem experiment_c_floor_raises_optimum:
  assumes "params_ok ps" "0 < n_cores" "0 < work"
    and "experiment_c ps n_cores work temp_c = Inr (curve, s)"
  shows "f_opt_ghz_without_fixed_floor s \<le> crossover_f_ghz s"
proof (rule ccontr)
  let ?row = "c_row_of ps n_cores work temp_c"
  let ?curve = "map ?row (c_points n_cores)"
  have s: "s = c_summary_of n_cores work ?curve (?row F_MIN_HZ)"
    using assms(4) unfolding experiment_c_eq [OF assms(1-3)] Let_def by auto
  have "?curve \<noteq> []" by (subst c_points_hd) simp
  from the_min_by [OF this] obtain f g
    where f: "f \<in> set (c_points n_cores)" "the (min_by e_j ?curve) = ?row f"
      and g: "g \<in> set (c_points n_cores)" "the (min_by e_j_no_fixed_floor ?curve) = ?row g"
      and fg: "e_j (?row f) \<le> e_j (?row g)" "e_j_no_fixed_floor (?row g) \<le> e_j_no_fixed_floor (?row f)"
    by (smt (verit, best) image_iff image_set)
  assume "\<not> ?thesis"
  then have less: "f < g" using f(2) g(2) by (simp add: s c_summary_of_def Let_def c_row_sel(1) divide_right_mono not_le)
  show False
  proof (cases "p_sa_floor ps = 0")
    case True
    then have "map e_j ?curve = map e_j_no_fixed_floor ?curve"
      using assms(2) by (simp add: c_row_sel(5))
    then have "min_by e_j ?curve = min_by e_j_no_fixed_floor ?curve" by (rule min_by_cong)
    with f(2) g(2) have "f_ghz (?row f) = f_ghz (?row g)" by simp
    with less show False by (simp add: c_row_sel(1))
  next
    case False
    then have "0 < p_sa_floor ps" using assms(1) by (simp add: params_ok_def)
    moreover have "work * 10 ^ 9 / (real n_cores * g) < work * 10 ^ 9 / (real n_cores * f)"
      using less c_points_pos [OF f(1)] assms by (intro divide_strict_left_mono) auto
    ultimately have "p_sa_floor ps * (work * 10 ^ 9 / (real n_cores * g)) < p_sa_floor ps * (work * 10 ^ 9 / (real n_cores * f))"
      by (rule mult_strict_left_mono [rotated])
    with fg show False unfolding c_row_sel(5) [OF assms(2)] by linarith
  qed
qed

theorem experiment_c_floor_raises_optimum_witness:
  "list_all (\<lambda>cs. f_opt_ghz_without_fixed_floor (snd cs) \<le> crossover_f_ghz (snd cs))
     (case experiment_c PARAMS 4 120 T_DEFAULT_C of Inl _ \<Rightarrow> [] | Inr cs \<Rightarrow> [cs])"
  using experiment_c_floor_raises_optimum [of PARAMS 4 120 T_DEFAULT_C] by (simp split: sum.split)

text \<open>C31: in the default run the race-to-idle crossover lies strictly between 0.6 and 1.25 GHz and
  costs at most 5\% less than running the same work at the LITTLE frequency of 0.8 GHz; and even
  without the fixed floor the optimum is above the minimum P-state.\<close>

theorem experiment_c_default_crossover:
  "\<exists>curve s. experiment_c PARAMS N_PHYS_CORES W_COMPILE_GCYCLES T_DEFAULT_C = Inr (curve, s)
     \<and> 0.6 < crossover_f_ghz s \<and> crossover_f_ghz s < 1.25
     \<and> list_ex (\<lambda>r. f_ghz r = F_LITTLE_HZ / 10 ^ 9 \<and> e_j r \<le> 1.05 * crossover_energy_j s) curve
     \<and> F_MIN_HZ / 10 ^ 9 < f_opt_ghz_without_fixed_floor s"
proof -
  let ?row = "c_row_of PARAMS 4 120 T_DEFAULT_C"
  let ?curve = "map ?row (c_points 4)"
  have ok: "params_ok PARAMS" "0 < (4::nat)" "0 < (120::real)" by simp_all
  note mem = c_points_grid
  have ne: "?curve \<noteq> []" using mem by auto
  from the_min_by [OF ne] obtain f g
    where f: "f \<in> set (c_points 4)" "the (min_by e_j ?curve) = ?row f" "e_j (?row f) \<le> e_j (?row F_LITTLE_HZ)"
      and g: "g \<in> set (c_points 4)" "the (min_by e_j_no_fixed_floor ?curve) = ?row g"
        "e_j_no_fixed_floor (?row g) \<le> e_j_no_fixed_floor (?row (700 * 10 ^ 6))"
    using mem by (smt (verit, best) image_iff image_set)
  have range: "400 * 10 ^ 6 \<le> h \<and> h \<le> 3750 * 10 ^ 6" if "h \<in> set (c_points 4)" for h
    using c_points_range [OF that] by (simp add: turbo_limit_eq F_MIN_HZ_def)
  have "600 * 10 ^ 6 < f \<and> f < 1250 * 10 ^ 6" by (rule default_best [OF f(1,3)])
  moreover have "e_j (?row F_LITTLE_HZ) \<le> 1.05 * e_j (?row f)"
    using e_j_near [of f] range [OF f(1)] e_j_little by simp
  moreover have "F_MIN_HZ < g"
    using no_floor_interior g(3) c_points_range [OF g(1)] by (metis leD order_le_less)
  ultimately show ?thesis
    using mem(3) experiment_c_eq [OF ok, of T_DEFAULT_C]
    by (simp add: Let_def N_PHYS_CORES_def W_COMPILE_GCYCLES_def c_summary_of_def f(2) g(2) c_row_sel(1) list_ex_iff)
qed

end
