(* ===== verification/LinearSolve.thy ===== *)
theory LinearSolve
  imports Prelude
begin

text \<open>
  \<open>_solve_linear\<close> of \<open>sim/rail_model.py\<close>: Gaussian elimination with partial pivoting on the augmented
  matrix, and back substitution. Rows are lists and the matrix a list of rows, as in the source. The
  contract a caller may rely on is the locale \<open>linear_solver\<close>, interpreted below on \<open>solve_linear\<close>.
\<close>

type_synonym vec = "real list"
type_synonym mat = "real list list"

subsection \<open>The algorithm\<close>

definition augment :: "mat \<Rightarrow> vec \<Rightarrow> mat" where
  "augment A b = map (\<lambda>i. A ! i @ [b ! i]) [0..<length b]"

definition pivot_row :: "nat \<Rightarrow> nat \<Rightarrow> mat \<Rightarrow> nat" where
  "pivot_row n col M = the (max_by (\<lambda>r. \<bar>M ! r ! col\<bar>) [col..<n])"

definition swap_rows :: "nat \<Rightarrow> nat \<Rightarrow> mat \<Rightarrow> mat" where
  "swap_rows i j M = M[i := M ! j, j := M ! i]"

text \<open>The inner loop over \<open>c in range(col, n + 1)\<close>, for one row below the pivot row.\<close>

definition eliminate_row :: "nat \<Rightarrow> vec \<Rightarrow> vec \<Rightarrow> vec" where
  "eliminate_row col prow row =
     (let fac = row ! col / prow ! col
      in if fac = 0 then row
         else map (\<lambda>c. if c < col then row ! c else row ! c - fac * prow ! c) [0..<length row])"

definition eliminate_below :: "nat \<Rightarrow> mat \<Rightarrow> mat" where
  "eliminate_below col M =
     map (\<lambda>r. if col < r then eliminate_row col (M ! col) (M ! r) else M ! r) [0..<length M]"

text \<open>The outer loop, with \<open>k\<close> columns left; \<open>None\<close> is the early \<open>return None\<close>.\<close>

fun forward :: "nat \<Rightarrow> nat \<Rightarrow> mat \<Rightarrow> mat option" where
  "forward n 0 M = Some M"
| "forward n (Suc k) M =
     (let col = n - Suc k;
          piv = pivot_row n col M
      in if \<bar>M ! piv ! col\<bar> < 1 / 10 ^ 14 then None
         else forward n k (eliminate_below col (swap_rows col piv M)))"

text \<open>Back substitution: \<open>xs\<close> holds the entries already computed, from row \<open>r\<close> upwards.\<close>

fun back_subst :: "nat \<Rightarrow> mat \<Rightarrow> nat \<Rightarrow> vec \<Rightarrow> vec" where
  "back_subst n M 0 xs = xs"
| "back_subst n M (Suc r) xs =
     (let s = M ! r ! n - sum_list (map (\<lambda>c. M ! r ! c * xs ! (c - Suc r)) [Suc r..<n])
      in back_subst n M r (s / M ! r ! r # xs))"

definition solve_linear :: "mat \<Rightarrow> vec \<Rightarrow> vec option" where
  "solve_linear A b =
     (let n = length b
      in case forward n n (augment A b) of None \<Rightarrow> None | Some M \<Rightarrow> Some (back_subst n M n []))"

subsection \<open>Rows, shapes and solutions\<close>

definition dot :: "nat \<Rightarrow> vec \<Rightarrow> (nat \<Rightarrow> real) \<Rightarrow> real" where
  "dot n row y = (\<Sum>c<n. row ! c * y c)"

definition shape :: "nat \<Rightarrow> nat \<Rightarrow> mat \<Rightarrow> bool" where
  "shape n m M \<longleftrightarrow> length M = n \<and> (\<forall>row \<in> set M. length row = m)"

definition solves :: "nat \<Rightarrow> mat \<Rightarrow> (nat \<Rightarrow> real) \<Rightarrow> bool" where
  "solves n M y \<longleftrightarrow> (\<forall>r<n. dot n (M ! r) y = M ! r ! n)"

definition small :: "nat \<Rightarrow> mat \<Rightarrow> (nat \<Rightarrow> real) \<Rightarrow> real \<Rightarrow> bool" where
  "small n M y e \<longleftrightarrow> (\<forall>r<n. \<bar>dot n (M ! r) y\<bar> \<le> e)"

definition triangular :: "nat \<Rightarrow> nat \<Rightarrow> mat \<Rightarrow> bool" where
  "triangular n col M \<longleftrightarrow> (\<forall>r<n. \<forall>c<col. c < r \<longrightarrow> M ! r ! c = 0) \<and> (\<forall>r<col. M ! r ! r \<noteq> 0)"

lemma shape_row: "shape n m M \<Longrightarrow> r < n \<Longrightarrow> length (M ! r) = m"
  by (auto simp: shape_def)

lemma pivot_row_max:
  assumes "col < n"
  shows "col \<le> pivot_row n col M \<and> pivot_row n col M < n"
    and "col \<le> r \<Longrightarrow> r < n \<Longrightarrow> \<bar>M ! r ! col\<bar> \<le> \<bar>M ! pivot_row n col M ! col\<bar>"
proof -
  have "[col..<n] \<noteq> []" using assms by simp
  from max_by_exists [OF this] obtain p where "max_by (\<lambda>r. \<bar>M ! r ! col\<bar>) [col..<n] = Some p" ..
  from max_by_Some [OF this] this
  show "col \<le> pivot_row n col M \<and> pivot_row n col M < n"
    and "col \<le> r \<Longrightarrow> r < n \<Longrightarrow> \<bar>M ! r ! col\<bar> \<le> \<bar>M ! pivot_row n col M ! col\<bar>"
    by (auto simp: pivot_row_def)
qed

lemma swap_nth:
  "i < length M \<Longrightarrow> j < length M \<Longrightarrow> r < length M \<Longrightarrow>
     swap_rows i j M ! r = (if r = j then M ! i else if r = i then M ! j else M ! r)"
  by (auto simp: swap_rows_def nth_list_update)

lemma swap_shape: "shape n m M \<Longrightarrow> i < n \<Longrightarrow> j < n \<Longrightarrow> shape n m (swap_rows i j M)"
  by (auto simp: shape_def swap_rows_def in_set_conv_nth nth_list_update)

lemma swap_all:
  assumes "length M = n" "i < n" "j < n"
  shows "(\<forall>r<n. P (swap_rows i j M ! r)) \<longleftrightarrow> (\<forall>r<n. P (M ! r))"
  using assms by (auto simp: swap_nth)

lemma eliminate_length [simp]: "length (eliminate_row col p row) = length row"
  by (simp add: eliminate_row_def Let_def)

lemma eliminate_nth:
  assumes "c < length row"
  shows "eliminate_row col p row ! c = (if c < col then row ! c else row ! c - row ! col / p ! col * p ! c)"
  using assms by (simp add: eliminate_row_def Let_def)

lemma below_nth:
  "r < length M \<Longrightarrow> eliminate_below col M ! r = (if col < r then eliminate_row col (M ! col) (M ! r) else M ! r)"
  by (simp add: eliminate_below_def)

lemma below_shape: "shape n m M \<Longrightarrow> shape n m (eliminate_below col M)"
  by (auto simp: shape_def eliminate_below_def)

lemma dot_eliminate:
  assumes "length row = Suc n" "\<And>c. c < col \<Longrightarrow> p ! c = 0"
  shows "dot n (eliminate_row col p row) y = dot n row y - row ! col / p ! col * dot n p y"
proof -
  have "eliminate_row col p row ! c = row ! c - row ! col / p ! col * p ! c" if "c < n" for c
    using that assms by (simp add: eliminate_nth)
  then show ?thesis
    by (simp add: dot_def left_diff_distrib sum_subtractf sum_distrib_left mult.assoc)
qed

subsection \<open>One elimination step\<close>

lemma triangular_zero: "triangular n col M \<Longrightarrow> r < n \<Longrightarrow> c < col \<Longrightarrow> c < r \<Longrightarrow> M ! r ! c = 0"
  by (simp add: triangular_def)

lemma below_solves:
  assumes "shape n (Suc n) M" "triangular n col M" "col < n"
  shows "solves n (eliminate_below col M) y \<longleftrightarrow> solves n M y"
proof -
  have len: "length M = n" using assms(1) by (simp add: shape_def)
  have z: "M ! col ! c = 0" if "c < col" for c using triangular_zero [OF assms(2)] assms(3) that by simp
  have row: "dot n (eliminate_below col M ! r) y = eliminate_below col M ! r ! n
      \<longleftrightarrow> (if col < r then dot n (M ! r) y - M ! r ! col / M ! col ! col * dot n (M ! col) y
              = M ! r ! n - M ! r ! col / M ! col ! col * M ! col ! n
           else dot n (M ! r) y = M ! r ! n)" if "r < n" for r
    using that assms shape_row [OF assms(1) that]
    by (simp add: below_nth len dot_eliminate [of _ n col] z eliminate_nth)
  show ?thesis
  proof
    assume l: "solves n (eliminate_below col M) y"
    then have "dot n (M ! col) y = M ! col ! n" using row [of col] assms(3) by (simp add: solves_def)
    with l show "solves n M y" by (simp add: solves_def row split: if_splits) (metis diff_left_imp_eq)
  next
    assume "solves n M y"
    then show "solves n (eliminate_below col M) y" using assms(3) by (simp add: solves_def row)
  qed
qed

lemma below_small:
  assumes "shape n (Suc n) M" "triangular n col M" "col < n"
    and max: "\<And>r. col < r \<Longrightarrow> r < n \<Longrightarrow> \<bar>M ! r ! col\<bar> \<le> \<bar>M ! col ! col\<bar>"
    and sm: "small n (eliminate_below col M) y e" and "0 \<le> e"
  shows "small n M y (2 * e)"
  unfolding small_def
proof (intro allI impI)
  fix r assume r: "r < n"
  have len: "length M = n" using assms(1) by (simp add: shape_def)
  have z: "M ! col ! c = 0" if "c < col" for c using triangular_zero [OF assms(2)] assms(3) that by simp
  have p: "\<bar>dot n (M ! col) y\<bar> \<le> e"
    using sm assms(3) by (auto simp: small_def below_nth len dest: spec [of _ col])
  show "\<bar>dot n (M ! r) y\<bar> \<le> 2 * e"
  proof (cases "col < r")
    case True
    let ?f = "M ! r ! col / M ! col ! col"
    have "\<bar>?f\<bar> \<le> 1" using max [OF True r] by (simp add: divide_le_eq_1)
    then have "\<bar>?f * dot n (M ! col) y\<bar> \<le> 1 * e"
      unfolding abs_mult using p by (intro mult_mono) auto
    moreover have "\<bar>dot n (M ! r) y - ?f * dot n (M ! col) y\<bar> \<le> e"
      using sm r True shape_row [OF assms(1) r]
      by (auto simp: small_def below_nth len dot_eliminate [of _ n col] z dest: spec [of _ r])
    ultimately show ?thesis by linarith
  next
    case False
    then show ?thesis using sm r assms(6) by (fastforce simp: small_def below_nth len)
  qed
qed

lemma below_triangular:
  assumes "shape n (Suc n) M" "triangular n col M" "col < n" "M ! col ! col \<noteq> 0"
  shows "triangular n (Suc col) (eliminate_below col M)"
proof -
  have len: "length M = n" using assms(1) by (simp add: shape_def)
  have "eliminate_below col M ! r ! c = 0" if "r < n" "c < Suc col" "c < r" for r c
    using that assms triangular_zero [OF assms(2), of r c] triangular_zero [OF assms(2), of col c]
      shape_row [OF assms(1) that(1)]
    by (cases "c = col") (auto simp: below_nth len eliminate_nth)
  moreover have "eliminate_below col M ! r ! r \<noteq> 0" if "r < Suc col" for r
    using that assms by (cases "r = col") (auto simp: below_nth len triangular_def)
  ultimately show ?thesis by (simp add: triangular_def)
qed

lemma swap_triangular:
  assumes "length M = n" "triangular n col M" "col \<le> p" "p < n"
  shows "triangular n col (swap_rows col p M)"
  using assms by (auto simp: triangular_def swap_nth)

text \<open>The matrix after the swap and the elimination of one column.\<close>

definition col_step :: "nat \<Rightarrow> nat \<Rightarrow> mat \<Rightarrow> mat" where
  "col_step n col M = eliminate_below col (swap_rows col (pivot_row n col M) M)"

lemma col_step:
  assumes "shape n (Suc n) M" "triangular n col M" "col < n"
  shows "shape n (Suc n) (col_step n col M)"
    and "M ! pivot_row n col M ! col \<noteq> 0 \<Longrightarrow> triangular n (Suc col) (col_step n col M)"
    and "solves n (col_step n col M) y \<longleftrightarrow> solves n M y"
    and "0 \<le> e \<Longrightarrow> small n (col_step n col M) y e \<Longrightarrow> small n M y (2 * e)"
proof -
  let ?p = "pivot_row n col M"
  let ?S = "swap_rows col ?p M"
  have len: "length M = n" using assms(1) by (simp add: shape_def)
  note p = pivot_row_max [OF assms(3), where M = M]
  have S: "shape n (Suc n) ?S" "triangular n col ?S"
    using assms p len by (auto intro: swap_shape swap_triangular)
  show "shape n (Suc n) (col_step n col M)"
    unfolding col_step_def by (rule below_shape [OF S(1)])
  show "triangular n (Suc col) (col_step n col M)" if "M ! ?p ! col \<noteq> 0"
    unfolding col_step_def
    by (rule below_triangular [OF S assms(3)]) (use that p len assms(3) in \<open>auto simp: swap_nth\<close>)
  show "solves n (col_step n col M) y \<longleftrightarrow> solves n M y"
    unfolding col_step_def below_solves [OF S assms(3)] unfolding solves_def
    using swap_all [OF len assms(3), of ?p "\<lambda>row. dot n row y = row ! n"] p by blast
  show "small n M y (2 * e)" if "0 \<le> e" "small n (col_step n col M) y e"
  proof -
    have "\<bar>?S ! r ! col\<bar> \<le> \<bar>?S ! col ! col\<bar>" if "col < r" "r < n" for r
      using that p len assms(3) by (auto simp: swap_nth)
    from below_small [OF S assms(3) this that(2) [unfolded col_step_def] that(1)]
    show ?thesis
      unfolding small_def using swap_all [OF len assms(3), of ?p "\<lambda>row. \<bar>dot n row y\<bar> \<le> 2 * e"] p by blast
  qed
qed

subsection \<open>Forward elimination\<close>

lemma forward_Suc:
  "forward n (Suc k) M =
     (let col = n - Suc k
      in if \<bar>M ! pivot_row n col M ! col\<bar> < 1 / 10 ^ 14 then None else forward n k (col_step n col M))"
  by (simp add: Let_def col_step_def)

declare forward.simps(2) [simp del]

lemma forward_Some:
  "shape n (Suc n) M \<Longrightarrow> k \<le> n \<Longrightarrow> triangular n (n - k) M \<Longrightarrow> forward n k M = Some M' \<Longrightarrow>
     shape n (Suc n) M' \<and> triangular n n M' \<and> (\<forall>y. solves n M' y \<longleftrightarrow> solves n M y)"
proof (induction k arbitrary: M)
  case (Suc k)
  let ?col = "n - Suc k"
  have col: "?col < n" "Suc ?col = n - k" using Suc.prems(2) by simp_all
  have piv: "\<not> \<bar>M ! pivot_row n ?col M ! ?col\<bar> < 1 / 10 ^ 14" "forward n k (col_step n ?col M) = Some M'"
    using Suc.prems(4) by (simp_all add: forward_Suc Let_def split: if_splits)
  then have nz: "M ! pivot_row n ?col M ! ?col \<noteq> 0" by auto
  note step = col_step [OF Suc.prems(1,3) col(1)]
  from Suc.IH [OF step(1) _ _ piv(2)] step(2) [OF nz] Suc.prems(2) show ?case
    by (simp add: col(2) step(3))
qed simp

subsection \<open>Back substitution\<close>

lemma interval_sum: "sum_list (map f [a..<b]) = (\<Sum>c\<in>{a..<b}. f c)" for f :: "nat \<Rightarrow> real"
  by (simp add: interv_sum_list_conv_sum_set_nat)

definition row_eq :: "nat \<Rightarrow> mat \<Rightarrow> (nat \<Rightarrow> real) \<Rightarrow> nat \<Rightarrow> bool" where
  "row_eq n M y i \<longleftrightarrow> (\<Sum>c\<in>{i..<n}. M ! i ! c * y c) = M ! i ! n"

lemma back_spec:
  "length xs = n - r \<Longrightarrow> r \<le> n \<Longrightarrow> (\<forall>i<r. M ! i ! i \<noteq> 0) \<Longrightarrow>
     length (back_subst n M r xs) = n
     \<and> ((\<forall>i<r. row_eq n M y i) \<and> (\<forall>c. r \<le> c \<and> c < n \<longrightarrow> y c = xs ! (c - r))
        \<longleftrightarrow> (\<forall>c<n. y c = back_subst n M r xs ! c))"
proof (induction r arbitrary: xs)
  case (Suc r)
  define x where
    "x = (M ! r ! n - sum_list (map (\<lambda>c. M ! r ! c * xs ! (c - Suc r)) [Suc r..<n])) / M ! r ! r"
  have r: "r < n" "M ! r ! r \<noteq> 0" using Suc.prems by auto
  have len: "length (x # xs) = n - r" using Suc.prems by simp
  have row: "row_eq n M y r \<longleftrightarrow> y r = x" if tail: "\<forall>c. Suc r \<le> c \<and> c < n \<longrightarrow> y c = xs ! (c - Suc r)"
  proof -
    have "(\<Sum>c\<in>{r..<n}. M ! r ! c * y c) = M ! r ! r * y r + (\<Sum>c\<in>{Suc r..<n}. M ! r ! c * xs ! (c - Suc r))"
      using r tail by (simp add: sum.atLeast_Suc_lessThan)
    then show ?thesis using r by (auto simp: row_eq_def x_def interval_sum field_simps)
  qed
  have "(\<forall>i<Suc r. row_eq n M y i) \<and> (\<forall>c. Suc r \<le> c \<and> c < n \<longrightarrow> y c = xs ! (c - Suc r))
      \<longleftrightarrow> (\<forall>i<r. row_eq n M y i) \<and> y r = x \<and> (\<forall>c. Suc r \<le> c \<and> c < n \<longrightarrow> y c = xs ! (c - Suc r))"
    using row by (auto simp: less_Suc_eq)
  also have "y r = x \<and> (\<forall>c. Suc r \<le> c \<and> c < n \<longrightarrow> y c = xs ! (c - Suc r))
      \<longleftrightarrow> (\<forall>c. r \<le> c \<and> c < n \<longrightarrow> y c = (x # xs) ! (c - r))"
  proof -
    have "(x # xs) ! (c - r) = (if c = r then x else xs ! (c - Suc r))" if "r \<le> c" for c
      using that by (auto simp: nth_Cons')
    moreover have "r \<le> c \<and> c < n \<longleftrightarrow> c = r \<or> Suc r \<le> c \<and> c < n" for c using r(1) by auto
    ultimately show ?thesis by (metis not_less_eq_eq order_refl)
  qed
  finally show ?case
    using Suc.IH [OF len] Suc.prems by (simp add: Let_def x_def)
qed (auto simp: row_eq_def)

lemma dot_triangular:
  assumes "triangular n n M" "i < n"
  shows "dot n (M ! i) y = (\<Sum>c\<in>{i..<n}. M ! i ! c * y c)"
proof -
  have "{..<n} = {..<i} \<union> {i..<n}" using assms(2) by auto
  moreover have "(\<Sum>c<i. M ! i ! c * y c) = 0"
    using triangular_zero [OF assms(1,2)] assms(2) by (intro sum.neutral) auto
  ultimately show ?thesis unfolding dot_def by (simp add: sum.union_disjoint disjoint_iff)
qed

lemma back_solves:
  assumes "triangular n n M"
  shows "length (back_subst n M n []) = n"
    and "solves n M y \<longleftrightarrow> (\<forall>c<n. y c = back_subst n M n [] ! c)"
  using back_spec [of "[]" n n M y] assms
  by (auto simp: solves_def dot_triangular row_eq_def triangular_def)

subsection \<open>When elimination gives up\<close>

text \<open>At the column that fails, a vector with an entry 1 is mapped below the pivot threshold; the
  eliminations undone, each doubling the bound at most, it is nearly mapped to zero by the input.\<close>

lemma failing_column:
  assumes "triangular n col M" "col < n" and sm: "\<And>r. col \<le> r \<Longrightarrow> r < n \<Longrightarrow> \<bar>M ! r ! col\<bar> \<le> e" and "0 \<le> e"
  shows "\<exists>y. y col = 1 \<and> small n M y e"
proof -
  define z where "z = back_subst col M col []"
  define y where "y c = (if c < col then - z ! c else if c = col then 1 else 0)" for c
  have "triangular col col M" using assms(1,2) by (auto simp: triangular_def)
  from back_solves [OF this] have z: "solves col M (\<lambda>c. z ! c)" by (simp add: z_def)
  have dot: "dot n (M ! r) y = M ! r ! col - dot col (M ! r) (\<lambda>c. z ! c)" for r
  proof -
    have "{..<n} = {..<col} \<union> {col} \<union> {Suc col..<n}" using assms(2) by auto
    moreover have "(\<Sum>c\<in>{Suc col..<n}. M ! r ! c * y c) = 0" by (simp add: y_def)
    moreover have "(\<Sum>c<col. M ! r ! c * y c) = - dot col (M ! r) (\<lambda>c. z ! c)"
      by (simp add: y_def dot_def sum_negf)
    moreover have "M ! r ! col * y col = M ! r ! col" by (simp add: y_def)
    moreover have "({..<col} \<union> {col}) \<inter> {Suc col..<n} = {}" by auto
    ultimately show ?thesis unfolding dot_def [of n] by (simp add: sum.union_disjoint)
  qed
  have "\<bar>dot n (M ! r) y\<bar> \<le> e" if "r < n" for r
  proof (cases "r < col")
    case True
    then show ?thesis using z assms(4) by (simp add: dot solves_def)
  next
    case False
    then have "dot col (M ! r) (\<lambda>c. z ! c) = 0"
      using triangular_zero [OF assms(1) that] by (simp add: dot_def)
    with False that sm show ?thesis by (simp add: dot)
  qed
  then show ?thesis by (intro exI [of _ y]) (simp add: small_def y_def)
qed

lemma forward_None:
  "shape n (Suc n) M \<Longrightarrow> k \<le> n \<Longrightarrow> triangular n (n - k) M \<Longrightarrow> forward n k M = None \<Longrightarrow>
     \<exists>y j. j < n \<and> y j = 1 \<and> small n M y (2 ^ k * (1 / 10 ^ 14))"
proof (induction k arbitrary: M)
  case (Suc k)
  let ?col = "n - Suc k"
  have col: "?col < n" "Suc ?col = n - k" using Suc.prems(2) by simp_all
  note step = col_step [OF Suc.prems(1,3) col(1)]
  show ?case
  proof (cases "\<bar>M ! pivot_row n ?col M ! ?col\<bar> < 1 / 10 ^ 14")
    case True
    then have "\<bar>M ! r ! ?col\<bar> \<le> 1 / 10 ^ 14" if "?col \<le> r" "r < n" for r
      using pivot_row_max(2) [OF col(1) that, of M] by simp
    from failing_column [OF Suc.prems(3) col(1) this] obtain y
      where y: "y ?col = 1" "small n M y (1 / 10 ^ 14)" by auto
    have "(1::real) / 10 ^ 14 \<le> 2 ^ Suc k * (1 / 10 ^ 14)" using one_le_power [of "2::real" "Suc k"] by simp
    with y(2) have "small n M y (2 ^ Suc k * (1 / 10 ^ 14))" by (fastforce simp: small_def)
    with y(1) col(1) show ?thesis by blast
  next
    case False
    then have nz: "M ! pivot_row n ?col M ! ?col \<noteq> 0" by auto
    have "forward n k (col_step n ?col M) = None"
      using False Suc.prems(4) by (simp add: forward_Suc Let_def)
    from Suc.IH [OF step(1) _ _ this] step(2) [OF nz] Suc.prems(2)
    obtain y j where y: "j < n" "y j = 1" "small n (col_step n ?col M) y (2 ^ k * (1 / 10 ^ 14))"
      by (auto simp: col(2))
    from step(4) [OF _ y(3)] have "small n M y (2 ^ Suc k * (1 / 10 ^ 14))" by (simp add: mult.assoc)
    with y show ?thesis by blast
  qed
qed simp

subsection \<open>The contract\<close>

definition mat_vec :: "mat \<Rightarrow> vec \<Rightarrow> vec" where
  "mat_vec A x = map (\<lambda>row. sum_list (map2 (*) row x)) A"

lemma mat_vec_nth:
  "shape n n A \<Longrightarrow> length x = n \<Longrightarrow> i < n \<Longrightarrow> mat_vec A x ! i = dot n (A ! i) (\<lambda>c. x ! c)"
  by (auto simp: mat_vec_def shape_def dot_def sum_list_sum_nth atLeast0LessThan)

lemma mat_vec_eq:
  assumes "shape n n A" "length x = n" "length b = n"
  shows "mat_vec A x = b \<longleftrightarrow> (\<forall>i<n. dot n (A ! i) (\<lambda>c. x ! c) = b ! i)"
proof -
  have "length (mat_vec A x) = n" using assms by (simp add: mat_vec_def shape_def)
  then show ?thesis using assms by (auto simp: list_eq_iff_nth_eq mat_vec_nth)
qed

lemma augment_shape: "shape n n A \<Longrightarrow> length b = n \<Longrightarrow> shape n (Suc n) (augment A b)"
  by (auto simp: shape_def augment_def)

lemma augment_row:
  assumes "shape n n A" "length b = n" "i < n"
  shows "dot n (augment A b ! i) y = dot n (A ! i) y" and "augment A b ! i ! n = b ! i"
  using assms shape_row [OF assms(1,3)] by (simp_all add: augment_def dot_def nth_append)

lemma augment_solves:
  "shape n n A \<Longrightarrow> length b = n \<Longrightarrow> length x = n \<Longrightarrow>
     solves n (augment A b) (\<lambda>c. x ! c) \<longleftrightarrow> mat_vec A x = b"
  by (simp add: solves_def augment_row mat_vec_eq)

text \<open>A solver is sound when its answer solves the system, and it only gives up on matrices that
  map a vector with an entry 1 to one below a threshold.\<close>

locale linear_solver =
  fixes solve :: "mat \<Rightarrow> vec \<Rightarrow> vec option" and threshold :: "nat \<Rightarrow> real"
  assumes sound: "shape n n A \<Longrightarrow> length b = n \<Longrightarrow> solve A b = Some x \<Longrightarrow> length x = n \<and> mat_vec A x = b"
    and gives_up: "shape n n A \<Longrightarrow> length b = n \<Longrightarrow> solve A b = None \<Longrightarrow>
      \<exists>y j. j < n \<and> y j = 1 \<and> (\<forall>i<n. \<bar>dot n (A ! i) y\<bar> \<le> threshold n)"
begin

text \<open>A coercive system is always solved: its quadratic form bounds every vector from below.\<close>

lemma coercive_solved:
  assumes "shape n n A" "length b = n" "0 \<le> threshold n" "threshold n * (real n + 1) / 2 < lam"
    and co: "\<And>y. lam * (\<Sum>i<n. (y i)\<^sup>2) \<le> (\<Sum>i<n. y i * dot n (A ! i) y)"
  shows "\<exists>x. solve A b = Some x \<and> length x = n \<and> mat_vec A x = b"
proof (cases "solve A b")
  case None
  from gives_up [OF assms(1,2) None] obtain y j
    where y: "j < n" "y j = 1" "\<And>i. i < n \<Longrightarrow> \<bar>dot n (A ! i) y\<bar> \<le> threshold n" by blast
  let ?S = "\<Sum>i<n. (y i)\<^sup>2"
  have "(y j)\<^sup>2 \<le> ?S" using y(1) by (intro member_le_sum) auto
  then have S: "1 \<le> ?S" using y(2) by simp
  have "lam * ?S \<le> (\<Sum>i<n. y i * dot n (A ! i) y)" by (rule co)
  also have "\<dots> \<le> (\<Sum>i<n. threshold n * ((1 + (y i)\<^sup>2) / 2))"
  proof (rule sum_mono)
    fix i assume "i \<in> {..<n}"
    then have "\<bar>y i * dot n (A ! i) y\<bar> \<le> \<bar>y i\<bar> * threshold n"
      unfolding abs_mult using y(3) by (intro mult_left_mono) auto
    moreover have "\<bar>y i\<bar> \<le> (1 + (y i)\<^sup>2) / 2"
      using zero_le_power2 [of "\<bar>y i\<bar> - 1"] by (simp add: power2_diff)
    ultimately show "y i * dot n (A ! i) y \<le> threshold n * ((1 + (y i)\<^sup>2) / 2)"
      using mult_right_mono [OF _ assms(3), of "\<bar>y i\<bar>" "(1 + (y i)\<^sup>2) / 2"] by (simp add: mult.commute)
  qed
  also have "\<dots> = threshold n * ((real n + ?S) / 2)"
    by (simp add: sum_distrib_left [symmetric] sum_divide_distrib [symmetric] sum.distrib)
  also have "\<dots> \<le> threshold n * ((real n * ?S + ?S) / 2)"
    using S assms(3) mult_left_mono [OF S, of "real n"] by (intro mult_left_mono divide_right_mono add_mono) auto
  also have "\<dots> = threshold n * (real n + 1) / 2 * ?S" by (simp add: algebra_simps)
  finally have "lam \<le> threshold n * (real n + 1) / 2" using S by simp
  with assms(4) show ?thesis by simp
next
  case (Some x)
  with sound [OF assms(1,2) Some] show ?thesis by blast
qed

end

interpretation gauss: linear_solver solve_linear "\<lambda>n. 2 ^ n / 10 ^ 14"
proof unfold_locales
  fix n A and b x :: vec
  assume A: "shape n n A" "length b = n"
  note sh = augment_shape [OF A]
  have tri: "triangular n (n - n) (augment A b)" by (simp add: triangular_def)
  {
    assume "solve_linear A b = Some x"
    then obtain M where M: "forward n n (augment A b) = Some M" "x = back_subst n M n []"
      using A(2) by (auto simp: solve_linear_def Let_def split: option.splits)
    from forward_Some [OF sh _ tri M(1)] back_solves [of n M]
    show "length x = n \<and> mat_vec A x = b"
      using augment_solves [OF A, of x] by (auto simp: M(2))
  next
    assume "solve_linear A b = None"
    then have "forward n n (augment A b) = None"
      using A(2) by (auto simp: solve_linear_def Let_def split: option.splits)
    from forward_None [OF sh _ tri this]
    show "\<exists>y j. j < n \<and> y j = 1 \<and> (\<forall>i<n. \<bar>dot n (A ! i) y\<bar> \<le> 2 ^ n / 10 ^ 14)"
      by (auto simp: small_def augment_row [OF A])
  }
qed

lemma solve_linear_unique:
  assumes "shape n n A" "length b = n" "solve_linear A b = Some x" "length y = n" "mat_vec A y = b"
  shows "y = x"
proof -
  have tri: "triangular n (n - n) (augment A b)" by (simp add: triangular_def)
  obtain M where M: "forward n n (augment A b) = Some M" "x = back_subst n M n []"
    using assms(2,3) by (auto simp: solve_linear_def Let_def split: option.splits)
  from forward_Some [OF augment_shape [OF assms(1,2)] _ tri M(1)] back_solves [of n M]
  show ?thesis
    using augment_solves [OF assms(1,2,4)] assms(4,5) by (auto simp: M(2) list_eq_iff_nth_eq)
qed

subsection \<open>Properties\<close>

text \<open>C4: whenever the Gaussian elimination returns a vector, it is the one and only solution of the
  square system.\<close>

theorem solve_linear_correct:
  assumes "shape n n A" and "length b = n" and "solve_linear A b = Some x"
  shows "{y. length y = n \<and> mat_vec A y = b} = {x}"
  using gauss.sound [OF assms] solve_linear_unique [OF assms] by blast

theorem solve_linear_correct_witness:
  "{y. length y = 2 \<and> mat_vec [[0, 2], [4, 2]] y = [6, 10]} = {[1, 3 :: real]}"
proof (rule solve_linear_correct)
  show "solve_linear [[0, 2], [4, 2]] [6, 10] = Some [1, 3]"
    by (simp add: solve_linear_def augment_def forward.simps(2) pivot_row_def max_by_def swap_rows_def
        eliminate_below_def eliminate_row_def Let_def numeral_2_eq_2 upt_rec)
qed (simp_all add: shape_def)

end
