(* ===== verification/PyText.thy ===== *)
theory PyText
  imports Prelude
begin

text \<open>
  The string and number built-ins the scripts use, on strings of characters below 256: \<open>str.strip\<close>,
  \<open>str.lower\<close> on ASCII letters, \<open>str(n)\<close> of a non-negative integer, \<open>int(s)\<close> on decimal digits, \<open>str.split\<close> and \<open>str.join\<close>
  on a one-character separator, and \<open>float(s)\<close> with its exact decimal value, infinities, NaN and
  overflow.
\<close>

subsection \<open>Characters\<close>

definition code_of :: "char \<Rightarrow> nat" where
  "code_of c = of_char c"

definition is_digit :: "char \<Rightarrow> bool" where
  "is_digit c \<longleftrightarrow> 48 \<le> code_of c \<and> code_of c \<le> 57"

definition digit_val :: "char \<Rightarrow> nat" where
  "digit_val c = code_of c - 48"

definition digit_char :: "nat \<Rightarrow> char" where
  "digit_char d = char_of (48 + d)"

definition is_space :: "char \<Rightarrow> bool" where
  "is_space c \<longleftrightarrow> (let n = code_of c in 9 \<le> n \<and> n \<le> 13 \<or> 28 \<le> n \<and> n \<le> 32 \<or> n = 133 \<or> n = 160)"

definition strip :: "string \<Rightarrow> string" where
  "strip s = rev (dropWhile is_space (rev (dropWhile is_space s)))"

definition lower_char :: "char \<Rightarrow> char" where
  "lower_char c = (if 65 \<le> code_of c \<and> code_of c \<le> 90 then char_of (code_of c + 32) else c)"

definition lower :: "string \<Rightarrow> string" where
  "lower s = map lower_char s"

lemma digit_char [simp]: "d < 10 \<Longrightarrow> is_digit (digit_char d)" "d < 10 \<Longrightarrow> digit_val (digit_char d) = d"
  by (simp_all add: is_digit_def digit_val_def digit_char_def code_of_def)

lemma digit_not_space: "is_digit c \<Longrightarrow> \<not> is_space c"
  by (auto simp: is_digit_def is_space_def Let_def)

lemma strip_id: "\<forall>c \<in> set s. \<not> is_space c \<Longrightarrow> strip s = s"
proof -
  assume s: "\<forall>c \<in> set s. \<not> is_space c"
  have "dropWhile is_space t = t" if "\<forall>c \<in> set t. \<not> is_space c" for t
    using that by (cases t) auto
  from this [of s] this [of "rev s"] s show ?thesis by (simp add: strip_def)
qed

subsection \<open>Digit runs\<close>

text \<open>The digits of a number literal, with single underscores between them.\<close>

fun digit_run :: "bool \<Rightarrow> string \<Rightarrow> nat list \<times> string" where
  "digit_run prev [] = ([], [])"
| "digit_run prev (c # cs) =
     (if is_digit c then let (ds, r) = digit_run True cs in (digit_val c # ds, r)
      else if prev \<and> c = CHR ''_'' \<and> cs \<noteq> [] \<and> is_digit (hd cs) then digit_run False cs
      else ([], c # cs))"

lemma digit_run_all: "list_all is_digit s \<Longrightarrow> digit_run prev s = (map digit_val s, [])"
  by (induction s arbitrary: prev) auto

subsection \<open>Integers\<close>

fun nat_str :: "nat \<Rightarrow> string" where
  "nat_str n = (if n < 10 then [digit_char n] else nat_str (n div 10) @ [digit_char (n mod 10)])"

declare nat_str.simps [simp del]

definition digits_val :: "nat list \<Rightarrow> nat" where
  "digits_val ds = foldl (\<lambda>n d. 10 * n + d) 0 ds"

text \<open>\<open>int(s)\<close> for a text without a minus sign; anything it rejects is a \<open>ValueError\<close>.\<close>

definition py_nat :: "string \<Rightarrow> nat option" where
  "py_nat s =
     (let t = strip s;
          u = (if t \<noteq> [] \<and> hd t = CHR ''+'' then tl t else t);
          (ds, r) = digit_run False u
      in if ds \<noteq> [] \<and> r = [] then Some (digits_val ds) else None)"

lemma digits_val_snoc [simp]: "digits_val (ds @ [d]) = 10 * digits_val ds + d"
  by (simp add: digits_val_def)

lemma nat_str_digits: "list_all is_digit (nat_str n) \<and> nat_str n \<noteq> []"
  by (induction n rule: nat_str.induct) (simp add: nat_str.simps)

lemma nat_str_val: "digits_val (map digit_val (nat_str n)) = n"
proof (induction n rule: nat_str.induct)
  case (1 n)
  show ?case
    by (cases "n < 10") (simp_all add: nat_str.simps [of n] "1.IH", simp add: digits_val_def)
qed

lemma nat_str_chars: "c \<in> set (nat_str n) \<Longrightarrow> is_digit c"
  using nat_str_digits [of n] by (auto simp: list_all_iff)

lemma py_nat_str [simp]: "py_nat (nat_str n) = Some n"
proof -
  have "strip (nat_str n) = nat_str n"
    using nat_str_chars by (intro strip_id) (blast dest: digit_not_space)
  moreover have "hd (nat_str n) \<noteq> CHR ''+''"
    using nat_str_chars [of "hd (nat_str n)" n] nat_str_digits [of n] by (auto simp: is_digit_def code_of_def)
  ultimately show ?thesis
    using nat_str_digits [of n] by (simp add: py_nat_def Let_def digit_run_all nat_str_val)
qed

subsection \<open>Splitting and joining\<close>

text \<open>\<open>s.split(c)\<close>: always at least one part.\<close>

fun split_on :: "char \<Rightarrow> string \<Rightarrow> string list" where
  "split_on c [] = [[]]"
| "split_on c (x # xs) =
     (if x = c then [] # split_on c xs
      else case split_on c xs of p # ps \<Rightarrow> (x # p) # ps | [] \<Rightarrow> [[x]])"

fun join_with :: "char \<Rightarrow> string list \<Rightarrow> string" where
  "join_with c [] = []"
| "join_with c [p] = p"
| "join_with c (p # q # ps) = p @ c # join_with c (q # ps)"

lemma split_on_nonempty [simp]: "split_on c s \<noteq> []"
  by (induction s) (auto split: list.splits)

lemma split_on_absent: "c \<notin> set p \<Longrightarrow> split_on c p = [p]"
  by (induction p) auto

lemma split_on_append: "c \<notin> set p \<Longrightarrow> split_on c (p @ c # s) = p # split_on c s"
  by (induction p) auto

lemma split_join: "ps \<noteq> [] \<Longrightarrow> \<forall>p \<in> set ps. c \<notin> set p \<Longrightarrow> split_on c (join_with c ps) = ps"
  by (induction c ps rule: join_with.induct) (auto simp: split_on_absent split_on_append)

subsection \<open>Floats\<close>

fun sign_of :: "string \<Rightarrow> bool \<times> string" where
  "sign_of (c # cs) =
     (if c = CHR ''-'' then (True, cs) else if c = CHR ''+'' then (False, cs) else (False, c # cs))"
| "sign_of [] = (False, [])"

definition scale10 :: "nat \<Rightarrow> int \<Rightarrow> real" where
  "scale10 m e = (if 0 \<le> e then real m * 10 ^ nat e else real m / 10 ^ nat (- e))"

text \<open>The magnitude of a decimal literal without sign; \<open>None\<close> is the \<open>ValueError\<close>.\<close>

definition decimal :: "string \<Rightarrow> real option" where
  "decimal s =
     (let (ip, r1) = digit_run False s;
          (fp, r2) = (if r1 \<noteq> [] \<and> hd r1 = CHR ''.'' then digit_run False (tl r1) else ([], r1))
      in if ip = [] \<and> fp = [] then None
         else if r2 = [] then Some (scale10 (digits_val (ip @ fp)) (- int (length fp)))
         else if hd r2 = CHR ''e'' \<or> hd r2 = CHR ''E'' then
           let (neg, r3) = sign_of (tl r2);
               (ed, r4) = digit_run False r3;
               e = (if neg then - int (digits_val ed) else int (digits_val ed))
           in if ed = [] \<or> r4 \<noteq> [] then None
              else Some (scale10 (digits_val (ip @ fp)) (e - int (length fp)))
         else None)"

definition round_float :: "real \<Rightarrow> pyfloat" where
  "round_float v =
     (if v \<ge> 2 ^ 1024 - 2 ^ 970 then PInf else if v \<le> - (2 ^ 1024 - 2 ^ 970) then NInf else Fin v)"

definition py_float :: "string \<Rightarrow> pyfloat option" where
  "py_float s =
     (let (neg, t) = sign_of (strip s); l = lower t in
      if l = ''inf'' \<or> l = ''infinity'' then Some (if neg then NInf else PInf)
      else if l = ''nan'' then Some NaN
      else case decimal t of None \<Rightarrow> None | Some v \<Rightarrow> Some (round_float (if neg then - v else v)))"

subsection \<open>Paths\<close>

text \<open>\<open>os.path.join(d, f)\<close> of a relative \<open>f\<close>.\<close>

definition path_join :: "string \<Rightarrow> string \<Rightarrow> string" where
  "path_join d f = (if d = [] \<or> last d = CHR ''/'' then d @ f else d @ CHR ''/'' # f)"

lemma path_join_inj: "path_join d f = path_join d g \<Longrightarrow> f = g"
  by (simp add: path_join_def split: if_splits)

end
