(* ===== verification/Calibrate.thy ===== *)
theory Calibrate
  imports PowerCap LinearSolve PyText
begin

text \<open>
  The calibrator of \<open>sim/rail_model.py\<close>: \<open>_fnum\<close>, \<open>load_samples\<close> and \<open>calibrate\<close>. A CSV file is its
  header cells and its rows of cells, as \<open>csv\<close> splits them; the record a run returns is modelled
  without the absolute path of the file, and the printing half is not modelled. \<open>PARAMS\<close> is passed in
  and returned updated.
\<close>

subsection \<open>Cells\<close>

definition missing_tokens :: "string list" where
  "missing_tokens = [''nan'', ''na'', ''n/a'', ''null'', ''-'', ''none'']"

definition fnum :: "string option \<Rightarrow> real option" where
  "fnum cell =
     (case cell of None \<Rightarrow> None
      | Some s0 \<Rightarrow>
          let s = strip s0 in
          if s = [] \<or> lower s \<in> set missing_tokens then None
          else case py_float s of Some (Fin v) \<Rightarrow> Some v | _ \<Rightarrow> None)"

subsection \<open>Rows\<close>

record sample =
  s_t_s :: "real option"
  pkg_w :: watts
  core_w :: "real option"
  uncore_w :: "real option"
  dram_w :: "real option"
  psys_w :: "real option"
  temp_c :: real
  phys :: "core_state list"

text \<open>\<open>csv.DictReader\<close>: a row as a map from the stripped header names, a later column of the same
  name winning, a short row having no value for the rest.\<close>

definition row_get :: "string list \<Rightarrow> string list \<Rightarrow> string \<Rightarrow> string option" where
  "row_get names row = map_of (rev (zip names row))"

text \<open>One physical core from the SMT siblings' frequencies and busy fractions; \<open>None\<close> is \<open>ok = False\<close>.\<close>

definition fold_core :: "real option list \<Rightarrow> real option list \<Rightarrow> nat \<Rightarrow> core_state option" where
  "fold_core mhz busy pc =
     (let sibs = [pc, pc + SMT_SIBLING_STRIDE];
          fs = List.map_filter (\<lambda>i. mhz ! i) (filter (\<lambda>i. i < N_LOGICAL_CPUS) sibs);
          bs = List.map_filter (\<lambda>i. busy ! i) (filter (\<lambda>i. i < N_LOGICAL_CPUS) sibs)
      in if fs = [] then None
         else Some (list_max fs * 10 ^ 6, if bs = [] then 0 else min 1 (sum_list bs)))"

definition sample_of :: "(string \<Rightarrow> string option) \<Rightarrow> sample option" where
  "sample_of get =
     (case fnum (get ''pkg_w'') of None \<Rightarrow> None
      | Some pkg \<Rightarrow>
          if pkg \<le> 0 then None
          else
            let mhz = map (\<lambda>i. fnum (get (''cpu'' @ nat_str i @ ''_mhz''))) [0..<N_LOGICAL_CPUS];
                busy = map (\<lambda>i. fnum (get (''cpu'' @ nat_str i @ ''_busy''))) [0..<N_LOGICAL_CPUS]
            in if list_all (\<lambda>m. m = None) mhz then None
               else case those (map (fold_core mhz busy) [0..<N_PHYS_CORES]) of None \<Rightarrow> None
                    | Some ph \<Rightarrow> Some
                        \<lparr>s_t_s = fnum (get ''t_s''), pkg_w = pkg, core_w = fnum (get ''core_w''),
                         uncore_w = fnum (get ''uncore_w''), dram_w = fnum (get ''dram_w''),
                         psys_w = fnum (get ''psys_w''),
                         temp_c = (case fnum (get ''pkg_c'') of Some t \<Rightarrow> t | None \<Rightarrow> T_DEFAULT_C),
                         phys = ph\<rparr>)"

text \<open>The loop over the reader, which skips empty lines; the second component counts skipped rows.\<close>

fun load_rows :: "(string list \<Rightarrow> sample option) \<Rightarrow> string list list \<Rightarrow> sample list \<times> nat" where
  "load_rows f [] = ([], 0)"
| "load_rows f (row # rows) =
     (let (samples, skipped) = load_rows f rows in
      case f row of Some s \<Rightarrow> (s # samples, skipped) | None \<Rightarrow> (samples, Suc skipped))"

definition load_samples :: "string list \<Rightarrow> string list list \<Rightarrow> sample list \<times> nat" where
  "load_samples header rows =
     (if header = [] then ([], 0)
      else let names = map strip header
           in load_rows (\<lambda>row. sample_of (row_get names row)) (filter (\<lambda>row. row \<noteq> []) rows))"

subsection \<open>The design of the fit\<close>

definition active_cores :: "core_state list \<Rightarrow> core_state list" where
  "active_cores ph = filter (\<lambda>c. core_active (snd c)) ph"

definition fit_f_max :: "sample \<Rightarrow> hz" where
  "fit_f_max s =
     (if active_cores (phys s) = [] then F_MIN_HZ else list_max (map fst (active_cores (phys s))))"

definition row_x :: "sample \<Rightarrow> vec" where
  "row_x s =
     (let v = v_of_f (fit_f_max s);
          x1 = sum_list (map (\<lambda>c. snd c * v\<^sup>2 * (fst c / 10 ^ 9)) (active_cores (phys s)));
          tf = leak_temp_factor (temp_c s);
          x2 = sum_list (map (\<lambda>c. leak_shape v * tf * (if core_active (snd c) then 1 else C6_LEAK_RESIDUAL)) (phys s))
      in [x1, x2, 1])"

definition fixed_w :: "sample \<Rightarrow> watts" where
  "fixed_w s =
     (let active = active_cores (phys s) in
      if active \<noteq> [] then
        let f_ring = min (max (fit_f_max s) F_RING_MIN_HZ) F_RING_MAX_HZ;
            v_ring = v_of_f f_ring
        in C_RING_W_PER_V2_GHZ * v_ring\<^sup>2 * (f_ring / 10 ^ 9)
           + K_UNCORE_TRAFFIC_W_PER_GHZ * sum_list (map (\<lambda>c. snd c * fst c / 10 ^ 9) active)
      else 0)"

definition row_y :: "sample \<Rightarrow> real" where
  "row_y s = pkg_w s - fixed_w s"

text \<open>The normal equations with the Tikhonov term on the diagonal.\<close>

definition gram :: "vec list \<Rightarrow> nat \<Rightarrow> nat \<Rightarrow> real" where
  "gram xs i j = sum_list (map (\<lambda>rx. rx ! i * rx ! j) xs)"

definition xty :: "vec list \<Rightarrow> vec \<Rightarrow> nat \<Rightarrow> real" where
  "xty xs ys i = sum_list (map (\<lambda>(rx, y). rx ! i * y) (zip xs ys))"

definition ridge_lam :: "vec list \<Rightarrow> real" where
  "ridge_lam xs =
     (let s = gram xs 0 0 + gram xs 1 1 + gram xs 2 2; trace = (if s = 0 then 1 else s)
      in 1 / 10 ^ 9 * trace)"

definition normal_matrix :: "vec list \<Rightarrow> mat" where
  "normal_matrix xs =
     map (\<lambda>i. map (\<lambda>j. gram xs i j + (if i = j then ridge_lam xs else 0)) [0, 1, 2]) [0, 1, 2]"

subsection \<open>The calibration\<close>

record fit_info =
  n_samples_used :: nat
  n_rows_skipped :: nat
  fit :: params
  prior :: params
  clamped_to_prior :: "string list"
  residual_rms_w :: real
  residual_max_abs_w :: real
  r_squared :: pyfloat

definition clamp_fit :: "vec \<Rightarrow> params \<times> string list" where
  "clamp_fit beta =
     (\<lparr>C_eff = (if beta ! 0 \<le> 0 then C_EFF_W_PER_V2_GHZ else beta ! 0),
       k_leak = (if beta ! 1 < 0 then 0 else beta ! 1),
       p_sa_floor = (if beta ! 2 < 0 then 0 else beta ! 2)\<rparr>,
      (if beta ! 0 \<le> 0 then [''C_eff''] else []) @ (if beta ! 1 < 0 then [''k_leak''] else [])
        @ (if beta ! 2 < 0 then [''p_sa_floor''] else []))"

definition predict :: "vec \<Rightarrow> vec \<Rightarrow> real" where
  "predict beta rx = sum_list (map2 (*) beta rx)"

definition calibrate_samples ::
  "(mat \<Rightarrow> vec \<Rightarrow> vec option) \<Rightarrow> params \<Rightarrow> string \<Rightarrow> sample list \<times> nat \<Rightarrow> py_error + params \<times> fit_info" where
  "calibrate_samples solve ps path = (\<lambda>(samples, skipped).
     if length samples < 4 then
       Inl (SystemExit (''calibrate: need >= 4 usable rows in '' @ path @ '' (got '' @ nat_str (length samples)
         @ '', skipped '' @ nat_str skipped @ '')''))
     else
       let rows_x = map row_x samples;
           rows_y = map row_y samples
       in case solve (normal_matrix rows_x) (map (xty rows_x rows_y) [0, 1, 2]) of
            None \<Rightarrow> Inl (SystemExit (''calibrate: design matrix is singular; the samples do not vary ''
              @ ''enough in frequency/activity to separate the parameters.''))
          | Some beta \<Rightarrow>
              let (ps', clamped) = clamp_fit beta;
                  resid = map (\<lambda>(rx, y). y - predict beta rx) (zip rows_x rows_y);
                  ss = sum_list (map (\<lambda>r. r * r) resid);
                  ybar = sum_list rows_y / real (length rows_y);
                  sstot = sum_list (map (\<lambda>y. (y - ybar)\<^sup>2) rows_y)
              in Inr (ps', \<lparr>n_samples_used = length samples, n_rows_skipped = skipped,
                   fit = ps', prior = ps, clamped_to_prior = clamped,
                   residual_rms_w = sqrt (ss / real (length resid)),
                   residual_max_abs_w = list_max (map abs resid),
                   r_squared = (if sstot > 1 / 10 ^ 12 then Fin (1 - ss / sstot) else NaN)\<rparr>))"

definition calibrate ::
  "params \<Rightarrow> string \<Rightarrow> string list \<Rightarrow> string list list \<Rightarrow> py_error + params \<times> fit_info" where
  "calibrate ps path header rows = calibrate_samples solve_linear ps path (load_samples header rows)"

subsection \<open>The samples\<close>

definition sample_ok :: "sample \<Rightarrow> bool" where
  "sample_ok s \<longleftrightarrow> 0 < pkg_w s \<and> length (phys s) = N_PHYS_CORES \<and> list_all (\<lambda>c. snd c \<le> 1) (phys s)"

lemma those_Some: "those xs = Some ys \<Longrightarrow> length ys = length xs \<and> (\<forall>y \<in> set ys. Some y \<in> set xs)"
  by (induction xs arbitrary: ys) (auto split: option.splits)

lemma fold_core_activity: "fold_core mhz busy pc = Some c \<Longrightarrow> snd c \<le> 1"
  by (auto simp: fold_core_def Let_def split: if_splits)

lemma fold_cores:
  assumes "those (map (fold_core mhz busy) ks) = Some ph"
  shows "length ph = length ks" and "list_all (\<lambda>c. snd c \<le> 1) ph"
proof -
  note t = those_Some [OF assms]
  then show "length ph = length ks" by simp
  have "snd c \<le> 1" if "c \<in> set ph" for c
  proof -
    have "Some c \<in> fold_core mhz busy ` set ks" using t that by simp
    then show ?thesis by (auto dest: fold_core_activity [OF sym])
  qed
  then show "list_all (\<lambda>c. snd c \<le> 1) ph" by (simp add: list_all_iff)
qed

lemma sample_of_ok: "sample_of get = Some s \<Longrightarrow> sample_ok s"
  by (auto simp: sample_of_def sample_ok_def Let_def fold_cores split: option.splits if_splits)

lemma load_rows_spec:
  "load_rows f rows = (samples, skipped) \<Longrightarrow>
     length samples + skipped = length rows \<and> (\<forall>s \<in> set samples. \<exists>row \<in> set rows. f row = Some s)"
  by (induction rows arbitrary: samples skipped) (auto simp: Let_def split: option.splits prod.splits)

lemma load_samples_spec:
  assumes "load_samples header rows = (samples, skipped)"
  shows "list_all sample_ok samples"
    and "header \<noteq> [] \<Longrightarrow> length samples + skipped = length (filter (\<lambda>row. row \<noteq> []) rows)"
  using load_rows_spec assms sample_of_ok
  by (auto simp: load_samples_def Let_def list_all_iff split: if_splits, blast)

subsection \<open>The design is the power model\<close>

lemma fit_f_max_eq: "some_active (phys s) \<Longrightarrow> fit_f_max s = f_max_of (phys s)"
  by (simp add: fit_f_max_def f_max_of_def active_cores_def some_active_iff)

definition predicted_w :: "params \<Rightarrow> sample \<Rightarrow> watts" where
  "predicted_w ps s = predict [C_eff ps, k_leak ps, p_sa_floor ps] (row_x s) + fixed_w s"

lemma design_sum:
  "C_eff ps * sum_list (map (\<lambda>c. snd c * v\<^sup>2 * (fst c / 10 ^ 9)) (filter (\<lambda>c. core_active (snd c)) cs))
   + k_leak ps * sum_list (map (\<lambda>c. leak_shape v * leak_temp_factor t * (if core_active (snd c) then 1 else C6_LEAK_RESIDUAL)) cs)
   + K_UNCORE_TRAFFIC_W_PER_GHZ * sum_list (map (\<lambda>c. snd c * fst c / 10 ^ 9) (filter (\<lambda>c. core_active (snd c)) cs))
   = sum_list (map (core_share ps t v) cs)"
proof (induction cs)
  case (Cons c cs)
  then show ?case
    by (cases "core_active (snd c)")
      (simp_all add: core_share_def core_dyn_def core_traffic_def core_leakage_w_def algebra_simps)
qed simp

lemma predicted_active:
  assumes "some_active (phys s)"
  shows "predicted_w ps s = total_w (package_power ps (phys s) True (temp_c s))"
proof -
  have act: "active_cores (phys s) \<noteq> []" using assms by (simp add: some_active_iff active_cores_def)
  have "total_w (package_power ps (phys s) True (temp_c s))
      = sum_list (map (core_share ps (temp_c s) (v_of_f (fit_f_max s))) (phys s)) + ring_w (fit_f_max s) + p_sa_floor ps"
    by (simp add: total_active [OF assms] fit_f_max_eq [OF assms] core_volt_def)
  then show ?thesis
    unfolding design_sum [symmetric] predicted_w_def
    using act by (simp add: predict_def row_x_def Let_def fixed_w_def ring_w_def f_ring_of_def active_cores_def)
qed

lemma predicted_idle:
  assumes "\<not> some_active (phys s)"
  shows "predicted_w ps s = total_w (package_power ps (phys s) True (temp_c s)) + (p_sa_floor ps - P_PKG_C6_W)"
proof -
  have none: "active_cores (phys s) = []" using assms by (simp add: some_active_iff active_cores_def)
  have idle: "\<not> core_active (snd c)" if "c \<in> set (phys s)" for c using assms that by (auto simp: some_active_def)
  then have sum: "sum_list (map (\<lambda>c. g * (if core_active (snd c) then 1 else C6_LEAK_RESIDUAL)) (phys s))
      = real (length (phys s)) * (g * C6_LEAK_RESIDUAL)" for g
    by (simp add: sum_list_triv cong: map_cong)
  show ?thesis
    unfolding predicted_w_def row_x_def Let_def sum
    by (simp add: total_idle [OF assms] predict_def fixed_w_def none Let_def
        fit_f_max_def core_leakage_w_def)
qed

subsection \<open>The normal equations\<close>

definition ridge_cost :: "vec list \<Rightarrow> vec \<Rightarrow> vec \<Rightarrow> real" where
  "ridge_cost xs ys beta =
     sum_list (map (\<lambda>(rx, y). (y - predict beta rx)\<^sup>2) (zip xs ys))
     + ridge_lam xs * ((beta ! 0)\<^sup>2 + (beta ! 1)\<^sup>2 + (beta ! 2)\<^sup>2)"

lemma row_x_length [simp]: "length (row_x s) = 3"
  by (simp add: row_x_def Let_def)

lemma length3: "length v = 3 \<Longrightarrow> v = [v ! 0, v ! 1, v ! 2]"
  by (auto simp: list_eq_iff_nth_eq less_Suc_eq numeral_3_eq_3 numeral_2_eq_2)

lemma predict3:
  assumes "length rx = 3"
  shows "predict [a, b, c] rx = a * rx ! 0 + b * rx ! 1 + c * rx ! 2"
  by (subst length3 [OF assms]) (simp add: predict_def)

lemma gram_sym: "gram xs i j = gram xs j i"
  by (simp add: gram_def mult.commute)

lemma gram_swap: "gram xs 1 0 = gram xs 0 1" "gram xs (Suc 0) 0 = gram xs 0 1" "gram xs 2 0 = gram xs 0 2"
    "gram xs 2 1 = gram xs 1 2" "gram xs 2 (Suc 0) = gram xs 1 2"
  using gram_sym [of xs] by (simp_all add: gram_sym [of xs 1 0] gram_sym [of xs 2 0] gram_sym [of xs 2 1])

lemma square_sum:
  "length xs = length ys \<Longrightarrow> \<forall>rx \<in> set xs. length rx = 3 \<Longrightarrow>
     sum_list (map (\<lambda>(rx, y). (y - predict [a, b, c] rx)\<^sup>2) (zip xs ys))
     = sum_list (map (\<lambda>y. y\<^sup>2) ys) - 2 * (a * xty xs ys 0 + b * xty xs ys 1 + c * xty xs ys 2)
       + a\<^sup>2 * gram xs 0 0 + b\<^sup>2 * gram xs 1 1 + c\<^sup>2 * gram xs 2 2
       + 2 * (a * b * gram xs 0 1 + a * c * gram xs 0 2 + b * c * gram xs 1 2)"
proof (induction xs ys rule: list_induct2)
  case (Cons rx xs y ys)
  then show ?case
    by (simp add: predict3 xty_def gram_def algebra_simps power2_eq_square)
qed (simp add: xty_def gram_def)

lemma gram_form:
  "(\<forall>rx \<in> set xs. length rx = 3) \<Longrightarrow>
     a\<^sup>2 * gram xs 0 0 + b\<^sup>2 * gram xs 1 1 + c\<^sup>2 * gram xs 2 2
       + 2 * (a * b * gram xs 0 1 + a * c * gram xs 0 2 + b * c * gram xs 1 2)
     = sum_list (map (\<lambda>rx. (predict [a, b, c] rx)\<^sup>2) xs)"
  by (induction xs) (simp_all add: gram_def predict3 algebra_simps power2_eq_square)

lemma ridge_lam_ge:
  assumes "length samples \<ge> 4"
  shows "4 / 10 ^ 9 \<le> ridge_lam (map row_x samples)"
proof -
  have "gram (map row_x samples) 2 2 = real (length samples)"
    by (simp add: gram_def row_x_def Let_def sum_list_triv comp_def)
  moreover have "0 \<le> gram (map row_x samples) i i" for i
    unfolding gram_def by (rule sum_list_map_nonneg) simp
  ultimately have "4 \<le> gram (map row_x samples) 0 0 + gram (map row_x samples) 1 1 + gram (map row_x samples) 2 2"
    using assms by (simp add: add_increasing)
  then show ?thesis by (simp add: ridge_lam_def Let_def)
qed

lemma normal_shape: "shape 3 3 (normal_matrix xs)"
  by (simp add: shape_def normal_matrix_def)

lemma sum3: "(\<Sum>i<3. f i) = f 0 + f 1 + f (2::nat)" for f :: "nat \<Rightarrow> real"
  by (simp add: numeral_3_eq_3 numeral_2_eq_2)

lemma normal_coercive:
  assumes "\<forall>rx \<in> set xs. length rx = 3"
  shows "ridge_lam xs * (\<Sum>i<3. (y i)\<^sup>2) \<le> (\<Sum>i<3. y i * dot 3 (normal_matrix xs ! i) y)"
proof -
  have "(\<Sum>i<3. y i * dot 3 (normal_matrix xs ! i) y) = ridge_lam xs * (\<Sum>i<3. (y i)\<^sup>2)
      + ((y 0)\<^sup>2 * gram xs 0 0 + (y 1)\<^sup>2 * gram xs 1 1 + (y 2)\<^sup>2 * gram xs 2 2
         + 2 * (y 0 * y 1 * gram xs 0 1 + y 0 * y 2 * gram xs 0 2 + y 1 * y 2 * gram xs 1 2))"
    by (simp add: sum3 dot_def normal_matrix_def gram_swap algebra_simps power2_eq_square)
  also have "\<dots> = ridge_lam xs * (\<Sum>i<3. (y i)\<^sup>2) + sum_list (map (\<lambda>rx. (predict [y 0, y 1, y 2] rx)\<^sup>2) xs)"
    by (simp only: gram_form [OF assms])
  also have "\<dots> \<ge> ridge_lam xs * (\<Sum>i<3. (y i)\<^sup>2)"
    using sum_list_map_nonneg [of xs "\<lambda>rx. (predict [y 0, y 1, y 2] rx)\<^sup>2"] by simp
  finally show ?thesis .
qed

text \<open>A solution of the normal equations minimises the ridge cost.\<close>

lemma normal_minimises:
  assumes len: "length xs = length ys" "\<forall>rx \<in> set xs. length rx = 3" "length beta = 3" "length v = 3"
    and eq: "mat_vec (normal_matrix xs) beta = map (xty xs ys) [0, 1, 2]" and pos: "0 \<le> ridge_lam xs"
  shows "ridge_cost xs ys beta \<le> ridge_cost xs ys v"
proof -
  obtain a b c where beta: "beta = [a, b, c]" using length3 [OF len(3)] by blast
  obtain a' b' c' where v: "v = [a', b', c']" using length3 [OF len(4)] by blast
  let ?L = "ridge_lam xs" and ?g = "gram xs"
  have n: "xty xs ys 0 = (?g 0 0 + ?L) * a + ?g 0 1 * b + ?g 0 2 * c"
    "xty xs ys 1 = ?g 0 1 * a + (?g 1 1 + ?L) * b + ?g 1 2 * c"
    "xty xs ys 2 = ?g 0 2 * a + ?g 1 2 * b + (?g 2 2 + ?L) * c"
    using eq by (simp_all add: mat_vec_def normal_matrix_def beta gram_swap algebra_simps)
  have "ridge_cost xs ys v - ridge_cost xs ys beta
      = ?L * ((a' - a)\<^sup>2 + (b' - b)\<^sup>2 + (c' - c)\<^sup>2)
        + ((a' - a)\<^sup>2 * ?g 0 0 + (b' - b)\<^sup>2 * ?g 1 1 + (c' - c)\<^sup>2 * ?g 2 2
           + 2 * ((a' - a) * (b' - b) * ?g 0 1 + (a' - a) * (c' - c) * ?g 0 2 + (b' - b) * (c' - c) * ?g 1 2))"
    unfolding ridge_cost_def beta v square_sum [OF len(1,2)] n
    by (simp add: algebra_simps power2_eq_square)
  also have "\<dots> \<ge> 0"
    unfolding gram_form [OF len(2)] using pos by (auto intro!: add_nonneg_nonneg sum_list_nonneg)
  finally show ?thesis by simp
qed

subsection \<open>A run of the calibrator\<close>

lemma normal_solved:
  assumes "4 \<le> length samples"
  shows "\<exists>beta. solve_linear (normal_matrix (map row_x samples)) (map (xty (map row_x samples) (map row_y samples)) [0, 1, 2])
      = Some beta \<and> length beta = 3
      \<and> (\<forall>a b c. ridge_cost (map row_x samples) (map row_y samples) beta
                 \<le> ridge_cost (map row_x samples) (map row_y samples) [a, b, c])"
proof -
  let ?X = "map row_x samples" and ?Y = "map row_y samples"
  let ?rhs = "map (xty ?X ?Y) [0, 1, 2]"
  have rows: "\<forall>rx \<in> set ?X. length rx = 3" by auto
  have lam: "4 / 10 ^ 9 \<le> ridge_lam ?X" using assms by (rule ridge_lam_ge)
  have "\<exists>x. solve_linear (normal_matrix ?X) ?rhs = Some x \<and> length x = 3 \<and> mat_vec (normal_matrix ?X) x = ?rhs"
    by (rule gauss.coercive_solved [OF normal_shape, where lam = "ridge_lam ?X"])
      (use lam normal_coercive [OF rows] in simp_all)
  then obtain x where x: "solve_linear (normal_matrix ?X) ?rhs = Some x" "length x = 3"
      "mat_vec (normal_matrix ?X) x = ?rhs" by blast
  have "ridge_cost ?X ?Y x \<le> ridge_cost ?X ?Y [a, b, c]" for a b c
    by (rule normal_minimises [OF _ rows x(2) _ x(3)]) (use lam in simp_all)
  with x show ?thesis by blast
qed

lemma calibrate_cases:
  assumes "load_samples header rows = (samples, skipped)"
  shows "length samples < 4 \<Longrightarrow> \<exists>msg. calibrate ps path header rows = Inl (SystemExit msg)"
    and "4 \<le> length samples \<Longrightarrow> \<exists>beta info. calibrate ps path header rows = Inr (fst (clamp_fit beta), info)
      \<and> length beta = 3 \<and> clamped_to_prior info = snd (clamp_fit beta) \<and> fit info = fst (clamp_fit beta)
      \<and> prior info = ps \<and> n_samples_used info = length samples \<and> n_rows_skipped info = skipped
      \<and> (\<forall>a b c. ridge_cost (map row_x samples) (map row_y samples) beta
                 \<le> ridge_cost (map row_x samples) (map row_y samples) [a, b, c])"
proof -
  show "\<exists>msg. calibrate ps path header rows = Inl (SystemExit msg)" if "length samples < 4"
    using that assms by (simp add: calibrate_def calibrate_samples_def)
  assume "4 \<le> length samples"
  from normal_solved [OF this] obtain beta
    where b: "solve_linear (normal_matrix (map row_x samples)) (map (xty (map row_x samples) (map row_y samples)) [0, 1, 2]) = Some beta"
      "length beta = 3" "\<forall>a b c. ridge_cost (map row_x samples) (map row_y samples) beta
                 \<le> ridge_cost (map row_x samples) (map row_y samples) [a, b, c]" by blast
  then show "\<exists>beta info. calibrate ps path header rows = Inr (fst (clamp_fit beta), info)
      \<and> length beta = 3 \<and> clamped_to_prior info = snd (clamp_fit beta) \<and> fit info = fst (clamp_fit beta)
      \<and> prior info = ps \<and> n_samples_used info = length samples \<and> n_rows_skipped info = skipped
      \<and> (\<forall>a b c. ridge_cost (map row_x samples) (map row_y samples) beta
                 \<le> ridge_cost (map row_x samples) (map row_y samples) [a, b, c])"
    using \<open>4 \<le> length samples\<close> assms
    by (intro exI [of _ beta]) (simp add: calibrate_def calibrate_samples_def Let_def split_beta)
qed

lemma clamp_ok: "params_ok (fst (clamp_fit beta))"
  by (simp add: params_ok_def clamp_fit_def C_EFF_W_PER_V2_GHZ_def)

subsection \<open>Properties\<close>

text \<open>C30: the design of the fit is the power model itself: the value the regression predicts for a
  sample from any parameters is the shared-rail package power of the sample's core states, except on
  an idle sample, where the regression charges the system-agent floor instead of the package C6
  power.\<close>

theorem calibrate_design_matches_model:
  "predicted_w ps s = total_w (package_power ps (phys s) True (temp_c s))
     + (if some_active (phys s) then 0 else p_sa_floor ps - P_PKG_C6_W)"
  by (simp add: predicted_active predicted_idle)

text \<open>The calibrator fails exactly when fewer than four rows are usable: with the Tikhonov term
  the normal equations always have pivots above the elimination's threshold, so the exit for a
  singular design is never taken.\<close>

theorem calibrate_fails_iff:
  "(\<exists>e. calibrate ps path header rows = Inl e) \<longleftrightarrow> length (fst (load_samples header rows)) < 4"
proof -
  obtain samples skipped where l: "load_samples header rows = (samples, skipped)" by (rule prod.exhaust)
  from calibrate_cases [OF l, of ps path] l show ?thesis by (cases "length samples < 4") auto
qed

definition demo_header :: "string list" where
  "demo_header = [''pkg_w'', ''cpu0_mhz'', ''cpu1_mhz'', ''cpu2_mhz'', ''cpu3_mhz'']"

definition demo_rows :: "string list list" where
  "demo_rows = replicate 4 [''5'', ''800'', ''800'', ''800'', ''800'']"

lemmas fnum_eval =
  fnum_def strip_def is_space_def code_of_def lower_def lower_char_def missing_tokens_def py_float_def
  decimal_def is_digit_def digit_val_def digits_val_def scale10_def round_float_def Let_def

lemma fnum_demo: "fnum (Some ''5'') = Some 5" "fnum (Some ''800'') = Some 800" "fnum None = None"
  by (simp_all add: fnum_eval)

lemma nat_str_small: "nat_str 0 = ''0''" "nat_str (Suc 0) = ''1''" "nat_str 2 = ''2''" "nat_str 3 = ''3''"
    "nat_str 4 = ''4''" "nat_str 5 = ''5''" "nat_str 6 = ''6''" "nat_str 7 = ''7''"
  by code_simp+

lemma demo_count: "length (fst (load_samples demo_header demo_rows)) = 4"
proof -
  let ?names = "map strip demo_header"
  have names: "?names = demo_header" by (simp add: demo_header_def strip_def is_space_def code_of_def Let_def)
  have "\<exists>s. sample_of (row_get demo_header [''5'', ''800'', ''800'', ''800'', ''800'']) = Some s"
    unfolding sample_of_def Let_def N_LOGICAL_CPUS_def eight
    by (simp add: row_get_def demo_header_def fnum_demo nat_str_small N_PHYS_CORES_def upt_rec fold_core_def
        SMT_SIBLING_STRIDE_def N_LOGICAL_CPUS_def map_filter_simps Let_def)
  moreover have "demo_header \<noteq> []" by (simp add: demo_header_def)
  ultimately show ?thesis
    by (auto simp: load_samples_def names demo_rows_def Let_def numeral_eq_Suc)
qed

text \<open>C17: on at least four usable rows the calibrator stores the clamped minimiser of the ridge cost
  of the samples: the unclamped fit is at least as good as any other parameter triple, the stored
  parameters are physical, \<open>clamped_to_prior\<close> names exactly the components that were out of range, and
  the counts account for every non-empty row of the file.\<close>

theorem calibrate_fits:
  assumes "load_samples header rows = (samples, skipped)" and "4 \<le> length samples"
  shows "\<exists>a b c info. calibrate ps path header rows = Inr (fit info, info)
    \<and> (\<forall>a' b' c'. ridge_cost (map row_x samples) (map row_y samples) [a, b, c]
                  \<le> ridge_cost (map row_x samples) (map row_y samples) [a', b', c'])
    \<and> (fit info, clamped_to_prior info) = clamp_fit [a, b, c]
    \<and> params_ok (fit info) \<and> prior info = ps
    \<and> n_samples_used info + n_rows_skipped info = length (filter (\<lambda>row. row \<noteq> []) rows)"
proof -
  from calibrate_cases(2) [OF assms, of ps path] obtain beta info
    where r: "calibrate ps path header rows = Inr (fst (clamp_fit beta), info)" "length beta = 3"
      "clamped_to_prior info = snd (clamp_fit beta)" "fit info = fst (clamp_fit beta)" "prior info = ps"
      "n_samples_used info = length samples" "n_rows_skipped info = skipped"
      "\<And>a b c. ridge_cost (map row_x samples) (map row_y samples) beta
                 \<le> ridge_cost (map row_x samples) (map row_y samples) [a, b, c]" by blast
  have "header \<noteq> []" using assms by (auto simp: load_samples_def)
  from load_samples_spec(2) [OF assms(1) this] r show ?thesis
    using length3 [OF r(2)] clamp_ok [of beta]
    by (intro exI [of _ "beta ! 0"] exI [of _ "beta ! 1"] exI [of _ "beta ! 2"] exI [of _ info])
      (simp add: prod_eq_iff)
qed

theorem calibrate_fits_witness:
  "\<exists>info. calibrate PARAMS ''x.csv'' demo_header demo_rows = Inr (fit info, info) \<and> params_ok (fit info)"
proof -
  obtain samples skipped where l: "load_samples demo_header demo_rows = (samples, skipped)" by (rule prod.exhaust)
  then have "4 \<le> length samples" using demo_count by simp
  from calibrate_fits [OF l this, of PARAMS "''x.csv''"] show ?thesis by blast
qed

text \<open>Every sample the loader keeps has positive package power and one entry per physical core
  with an activity of at most one, and every non-empty row of a file with a header is either kept or
  counted as skipped.\<close>

theorem load_samples_accounts:
  assumes "load_samples header rows = (samples, skipped)" and "header \<noteq> []"
  shows "list_all (\<lambda>s. 0 < pkg_w s \<and> length (phys s) = N_PHYS_CORES \<and> list_all (\<lambda>c. snd c \<le> 1) (phys s)) samples
    \<and> length samples + skipped = length (filter (\<lambda>row. row \<noteq> []) rows)"
  using load_samples_spec [OF assms(1)] assms(2) by (simp add: sample_ok_def [abs_def])

theorem load_samples_accounts_witness:
  "length (fst (load_samples demo_header demo_rows)) + snd (load_samples demo_header demo_rows) = 4"
  using load_samples_accounts [of demo_header demo_rows, OF surjective_pairing]
  by (simp add: demo_header_def demo_rows_def)

end
