(* ===== verification/PyFormat.thy ===== *)
theory PyFormat
  imports PyText
begin

text \<open>
  The formatting of numbers the scripts print and store: \<open>%d\<close>, \<open>%.nf\<close> with and without a sign, \<open>%.ne\<close>,
  \<open>%.ng\<close>, and the paddings \<open>ljust\<close>, \<open>rjust\<close>, \<open>rstrip\<close>. A number is its exact value; ties round to even, as in C.
\<close>

subsection \<open>Paddings\<close>

definition rjust :: "nat \<Rightarrow> string \<Rightarrow> string" where
  "rjust w s = replicate (w - length s) CHR '' '' @ s"

definition ljust :: "nat \<Rightarrow> string \<Rightarrow> string" where
  "ljust w s = s @ replicate (w - length s) CHR '' ''"

definition rstrip_char :: "char \<Rightarrow> string \<Rightarrow> string" where
  "rstrip_char c s = rev (dropWhile (\<lambda>x. x = c) (rev s))"

lemma length_just [simp]: "length (rjust w s) = max w (length s)" "length (ljust w s) = max w (length s)"
  by (simp_all add: rjust_def ljust_def)

subsection \<open>Integers\<close>

definition int_str :: "int \<Rightarrow> string" where
  "int_str n = (if n < 0 then CHR ''-'' # nat_str (nat (- n)) else nat_str (nat n))"

text \<open>\<open>%0wd\<close> of a natural number.\<close>

definition zero_pad :: "nat \<Rightarrow> nat \<Rightarrow> string" where
  "zero_pad w n = replicate (w - length (nat_str n)) CHR ''0'' @ nat_str n"

subsection \<open>Fixed notation\<close>

definition round_half_even :: "real \<Rightarrow> int" where
  "round_half_even x =
     (let k = \<lfloor>x\<rfloor>; d = x - of_int k in
      if d < 1 / 2 then k else if d > 1 / 2 then k + 1 else if even k then k else k + 1)"

text \<open>The digits of a scaled magnitude with the point \<open>n\<close> places from the right.\<close>

definition point_digits :: "nat \<Rightarrow> nat \<Rightarrow> string" where
  "point_digits n m =
     nat_str (m div 10 ^ n) @ (if n = 0 then [] else CHR ''.'' # zero_pad n (m mod 10 ^ n))"

definition scaled :: "nat \<Rightarrow> real \<Rightarrow> nat" where
  "scaled n x = nat (round_half_even (\<bar>x\<bar> * 10 ^ n))"

definition fixed :: "nat \<Rightarrow> real \<Rightarrow> string" where
  "fixed n x = (if x < 0 then ''-'' else []) @ point_digits n (scaled n x)"

definition signed_fixed :: "nat \<Rightarrow> real \<Rightarrow> string" where
  "signed_fixed n x = (if x < 0 then ''-'' else ''+'') @ point_digits n (scaled n x)"

text \<open>\<open>%.nf\<close> of a float that may be special.\<close>

fun fixed_float :: "nat \<Rightarrow> pyfloat \<Rightarrow> string" where
  "fixed_float n (Fin x) = fixed n x"
| "fixed_float n NaN = ''nan''"
| "fixed_float n PInf = ''inf''"
| "fixed_float n NInf = ''-inf''"

subsection \<open>Scientific and general notation\<close>

text \<open>The decimal exponent of a positive number: scaled down to below ten, then up to at least one.\<close>

function exp_down :: "real \<Rightarrow> int \<Rightarrow> real \<times> int" where
  "exp_down x e = (if x \<ge> 10 then exp_down (x / 10) (e + 1) else (x, e))"
  by auto
termination
proof (relation "measure (\<lambda>(x, e). nat \<lfloor>x\<rfloor>)")
  fix x :: real and e :: int
  assume x: "10 \<le> x"
  then have "\<lfloor>x / 10\<rfloor> < \<lfloor>x\<rfloor>" by linarith
  moreover have "0 < \<lfloor>x\<rfloor>" using x by linarith
  ultimately show "((x / 10, e + 1), x, e) \<in> measure (\<lambda>(x, e). nat \<lfloor>x\<rfloor>)" by simp
qed simp

lemma ceiling_tenth:
  fixes y :: real
  assumes "1 < y"
  shows "\<lceil>y / 10\<rceil> < \<lceil>y\<rceil>"
proof -
  have "2 \<le> \<lceil>y\<rceil>" using assms by linarith
  then have "(2::real) \<le> of_int \<lceil>y\<rceil>" by linarith
  then have "y / 10 \<le> of_int \<lceil>y\<rceil> - 1" using assms le_of_int_ceiling [of y] by linarith
  then have "y / 10 \<le> of_int (\<lceil>y\<rceil> - 1)" by simp
  then show ?thesis unfolding ceiling_le_iff [symmetric] by linarith
qed

function exp_up :: "real \<Rightarrow> int \<Rightarrow> real \<times> int" where
  "exp_up x e = (if 0 < x \<and> x < 1 then exp_up (x * 10) (e - 1) else (x, e))"
  by auto
termination
proof (relation "measure (\<lambda>(x, e). nat \<lceil>1 / x\<rceil>)")
  fix x :: real and e :: int
  assume x: "0 < x \<and> x < 1"
  then have y: "1 < 1 / x" by simp
  have "\<lceil>1 / (x * 10)\<rceil> < \<lceil>1 / x\<rceil>" using ceiling_tenth [OF y] by simp
  moreover have "0 < \<lceil>1 / x\<rceil>" using y by linarith
  ultimately show "((x * 10, e - 1), x, e) \<in> measure (\<lambda>(x, e). nat \<lceil>1 / x\<rceil>)" by simp
qed simp

declare exp_down.simps [simp del] exp_up.simps [simp del]

text \<open>Mantissa and exponent of \<open>%.pe\<close>: the mantissa is the digits as an integer, carried into the exponent
  when rounding overflows it.\<close>

definition sci_parts :: "nat \<Rightarrow> real \<Rightarrow> nat \<times> int" where
  "sci_parts p x =
     (if x = 0 then (0, 0)
      else let (y, e) = (if \<bar>x\<bar> \<ge> 1 then exp_down \<bar>x\<bar> 0 else exp_up \<bar>x\<bar> 0);
               m = nat (round_half_even (y * 10 ^ p))
           in if m = 10 ^ (p + 1) then (10 ^ p, e + 1) else (m, e))"

definition exponent_str :: "int \<Rightarrow> string" where
  "exponent_str e = (if e < 0 then ''e-'' else ''e+'') @ zero_pad 2 (nat \<bar>e\<bar>)"

definition sci :: "nat \<Rightarrow> real \<Rightarrow> string" where
  "sci p x = (let (m, e) = sci_parts p x in (if x < 0 then ''-'' else []) @ point_digits p m @ exponent_str e)"

text \<open>\<open>%.pg\<close>, trailing zeros of the fraction removed.\<close>

definition strip_fraction :: "string \<Rightarrow> string" where
  "strip_fraction s = (if CHR ''.'' \<in> set s then rstrip_char CHR ''.'' (rstrip_char CHR ''0'' s) else s)"

definition general :: "nat \<Rightarrow> real \<Rightarrow> string" where
  "general p x =
     (let (m, e) = sci_parts (p - 1) x in
      if - 4 \<le> e \<and> e < int p then strip_fraction (fixed (nat (int p - 1 - e)) x)
      else (if x < 0 then ''-'' else []) @ strip_fraction (point_digits (p - 1) m) @ exponent_str e)"

subsection \<open>Reading the digits back\<close>

lemma digits_val_append: "digits_val (xs @ ys) = digits_val xs * 10 ^ length ys + digits_val ys"
proof (induction ys rule: rev_induct)
  case (snoc y ys)
  then show ?case by (simp flip: append_assoc add: algebra_simps)
qed (simp add: digits_val_def)

lemma digits_val_zeros: "digits_val (replicate k 0) = 0"
  by (induction k) (simp_all add: digits_val_def)

lemma digit_run_stop:
  "list_all is_digit s \<Longrightarrow> \<not> is_digit c \<Longrightarrow> c \<noteq> CHR ''_'' \<Longrightarrow>
     digit_run prev (s @ c # t) = (map digit_val s, c # t)"
  by (induction s arbitrary: prev) auto

lemma nat_str_length: "0 < n \<Longrightarrow> m < 10 ^ n \<Longrightarrow> length (nat_str m) \<le> n"
proof (induction n arbitrary: m)
  case (Suc n)
  show ?case
  proof (cases "m < 10")
    case True
    then show ?thesis by (simp add: nat_str.simps [of m])
  next
    case False
    then have "0 < n" using Suc.prems by (cases n) simp_all
    moreover have "m div 10 < 10 ^ n" using Suc.prems by (simp add: less_mult_imp_div_less)
    ultimately show ?thesis using Suc.IH False by (simp add: nat_str.simps [of m])
  qed
qed simp

lemma zero_pad_digits: "list_all is_digit (zero_pad w n)"
  using nat_str_digits [of n] by (auto simp: zero_pad_def list_all_iff is_digit_def code_of_def)

lemma zero_pad_val: "digits_val (map digit_val (zero_pad w n)) = n"
  by (simp add: zero_pad_def digits_val_append nat_str_val digit_val_def code_of_def digits_val_zeros)

lemma zero_pad_length: "0 < w \<Longrightarrow> n < 10 ^ w \<Longrightarrow> length (zero_pad w n) = w"
  using nat_str_length [of w n] by (simp add: zero_pad_def)

lemma decimal_digits: "list_all is_digit s \<Longrightarrow> s \<noteq> [] \<Longrightarrow> decimal s = Some (real (digits_val (map digit_val s)))"
  by (simp add: decimal_def digit_run_all scale10_def)

lemma decimal_point:
  assumes "list_all is_digit ip" "ip \<noteq> []" "list_all is_digit fp"
  shows "decimal (ip @ CHR ''.'' # fp) = Some (real (digits_val (map digit_val (ip @ fp))) / 10 ^ length fp)"
proof -
  have "\<not> is_digit CHR ''.''" by (simp add: is_digit_def code_of_def)
  then have "digit_run False (ip @ CHR ''.'' # fp) = (map digit_val ip, CHR ''.'' # fp)"
    using assms by (intro digit_run_stop) simp_all
  moreover have "digit_run False fp = (map digit_val fp, [])" using assms(3) by (rule digit_run_all)
  ultimately show ?thesis using assms(2) by (simp add: decimal_def scale10_def)
qed

definition int_digits :: "nat \<Rightarrow> nat \<Rightarrow> string" where
  "int_digits n m = nat_str (m div 10 ^ n)"

definition frac_digits :: "nat \<Rightarrow> nat \<Rightarrow> string" where
  "frac_digits n m = zero_pad n (m mod 10 ^ n)"

lemma digit_parts:
  "list_all is_digit (int_digits n m)" "int_digits n m \<noteq> []" "list_all is_digit (frac_digits n m)"
  "0 < n \<Longrightarrow> length (frac_digits n m) = n"
  using nat_str_digits [of "m div 10 ^ n"] by (simp_all add: int_digits_def frac_digits_def zero_pad_digits zero_pad_length)

lemma digit_parts_val: "0 < n \<Longrightarrow> digits_val (map digit_val (int_digits n m @ frac_digits n m)) = m"
  using digit_parts(4) [of n m]
  by (simp add: digits_val_append int_digits_def frac_digits_def nat_str_val zero_pad_val) (rule div_mult_mod_eq)

lemma point_digits_parts: "0 < n \<Longrightarrow> point_digits n m = int_digits n m @ CHR ''.'' # frac_digits n m"
  by (simp add: point_digits_def int_digits_def frac_digits_def)

lemma decimal_point_digits: "decimal (point_digits n m) = Some (real m / 10 ^ n)"
proof (cases "n = 0")
  case True
  then show ?thesis
    using nat_str_digits [of m] by (simp add: point_digits_def decimal_digits nat_str_val)
next
  case False
  then have "0 < n" by simp
  from decimal_point [OF digit_parts(1-3), of n m n m] show ?thesis
    using digit_parts_val [OF \<open>0 < n\<close>] digit_parts(4) [OF \<open>0 < n\<close>]
    by (simp add: point_digits_parts [OF \<open>0 < n\<close>])
qed

definition number_char :: "char \<Rightarrow> bool" where
  "number_char c \<longleftrightarrow> is_digit c \<or> c = CHR ''.''"

lemma number_char_plain:
  "number_char c \<Longrightarrow> \<not> is_space c \<and> c \<noteq> CHR ''-'' \<and> c \<noteq> CHR ''+'' \<and> lower_char c = c"
  by (auto simp: number_char_def is_digit_def is_space_def lower_char_def code_of_def Let_def)

lemma lower_number: "list_all number_char s \<Longrightarrow> lower s = s"
  by (induction s) (simp_all add: lower_def number_char_plain)

lemma py_float_number:
  assumes "list_all number_char s" "s \<noteq> []"
  shows "py_float ((if neg then ''-'' else []) @ s) =
    (case decimal s of None \<Rightarrow> None | Some v \<Rightarrow> Some (round_float (if neg then - v else v)))"
proof -
  have "\<not> is_space CHR ''-''" by (simp add: is_space_def code_of_def Let_def)
  then have "strip ((if neg then ''-'' else []) @ s) = (if neg then ''-'' else []) @ s"
    using assms(1) number_char_plain by (intro strip_id) (auto simp: list_all_iff)
  moreover obtain c cs where s: "s = c # cs" using assms(2) by (cases s) auto
  then have c: "number_char c" using assms(1) by simp
  then have "sign_of ((if neg then ''-'' else []) @ s) = (neg, s)" using number_char_plain [OF c] by (simp add: s)
  moreover have "c \<noteq> CHR ''i'' \<and> c \<noteq> CHR ''n''" using c by (auto simp: number_char_def is_digit_def code_of_def)
  ultimately have "sign_of (strip ((if neg then ''-'' else []) @ s)) = (neg, s)"
    "s \<noteq> ''inf'' \<and> s \<noteq> ''infinity'' \<and> s \<noteq> ''nan''"
    by (simp_all add: s)
  then show ?thesis by (simp add: py_float_def lower_number [OF assms(1)])
qed

lemma point_digits_chars: "list_all number_char (point_digits n m) \<and> point_digits n m \<noteq> []"
  using nat_str_digits [of "m div 10 ^ n"] zero_pad_digits [of n "m mod 10 ^ n"]
  by (auto simp: point_digits_def list_all_iff number_char_def)

lemma round_half_even_near: "\<bar>of_int (round_half_even x) - x\<bar> \<le> 1 / 2"
  unfolding round_half_even_def Let_def by (simp split: if_split)

lemma round_half_even_nonneg: "0 \<le> x \<Longrightarrow> 0 \<le> round_half_even x"
  unfolding round_half_even_def Let_def by auto

lemma scaled_near: "\<bar>real (scaled n x) / 10 ^ n - \<bar>x\<bar>\<bar> \<le> 1 / (2 * 10 ^ n)"
proof -
  have "real (scaled n x) = of_int (round_half_even (\<bar>x\<bar> * 10 ^ n))"
    by (simp add: scaled_def round_half_even_nonneg)
  then have "\<bar>real (scaled n x) - \<bar>x\<bar> * 10 ^ n\<bar> \<le> 1 / 2" using round_half_even_near by simp
  moreover have "real (scaled n x) / 10 ^ n - \<bar>x\<bar> = (real (scaled n x) - \<bar>x\<bar> * 10 ^ n) / 10 ^ n"
    by (simp add: field_simps)
  ultimately show ?thesis by (simp add: abs_divide field_simps)
qed


text \<open>\<open>float("%.nf" % v)\<close>: the number to within half a unit of the last printed place.\<close>

lemma py_float_fixed:
  "py_float (fixed n x) = Some (round_float (if x < 0 then - (real (scaled n x) / 10 ^ n) else real (scaled n x) / 10 ^ n))"
  using point_digits_chars [of n "scaled n x"] by (simp add: fixed_def py_float_number decimal_point_digits)

subsection \<open>Trailing zeros\<close>

lemma rstrip_char_append:
  "rstrip_char c (s @ t) = (if rstrip_char c t = [] then rstrip_char c s else s @ rstrip_char c t)"
  by (auto simp: rstrip_char_def dropWhile_append)

lemma rstrip_char_Cons: "a \<noteq> c \<Longrightarrow> rstrip_char c (a # s) = a # rstrip_char c s"
  using dropWhile_eq_Nil_conv [of "\<lambda>x. x = c" "rev s"]
  by (cases "dropWhile (\<lambda>x. x = c) (rev s) = []") (auto simp: rstrip_char_def dropWhile_append)

lemma rstrip_char_last: "s \<noteq> [] \<Longrightarrow> last s \<noteq> c \<Longrightarrow> rstrip_char c s = s"
  by (cases s rule: rev_cases) (simp_all add: rstrip_char_def)

lemma rstrip_char_split: "\<exists>k. s = rstrip_char c s @ replicate k c"
proof -
  have "rev s = takeWhile (\<lambda>x. x = c) (rev s) @ dropWhile (\<lambda>x. x = c) (rev s)" by simp
  moreover have "takeWhile (\<lambda>x. x = c) t = replicate (length (takeWhile (\<lambda>x. x = c) t)) c" for t
    by (induction t) auto
  ultimately have "s = rstrip_char c s @ rev (replicate (length (takeWhile (\<lambda>x. x = c) (rev s))) c)"
    by (metis rev_append rev_rev_ident rstrip_char_def)
  then show ?thesis by (metis rev_replicate)
qed

text \<open>\<open>("%.nf" % v).rstrip("0").rstrip(".")\<close>\<close>

definition trimmed :: "nat \<Rightarrow> real \<Rightarrow> string" where
  "trimmed n v = rstrip_char CHR ''.'' (rstrip_char CHR ''0'' (fixed n v))"

lemma last_digit: "list_all is_digit s \<Longrightarrow> s \<noteq> [] \<Longrightarrow> last s \<noteq> CHR ''.''"
  by (cases s rule: rev_cases) (auto simp: is_digit_def code_of_def)

lemma shift_places: "n = l + k \<Longrightarrow> m = d * 10 ^ k \<Longrightarrow> real m / 10 ^ n = real d / 10 ^ l"
  by (simp add: power_add)

lemma trimmed_parts:
  assumes "0 < n"
  shows "\<exists>s. trimmed n v = (if v < 0 then ''-'' else []) @ s \<and> list_all number_char s \<and> s \<noteq> []
    \<and> decimal s = Some (real (scaled n v) / 10 ^ n)"
proof -
  let ?sg = "if v < 0 then ''-'' else []" and ?m = "scaled n v"
  let ?ip = "int_digits n ?m" and ?fp = "frac_digits n ?m"
  define fp where "fp = rstrip_char CHR ''0'' ?fp"
  obtain k where k: "?fp = fp @ replicate k CHR ''0''" using rstrip_char_split fp_def by blast
  have ip: "list_all is_digit ?ip" "?ip \<noteq> []" and fpd: "list_all is_digit fp"
    using digit_parts [of n ?m] k by simp_all
  have "n = length fp + k" using digit_parts(4) [OF assms, of ?m] k by simp
  moreover have "?m = digits_val (map digit_val (?ip @ fp)) * 10 ^ k"
    using digit_parts_val [OF assms, of ?m] unfolding k append_assoc [symmetric] map_append digits_val_append [of _ "map digit_val (replicate k _)"]
    by (simp add: digit_val_def code_of_def digits_val_zeros)
  ultimately have val: "real ?m / 10 ^ n = real (digits_val (map digit_val (?ip @ fp))) / 10 ^ length fp"
    by (rule shift_places)
  have nodot: "rstrip_char CHR ''.'' (?sg @ ?ip) = ?sg @ ?ip"
  proof (rule rstrip_char_last)
    show "last (?sg @ ?ip) \<noteq> CHR ''.''"
      using last_digit [OF ip] ip(2) by simp
  qed (use ip in simp)
  have "fixed n v = (?sg @ ?ip) @ ''.'' @ ?fp" by (simp add: fixed_def point_digits_parts [OF assms])
  then have r: "rstrip_char CHR ''0'' (fixed n v) = (?sg @ ?ip) @ CHR ''.'' # fp"
    unfolding \<open>fixed n v = _\<close> by (simp add: rstrip_char_append rstrip_char_Cons fp_def)
  show ?thesis
  proof (cases "fp = []")
    case True
    then have "trimmed n v = ?sg @ ?ip"
      unfolding trimmed_def r rstrip_char_append [of _ "?sg @ ?ip"] using nodot by (simp add: rstrip_char_def)
    moreover have "list_all number_char ?ip" using ip(1) by (auto simp: list_all_iff number_char_def)
    ultimately show ?thesis using ip val True decimal_digits [OF ip] by auto
  next
    case False
    have "last fp \<noteq> CHR ''.''" by (rule last_digit [OF fpd False])
    then have "trimmed n v = ?sg @ ?ip @ CHR ''.'' # fp"
      unfolding trimmed_def r by (subst rstrip_char_last) (use False in simp_all)
    moreover have "list_all number_char (?ip @ CHR ''.'' # fp)"
      using ip(1) fpd by (auto simp: list_all_iff number_char_def)
    ultimately show ?thesis using decimal_point [OF ip fpd] val by auto
  qed
qed


lemma trimmed_plain:
  assumes "0 < n"
  shows "strip (trimmed n v) = trimmed n v" "trimmed n v \<noteq> []" "lower (trimmed n v) = trimmed n v"
    "number_char (last (trimmed n v))"
proof -
  from trimmed_parts [OF assms, of v] obtain s where
    s: "trimmed n v = (if v < 0 then ''-'' else []) @ s" "list_all number_char s" "s \<noteq> []" by blast
  then show "trimmed n v \<noteq> []" "number_char (last (trimmed n v))" by (auto simp: list_all_iff)
  have "\<not> is_space CHR ''-''" by (simp add: is_space_def code_of_def Let_def)
  then show "strip (trimmed n v) = trimmed n v"
    using s number_char_plain by (intro strip_id) (auto simp: list_all_iff)
  have "lower_char CHR ''-'' = CHR ''-''" by (simp add: lower_char_def code_of_def)
  then show "lower (trimmed n v) = trimmed n v" using lower_number [OF s(2)] by (simp add: s(1) lower_def)
qed

text \<open>Reading a stored number gives it back to within half a unit of the last stored place.\<close>

lemma py_float_trimmed:
  assumes "0 < n"
  shows "\<exists>w. py_float (trimmed n v) = Some (round_float w) \<and> \<bar>w - v\<bar> \<le> 1 / (2 * 10 ^ n)"
proof -
  from trimmed_parts [OF assms, of v] obtain s where
    s: "trimmed n v = (if v < 0 then ''-'' else []) @ s" "list_all number_char s" "s \<noteq> []"
      "decimal s = Some (real (scaled n v) / 10 ^ n)" by blast
  let ?w = "if v < 0 then - (real (scaled n v) / 10 ^ n) else real (scaled n v) / 10 ^ n"
  have "py_float (trimmed n v) = Some (round_float ?w)"
    unfolding s(1) py_float_number [OF s(2,3)] by (simp add: s(4))
  moreover have "\<bar>?w - v\<bar> \<le> 1 / (2 * 10 ^ n)"
    using scaled_near [of n v] by (cases "v < 0") (simp_all add: abs_if split: if_splits)
  ultimately show ?thesis by blast
qed

end
