(* ===== verification/Csv.thy ===== *)
theory Csv
  imports PyFormat
begin

text \<open>
  The \<open>csv\<close> module as the scripts use it: the writer of \<open>write_csv\<close> in \<open>scripts/analyze.py\<close> (minimal quoting, line
  feeds) and the reader behind \<open>load_samples\<close> in \<open>sim/rail_model.py\<close> (default dialect, not strict), which is the
  state machine of the library on the characters of the file. The limit on the size of a field is
  left out.
\<close>

subsection \<open>The writer\<close>

definition needs_quotes :: "string \<Rightarrow> bool" where
  "needs_quotes s = list_ex (\<lambda>c. c = CHR '','' \<or> c = CHR 0x22 \<or> c = CHR 0x0A \<or> c = CHR 0x0D) s"

definition escape_quotes :: "string \<Rightarrow> string" where
  "escape_quotes s = concat (map (\<lambda>c. if c = CHR 0x22 then [c, c] else [c]) s)"

definition csv_quote :: "string \<Rightarrow> string" where
  "csv_quote s = CHR 0x22 # escape_quotes s @ [CHR 0x22]"

definition csv_field :: "string \<Rightarrow> string" where
  "csv_field s = (if needs_quotes s then csv_quote s else s)"

text \<open>A row of one empty field is quoted, since an empty line means a row without fields.\<close>

definition csv_row :: "string list \<Rightarrow> string" where
  "csv_row got =
     (if got = [[]] then csv_quote [] else join_with CHR '','' (map csv_field got)) @ [CHR 0x0A]"

definition csv_text :: "string list list \<Rightarrow> string" where
  "csv_text rows = concat (map csv_row rows)"

subsection \<open>The reader\<close>

datatype csv_mode = StartRecord | StartField | InField | InQuoted | QuoteInQuoted | AfterReturn

record csv_state =
  cs_mode :: csv_mode
  cs_field :: string
  cs_fields :: "string list"
  cs_rows :: "string list list"

definition save_field :: "csv_state \<Rightarrow> csv_state" where
  "save_field s = s\<lparr>cs_fields := cs_fields s @ [cs_field s], cs_field := []\<rparr>"

definition add_char :: "char \<Rightarrow> csv_mode \<Rightarrow> csv_state \<Rightarrow> csv_state" where
  "add_char c m s = s\<lparr>cs_field := cs_field s @ [c], cs_mode := m\<rparr>"

text \<open>The end of a record at a line feed or a carriage return.\<close>

definition end_record :: "char \<Rightarrow> csv_state \<Rightarrow> csv_state" where
  "end_record c s =
     s\<lparr>cs_rows := cs_rows s @ [cs_fields s], cs_fields := [],
       cs_mode := (if c = CHR 0x0D then AfterReturn else StartRecord)\<rparr>"

definition csv_char :: "char \<Rightarrow> csv_state \<Rightarrow> csv_state" where
  "csv_char c s0 =
     (let s = (if cs_mode s0 = AfterReturn then s0\<lparr>cs_mode := StartRecord\<rparr> else s0);
          newline = (c = CHR 0x0A \<or> c = CHR 0x0D)
      in if cs_mode s0 = AfterReturn \<and> c = CHR 0x0A then s
         else case cs_mode s of
           InQuoted \<Rightarrow> if c = CHR 0x22 then s\<lparr>cs_mode := QuoteInQuoted\<rparr> else add_char c InQuoted s
         | QuoteInQuoted \<Rightarrow>
             if c = CHR 0x22 then add_char c InQuoted s
             else if c = CHR '','' then (save_field s)\<lparr>cs_mode := StartField\<rparr>
             else if newline then end_record c (save_field s)
             else add_char c InField s
         | InField \<Rightarrow>
             if newline then end_record c (save_field s)
             else if c = CHR '','' then (save_field s)\<lparr>cs_mode := StartField\<rparr>
             else add_char c InField s
         | m \<Rightarrow>
             if newline then end_record c (if m = StartRecord then s else save_field s)
             else if c = CHR 0x22 then s\<lparr>cs_mode := InQuoted\<rparr>
             else if c = CHR '','' then (save_field s)\<lparr>cs_mode := StartField\<rparr>
             else add_char c InField s)"

text \<open>At the end of the file a record without a line end is completed.\<close>

definition csv_end :: "csv_state \<Rightarrow> string list list" where
  "csv_end s =
     (if cs_mode s = StartRecord \<or> cs_mode s = AfterReturn then cs_rows s
      else cs_rows s @ [cs_fields s @ [cs_field s]])"

definition csv_start :: csv_state where
  "csv_start = \<lparr>cs_mode = StartRecord, cs_field = [], cs_fields = [], cs_rows = []\<rparr>"

definition csv_read :: "string \<Rightarrow> string list list" where
  "csv_read text = csv_end (fold csv_char text csv_start)"

subsection \<open>Reading what was written\<close>

definition csv_at :: "csv_mode \<Rightarrow> string list \<Rightarrow> string list list \<Rightarrow> csv_state" where
  "csv_at m got rows = \<lparr>cs_mode = m, cs_field = [], cs_fields = got, cs_rows = rows\<rparr>"

text \<open>A mode in which the next character starts a field.\<close>

definition fresh :: "csv_mode \<Rightarrow> bool" where
  "fresh m \<longleftrightarrow> m = StartRecord \<or> m = StartField"

lemmas csv_step = csv_char_def save_field_def add_char_def end_record_def csv_at_def Let_def

lemma plain_chars:
  "\<not> needs_quotes s \<Longrightarrow> cs_mode st = InField \<Longrightarrow> fold csv_char s st = st\<lparr>cs_field := cs_field st @ s\<rparr>"
  by (induction s arbitrary: st) (simp_all add: needs_quotes_def csv_step)

lemma quoted_chars:
  "cs_mode st = InQuoted \<Longrightarrow> fold csv_char (escape_quotes s) st = st\<lparr>cs_field := cs_field st @ s\<rparr>"
  by (induction s arbitrary: st) (simp_all add: escape_quotes_def csv_step)

lemma open_quote: "fresh m \<Longrightarrow> csv_char CHR 0x22 (csv_at m got rows) = csv_at InQuoted got rows"
  by (auto simp: fresh_def csv_step)

text \<open>After the text of a field, the reader is ready to save exactly that field.\<close>

lemma field_read:
  assumes "fresh m"
  shows "\<exists>m'. fold csv_char (csv_field s) (csv_at m got rows) = (csv_at m' got rows)\<lparr>cs_field := s\<rparr>
    \<and> (m' = InField \<or> m' = QuoteInQuoted \<or> s = [] \<and> m' = m)"
proof (cases "needs_quotes s")
  case True
  have "fold csv_char (escape_quotes s) (csv_at InQuoted got rows) = (csv_at InQuoted got rows)\<lparr>cs_field := s\<rparr>"
    by (simp add: quoted_chars csv_at_def)
  moreover have "csv_char CHR 0x22 ((csv_at InQuoted got rows)\<lparr>cs_field := s\<rparr>)
      = (csv_at QuoteInQuoted got rows)\<lparr>cs_field := s\<rparr>"
    by (simp add: csv_step)
  ultimately have "fold csv_char (csv_field s) (csv_at m got rows) = (csv_at QuoteInQuoted got rows)\<lparr>cs_field := s\<rparr>"
    using True by (simp add: csv_field_def csv_quote_def open_quote [OF assms])
  then show ?thesis by blast
next
  case False
  show ?thesis
  proof (cases s)
    case Nil
    with False show ?thesis by (simp add: csv_field_def csv_at_def)
  next
    case (Cons c cs)
    then have "csv_char c (csv_at m got rows) = (csv_at InField got rows)\<lparr>cs_field := [c]\<rparr>"
      using False assms by (auto simp: needs_quotes_def fresh_def csv_step)
    with False Cons show ?thesis
      using plain_chars [of cs "(csv_at InField got rows)\<lparr>cs_field := [c]\<rparr>"]
      by (simp add: csv_field_def needs_quotes_def csv_at_def)
  qed
qed

lemma fields_read:
  assumes "fresh m" and "fs \<noteq> []" and "m = StartField \<or> fs \<noteq> [[]]"
  shows "fold csv_char (join_with CHR '','' (map csv_field fs) @ [CHR 0x0A]) (csv_at m got rows)
    = csv_at StartRecord [] (rows @ [got @ fs])"
  using assms
proof (induction fs arbitrary: m got rule: induct_list012)
  case (2 f)
  from field_read [OF 2(1), of f got rows] obtain m' where
    m': "fold csv_char (csv_field f) (csv_at m got rows) = (csv_at m' got rows)\<lparr>cs_field := f\<rparr>"
      "m' = InField \<or> m' = QuoteInQuoted \<or> f = [] \<and> m' = m" by blast
  moreover have "m' = StartField" if "f = []" "m' = m" using 2(3) that by simp
  ultimately have "csv_char CHR 0x0A ((csv_at m' got rows)\<lparr>cs_field := f\<rparr>) = csv_at StartRecord [] (rows @ [got @ [f]])"
    by (auto simp: csv_step)
  with m'(1) show ?case by simp
next
  case (3 f g fs)
  from field_read [OF 3(3), of f got rows] obtain m' where
    m': "fold csv_char (csv_field f) (csv_at m got rows) = (csv_at m' got rows)\<lparr>cs_field := f\<rparr>"
      "m' = InField \<or> m' = QuoteInQuoted \<or> f = [] \<and> m' = m" by blast
  then have "csv_char CHR '','' ((csv_at m' got rows)\<lparr>cs_field := f\<rparr>) = csv_at StartField (got @ [f]) rows"
    using 3(3) by (auto simp: csv_step fresh_def)
  with m'(1) 3(2) [of StartField "got @ [f]"] show ?case by (simp add: fresh_def)
qed simp

lemma row_read:
  "fold csv_char (csv_row fs) (csv_at StartRecord [] rows) = csv_at StartRecord [] (rows @ [fs])"
proof (cases "fs = [] \<or> fs = [[]]")
  case True
  then show ?thesis by (auto simp: csv_row_def csv_quote_def escape_quotes_def csv_step)
next
  case False
  then show ?thesis using fields_read [of StartRecord fs "[]" rows] by (simp add: csv_row_def fresh_def)
qed

lemma text_read:
  "fold csv_char (csv_text fss) (csv_at StartRecord [] rows) = csv_at StartRecord [] (rows @ fss)"
  by (induction fss arbitrary: rows) (simp_all add: csv_text_def row_read)

lemma csv_read_text: "csv_read (csv_text fss) = fss"
  using text_read [of fss "[]"] by (simp add: csv_read_def csv_start_def csv_at_def csv_end_def)

end
