(* ===== verification/ModelMain.thy ===== *)
theory ModelMain
  imports RailTax PartitionSweep RaceToIdle Calibrate Csv
begin

text \<open>
  The command line of \<open>sim/rail_model.py\<close>: \<open>main\<close> with its argument checks, the optional calibration on a CSV file,
  \<open>run_all\<close>, which runs the three experiments, and the record it returns with the predictions P1 to P4. What
  opening and reading the CSV file yields is a parameter; plots are left out.
\<close>

subsection \<open>Least and greatest of floats that may be NaN\<close>

text \<open>\<open>x < y\<close>, and \<open>min\<close> and \<open>max\<close> of a list, which keep the first element no later one beats.\<close>

fun py_less :: "pyfloat \<Rightarrow> pyfloat \<Rightarrow> bool" where
  "py_less (Fin x) (Fin y) = (x < y)"
| "py_less NInf (Fin y) = True"
| "py_less (Fin x) PInf = True"
| "py_less NInf PInf = True"
| "py_less _ _ = False"

fun py_min :: "pyfloat \<Rightarrow> pyfloat list \<Rightarrow> pyfloat" where
  "py_min m [] = m"
| "py_min m (x # xs) = py_min (if py_less x m then x else m) xs"

fun py_max :: "pyfloat \<Rightarrow> pyfloat list \<Rightarrow> pyfloat" where
  "py_max m [] = m"
| "py_max m (x # xs) = py_max (if py_less m x then x else m) xs"

subsection \<open>Arguments and results\<close>

record model_args =
  ma_calibrate :: "string option"
  ma_light_activity :: real
  ma_f_little_mhz :: real
  ma_temp_c :: real
  ma_exp_c_cores :: int
  ma_no_pl1 :: bool

definition default_model_args :: model_args where
  "default_model_args =
     \<lparr>ma_calibrate = None, ma_light_activity = 0.15, ma_f_little_mhz = F_LITTLE_HZ / 10 ^ 6, ma_temp_c = T_DEFAULT_C,
      ma_exp_c_cores = int N_PHYS_CORES, ma_no_pl1 = False\<rparr>"

record predictions =
  P1_saving_retained_frac_range :: "pyfloat list"
  P1_single_little_cost_ratio :: real
  P2_shared_rail_interior_optimum :: bool
  P2_split_rail_interior_optimum :: bool
  P2_partition_benefit_retained_frac :: pyfloat
  P2_energy_penalty_at_optimum_pct :: real
  P2_feasible_curve_spread_frac_shared :: real
  P3_race_to_idle_crossover_ghz :: real
  P3_energy_penalty_at_f_min_pct :: real
  P4_tunable_freq_domains :: nat
  P4_logical_cpus :: nat

record model_output =
  mo_verdict :: string
  mo_params :: params
  mo_f_little_hz :: hz
  mo_temp_c :: real
  mo_a :: "a_row list \<times> a_detail"
  mo_b :: "b_row list \<times> b_summary"
  mo_c :: "c_row list \<times> c_summary"
  mo_predictions :: predictions
  mo_calibration :: "fit_info option"

definition predictions_of ::
  "a_row list \<times> a_detail \<Rightarrow> b_row list \<times> b_summary \<Rightarrow> c_row list \<times> c_summary \<Rightarrow> predictions" where
  "predictions_of a b c =
     (let retained = map saving_retained_frac (fst a) in
      \<lparr>P1_saving_retained_frac_range = [py_min (hd retained) (tl retained), py_max (hd retained) (tl retained)],
       P1_single_little_cost_ratio = one_light_core_cost_ratio (snd a),
       P2_shared_rail_interior_optimum = interior_optimum_shared (snd b),
       P2_split_rail_interior_optimum = interior_optimum_split (snd b),
       P2_partition_benefit_retained_frac = partition_benefit_retained_frac (snd b),
       P2_energy_penalty_at_optimum_pct = energy_gap_pct (snd b),
       P2_feasible_curve_spread_frac_shared = curve_spread_frac_shared (snd b),
       P3_race_to_idle_crossover_ghz = crossover_f_ghz (snd c),
       P3_energy_penalty_at_f_min_pct = energy_penalty_of_running_at_f_min_pct (snd c),
       P4_tunable_freq_domains = N_PHYS_CORES, P4_logical_cpus = N_LOGICAL_CPUS\<rparr>)"

definition run_all :: "params \<Rightarrow> model_args \<Rightarrow> fit_info option \<Rightarrow> py_error + model_output" where
  "run_all ps args calib =
     err_bind (experiment_a ps (ma_light_activity args) (ma_f_little_mhz args * 10 ^ 6) (ma_temp_c args) 7) (\<lambda>a.
       let b = experiment_b ps (ma_temp_c args) (\<not> ma_no_pl1 args) in
       err_bind (experiment_c ps (nat (ma_exp_c_cores args)) W_COMPILE_GCYCLES (ma_temp_c args)) (\<lambda>c.
         Inr \<lparr>mo_verdict = ''rejected'', mo_params = ps, mo_f_little_hz = ma_f_little_mhz args * 10 ^ 6,
              mo_temp_c = ma_temp_c args, mo_a = a, mo_b = b, mo_c = c, mo_predictions = predictions_of a b c,
              mo_calibration = calib\<rparr>))"

subsection \<open>The program\<close>

text \<open>\<open>load_samples\<close> from the text of the file: the first record is the header.\<close>

definition load_samples_text :: "string \<Rightarrow> sample list \<times> nat" where
  "load_samples_text text = (case csv_read text of [] \<Rightarrow> ([], 0) | header # rows \<Rightarrow> load_samples header rows)"

definition calibrate_file :: "params \<Rightarrow> string \<Rightarrow> string \<Rightarrow> py_error + params \<times> fit_info" where
  "calibrate_file ps path text =
     (case csv_read text of [] \<Rightarrow> calibrate ps path [] [] | header # rows \<Rightarrow> calibrate ps path header rows)"

definition check_args :: "model_args \<Rightarrow> py_error option" where
  "check_args args =
     (if ma_exp_c_cores args < 1 \<or> ma_exp_c_cores args > int N_PHYS_CORES then
        Some (SystemExit (''--exp-c-cores must be 1..'' @ nat_str N_PHYS_CORES))
      else if \<not> (0 < ma_light_activity args \<and> ma_light_activity args \<le> 1) then
        Some (SystemExit ''--light-activity must be in (0, 1]'')
      else None)"

definition model_main :: "(string \<Rightarrow> py_error + string) \<Rightarrow> model_args \<Rightarrow> py_error + model_output" where
  "model_main read args =
     (case check_args args of
        Some e \<Rightarrow> Inl e
      | None \<Rightarrow>
          (case ma_calibrate args of
             Some (c # cs) \<Rightarrow>
               err_bind (read (c # cs)) (\<lambda>text.
                 err_bind (calibrate_file PARAMS (c # cs) text) (\<lambda>(ps, info). run_all ps args (Some info)))
           | _ \<Rightarrow> run_all PARAMS args None))"

subsection \<open>The experiments run\<close>

lemma a_detail_total:
  assumes "params_ok ps" "0 < la" "0 < f"
  shows "\<exists>d. a_detail_of ps la f t = Inr d"
proof -
  have "0 < la * C_eff ps * (v_of_f f)\<^sup>2 * f / 10 ^ 9"
    using assms by (intro divide_pos_pos mult_pos_pos zero_less_power) (simp_all add: params_ok_def)
  moreover have "0 \<le> core_leakage_w ps (v_of_f f) True t"
    using assms(1) by (intro core_leakage_nonneg) (simp_all add: params_ok_def)
  ultimately have "la * C_eff ps * (v_of_f f)\<^sup>2 * f / 10 ^ 9 + core_leakage_w ps (v_of_f f) True t \<noteq> 0" by linarith
  then show ?thesis by (simp add: a_detail_of_def Let_def)
qed

lemma run_all_total:
  assumes "params_ok ps" "check_args args = None" "0 < ma_f_little_mhz args"
  shows "\<exists>out. run_all ps args calib = Inr out \<and> mo_params out = ps \<and> mo_calibration out = calib"
proof -
  have args: "0 < nat (ma_exp_c_cores args)" "0 < ma_light_activity args"
    using assms(2) by (auto simp: check_args_def split: if_splits)
  obtain d where d: "a_detail_of ps (ma_light_activity args) (ma_f_little_mhz args * 10 ^ 6) (ma_temp_c args) = Inr d"
    using a_detail_total [OF assms(1) args(2)] assms(3) by (metis mult_pos_pos zero_less_numeral zero_less_power)
  have "0 < W_COMPILE_GCYCLES" by (simp add: W_COMPILE_GCYCLES_def)
  then show ?thesis
    using d experiment_c_eq [OF assms(1) args(1), of W_COMPILE_GCYCLES "ma_temp_c args"]
    by (simp add: run_all_def experiment_a_def Let_def)
qed

lemma calibrate_file_load:
  "(\<exists>e. calibrate_file ps path text = Inl e) \<longleftrightarrow> length (fst (load_samples_text text)) < 4"
  "calibrate_file ps path text = Inr (ps', info) \<Longrightarrow> params_ok ps' \<and> ps' = fit info \<and> prior info = ps"
proof -
  obtain header rows where f: "calibrate_file ps path text = calibrate ps path header rows"
    "load_samples_text text = load_samples header rows"
    by (cases "csv_read text") (auto simp: calibrate_file_def load_samples_text_def load_samples_def)
  obtain samples skipped where l: "load_samples header rows = (samples, skipped)" by (rule prod.exhaust)
  note cases = calibrate_cases [OF l, of ps path]
  show "(\<exists>e. calibrate_file ps path text = Inl e) \<longleftrightarrow> length (fst (load_samples_text text)) < 4"
    unfolding f l using cases by (cases "length samples < 4") auto
  show "params_ok ps' \<and> ps' = fit info \<and> prior info = ps" if "calibrate_file ps path text = Inr (ps', info)"
    using cases that clamp_ok unfolding f by (cases "length samples < 4") auto
qed

lemma model_main_cases:
  "check_args args = Some e \<Longrightarrow> model_main read args = Inl e"
  "check_args args = None \<Longrightarrow> ma_calibrate args = None \<or> ma_calibrate args = Some [] \<Longrightarrow>
     model_main read args = run_all PARAMS args None"
  "check_args args = None \<Longrightarrow> ma_calibrate args = Some path \<Longrightarrow> path \<noteq> [] \<Longrightarrow>
     model_main read args = err_bind (read path) (\<lambda>text.
       err_bind (calibrate_file PARAMS path text) (\<lambda>(ps, info). run_all ps args (Some info)))"
  by (auto simp: model_main_def split: list.split)


subsection \<open>The default predictions\<close>

lemma py_fold_range:
  assumes "lo < m" "m < hi" "\<forall>x \<in> set xs. \<exists>v. x = Fin v \<and> lo < v \<and> v < hi"
  shows "\<exists>v. py_min (Fin m) xs = Fin v \<and> lo < v \<and> v \<le> m" and "\<exists>v. py_max (Fin m) xs = Fin v \<and> m \<le> v \<and> v < hi"
proof -
  show "\<exists>v. py_min (Fin m) xs = Fin v \<and> lo < v \<and> v \<le> m" using assms(1,3)
  proof (induction xs arbitrary: m)
    case (Cons x xs)
    from Cons.prems(2) obtain v where v: "x = Fin v" "lo < v" by auto
    then show ?case using Cons.IH [of "if v < m then v else m"] Cons.prems by (force split: if_splits)
  qed simp
  show "\<exists>v. py_max (Fin m) xs = Fin v \<and> m \<le> v \<and> v < hi" using assms(2,3)
  proof (induction xs arbitrary: m)
    case (Cons x xs)
    from Cons.prems(2) obtain v where v: "x = Fin v" "v < hi" by auto
    then show ?case using Cons.IH [of "if m < v then v else m"] Cons.prems by (force split: if_splits)
  qed simp
qed

lemma default_experiment_a:
  "\<exists>d. experiment_a PARAMS 0.15 F_LITTLE_HZ T_DEFAULT_C 7 = Inr (map (a_row_of PARAMS 0.15 F_LITTLE_HZ T_DEFAULT_C) [1..<8], d)
     \<and> 3 < one_light_core_cost_ratio d \<and> one_light_core_cost_ratio d < 5"
proof -
  obtain d where "a_detail_of PARAMS 0.15 F_LITTLE_HZ T_DEFAULT_C = Inr d" using detail_default_exists by blast
  with detail_default [OF this] show ?thesis by (simp add: experiment_a_def Let_def)
qed

lemma default_retained_range:
  assumes "rs = map saving_retained_frac (map (a_row_of PARAMS 0.15 F_LITTLE_HZ T_DEFAULT_C) [1..<8])"
  shows "\<exists>lo hi. [py_min (hd rs) (tl rs), py_max (hd rs) (tl rs)] = [Fin lo, Fin hi] \<and> 1 / 2 < lo \<and> lo \<le> hi \<and> hi < 1"
proof -
  have row: "\<exists>x. r = Fin x \<and> 1 / 2 < x \<and> x < 1" if "r \<in> set rs" for r
    using that default_row_retained by (auto simp: assms)
  have ne: "rs \<noteq> []" by (simp add: assms)
  then obtain m where m: "hd rs = Fin m" "1 / 2 < m" "m < 1" using row [of "hd rs"] by auto
  have tl: "\<forall>x \<in> set (tl rs). \<exists>v. x = Fin v \<and> 1 / 2 < v \<and> v < 1" using row ne by (auto dest: list.set_sel(2))
  from py_fold_range [OF m(2,3) tl] show ?thesis unfolding m(1) by force
qed

subsection \<open>Properties\<close>



text \<open>The experiments always run on physical parameters: those of the source without a calibration, and otherwise
  the fit, which is recorded together with the parameters it replaced.\<close>

theorem model_main_parameters:
  "case model_main read args of
     Inl e \<Rightarrow> True
   | Inr out \<Rightarrow> params_ok (mo_params out)
       \<and> (case mo_calibration out of None \<Rightarrow> mo_params out = PARAMS
          | Some info \<Rightarrow> mo_params out = fit info \<and> prior info = PARAMS)"
proof -
  have run: "case run_all ps args calib of Inl e \<Rightarrow> True | Inr out \<Rightarrow> mo_params out = ps \<and> mo_calibration out = calib" for ps calib
    by (auto simp: run_all_def err_bind_def Let_def split: sum.split)
  consider "\<exists>e. model_main read args = Inl e" | "model_main read args = run_all PARAMS args None"
    | path body ps info where "calibrate_file PARAMS path body = Inr (ps, info)" "model_main read args = run_all ps args (Some info)"
    by (fastforce simp: model_main_def err_bind_def split: option.splits list.splits sum.splits)
  then show ?thesis
  proof cases
    case 2
    then show ?thesis using run [of PARAMS None] by (auto split: sum.split)
  next
    case (3 path body ps info)
    then show ?thesis using run [of ps "Some info"] calibrate_file_load(2) [OF 3(1)] by (auto split: sum.split)
  qed auto
qed

text \<open>C23: a run with the default arguments ends normally, and its record of predictions has: EPP retains between 50 and
  100\% of the saving of a true LITTLE cluster for every number of threads, one LITTLE thread costs three to five
  times as much as on its own rail, the race-to-idle crossover lies between 0.6 and 1.25 GHz, and four frequency
  domains face eight logical CPUs.\<close>

theorem default_predictions:
  "\<exists>out lo hi. model_main read default_model_args = Inr out \<and> mo_params out = PARAMS \<and> mo_verdict out = ''rejected''
     \<and> (let p = mo_predictions out in
          P1_saving_retained_frac_range p = [Fin lo, Fin hi] \<and> 1 / 2 < lo \<and> lo \<le> hi \<and> hi < 1
          \<and> 3 < P1_single_little_cost_ratio p \<and> P1_single_little_cost_ratio p < 5
          \<and> 0.6 < P3_race_to_idle_crossover_ghz p \<and> P3_race_to_idle_crossover_ghz p < 1.25
          \<and> P4_tunable_freq_domains p = 4 \<and> P4_logical_cpus p = 8)"
proof -
  let ?row = "a_row_of PARAMS 0.15 F_LITTLE_HZ T_DEFAULT_C"
  obtain d where a: "experiment_a PARAMS 0.15 F_LITTLE_HZ T_DEFAULT_C 7 = Inr (map ?row [1..<8], d)"
    "3 < one_light_core_cost_ratio d" "one_light_core_cost_ratio d < 5"
    using default_experiment_a by blast
  obtain lo hi where p1: "predictions_of (map ?row [1..<8], d) b c = p \<Longrightarrow>
      P1_saving_retained_frac_range p = [Fin lo, Fin hi]" "1 / 2 < lo" "lo \<le> hi" "hi < 1" for b c p
    using default_retained_range [OF refl] by (fastforce simp: predictions_of_def Let_def)
  let ?curve = "map (c_row_of PARAMS 4 120 T_DEFAULT_C) (c_points 4)"
  define s where "s = c_summary_of 4 120 ?curve (c_row_of PARAMS 4 120 T_DEFAULT_C F_MIN_HZ)"
  have c: "experiment_c PARAMS 4 120 T_DEFAULT_C = Inr (?curve, s)"
    using experiment_c_eq [of PARAMS 4 120 T_DEFAULT_C] by (simp add: s_def Let_def)
  have args: "check_args default_model_args = None" "ma_calibrate default_model_args = None"
    "ma_light_activity default_model_args = 0.15" "ma_f_little_mhz default_model_args * 10 ^ 6 = F_LITTLE_HZ"
    "ma_temp_c default_model_args = T_DEFAULT_C" "nat (ma_exp_c_cores default_model_args) = 4" "W_COMPILE_GCYCLES = 120"
    by (simp_all add: default_model_args_def check_args_def N_PHYS_CORES_def F_LITTLE_HZ_def W_COMPILE_GCYCLES_def)
  define b where "b = experiment_b PARAMS T_DEFAULT_C (\<not> ma_no_pl1 default_model_args)"
  define out where "out = \<lparr>mo_verdict = ''rejected'', mo_params = PARAMS, mo_f_little_hz = F_LITTLE_HZ,
    mo_temp_c = T_DEFAULT_C, mo_a = (map ?row [1..<8], d), mo_b = b, mo_c = (?curve, s),
    mo_predictions = predictions_of (map ?row [1..<8], d) b (?curve, s), mo_calibration = None\<rparr>"
  have "run_all PARAMS default_model_args None = Inr out"
    unfolding run_all_def args(3-7) a(1) c err_bind_simps Let_def out_def b_def ..
  then have out: "model_main read default_model_args = Inr out" "mo_params out = PARAMS"
    "mo_verdict out = ''rejected''" "mo_predictions out = predictions_of (map ?row [1..<8], d) b (?curve, s)"
    using model_main_cases(2) [OF args(1)] args(2) by (simp_all add: out_def)
  have "P1_single_little_cost_ratio (mo_predictions out) = one_light_core_cost_ratio d"
    "P3_race_to_idle_crossover_ghz (mo_predictions out) = crossover_f_ghz s"
    "P4_tunable_freq_domains (mo_predictions out) = 4" "P4_logical_cpus (mo_predictions out) = 8"
    by (simp_all add: out(4) predictions_of_def Let_def N_PHYS_CORES_def N_LOGICAL_CPUS_def)
  with out(1-3) p1(1) [OF out(4) [symmetric]] p1(2-4) a(2,3) default_summary [OF s_def] show ?thesis
    unfolding Let_def by metis
qed

end
