(* ===== verification/Json.thy ===== *)
theory Json
  imports PyText
begin

text \<open>
  JSON values as \<open>json.loads\<close> returns them, with objects as association lists, and the part of
  \<open>scripts/bench.py\<close> that picks the tools' JSON lines out of their output: \<open>collect_json\<close> and
  \<open>classify_json\<close>. The decoder of one line is a parameter, \<open>None\<close> being \<open>JSONDecodeError\<close>. The NaN and
  infinity literals reach the program as null, through \<open>parse_constant\<close>.
\<close>

datatype json =
    JNull
  | JBool bool
  | JInt int
  | JFloat pyfloat
  | JStr string
  | JArr "json list"
  | JObj "(string \<times> json) list"

text \<open>\<open>o.get(k)\<close> of an object, null when it has no such key or is not an object; \<open>k in o\<close>.\<close>

fun jget :: "json \<Rightarrow> string \<Rightarrow> json" where
  "jget (JObj kvs) k = (case map_of kvs k of Some v \<Rightarrow> v | None \<Rightarrow> JNull)"
| "jget _ k = JNull"

fun jhas :: "json \<Rightarrow> string \<Rightarrow> bool" where
  "jhas (JObj kvs) k = (map_of kvs k \<noteq> None)"
| "jhas _ k = False"

subsection \<open>Lines of tool output\<close>

text \<open>\<open>text.splitlines()\<close> on line feeds, without the empty last line.\<close>

definition split_lines :: "string \<Rightarrow> string list" where
  "split_lines text =
     (let parts = split_on CHR 0x0A text in if last parts = [] then butlast parts else parts)"

definition object_line :: "string \<Rightarrow> bool" where
  "object_line l \<longleftrightarrow> l \<noteq> [] \<and> hd l = CHR 0x7B \<and> last l = CHR 0x7D"

definition collect_json :: "(string \<Rightarrow> json option) \<Rightarrow> string \<Rightarrow> json list" where
  "collect_json loads text =
     List.map_filter loads (filter object_line (map strip (split_lines text)))"

record slots =
  sl_energy :: "json option"
  sl_pinger :: "json option"
  sl_spin :: "json option"
  sl_bls :: "json option"
  sl_partition :: "json option"

definition no_slots :: slots where
  "no_slots = \<lparr>sl_energy = None, sl_pinger = None, sl_spin = None, sl_bls = None, sl_partition = None\<rparr>"

datatype slot = SEnergy | SPinger | SSpin | SBls | SPartition

text \<open>The chain of tests on one object.\<close>

definition slot_of :: "json \<Rightarrow> slot option" where
  "slot_of obj =
     (if jhas obj ''pkg_j'' then Some SEnergy
      else if jhas obj ''wake_us_p50'' then Some SPinger
      else if jhas obj ''threads'' then Some SSpin
      else if jget obj ''event'' = JStr ''stats'' then Some SBls
      else if jget obj ''event'' = JStr ''partition'' then Some SPartition
      else None)"

definition put_slot :: "json \<Rightarrow> slots \<Rightarrow> slots" where
  "put_slot obj s =
     (case slot_of obj of
        Some SEnergy \<Rightarrow> s\<lparr>sl_energy := Some obj\<rparr>
      | Some SPinger \<Rightarrow> s\<lparr>sl_pinger := Some obj\<rparr>
      | Some SSpin \<Rightarrow> s\<lparr>sl_spin := Some obj\<rparr>
      | Some SBls \<Rightarrow> s\<lparr>sl_bls := Some obj\<rparr>
      | Some SPartition \<Rightarrow> s\<lparr>sl_partition := Some obj\<rparr>
      | None \<Rightarrow> s)"

definition classify_json :: "json list \<Rightarrow> slots" where
  "classify_json objs = fold put_slot objs no_slots"

fun slot_value :: "slot \<Rightarrow> slots \<Rightarrow> json option" where
  "slot_value SEnergy s = sl_energy s"
| "slot_value SPinger s = sl_pinger s"
| "slot_value SSpin s = sl_spin s"
| "slot_value SBls s = sl_bls s"
| "slot_value SPartition s = sl_partition s"

lemma put_slot_value:
  "slot_value k (put_slot obj s) = (if slot_of obj = Some k then Some obj else slot_value k s)"
  by (cases k) (auto simp: put_slot_def split: option.splits slot.splits)

lemma fold_put_slot:
  "slot_value k (fold put_slot objs s) =
     (case filter (\<lambda>obj. slot_of obj = Some k) objs of [] \<Rightarrow> slot_value k s | xs \<Rightarrow> Some (last xs))"
  by (induction objs arbitrary: s) (auto simp: put_slot_value split: list.splits)

subsection \<open>Properties\<close>

text \<open>Every slot holds the last object of the output that belongs to it, and nothing when there is
  none; an object with several distinguishing keys belongs to the first slot in the order energy,
  pinger, spin, scheduler statistics, partition.\<close>

theorem classify_json_last:
  "slot_value k (classify_json objs) =
     (let mine = filter (\<lambda>obj. slot_of obj = Some k) objs in if mine = [] then None else Some (last mine))"
  by (cases k) (auto simp: classify_json_def fold_put_slot no_slots_def Let_def split: list.splits)

end
