(* ===== verification/Fmt.thy ===== *)
theory Fmt
  imports Json PyFormat
begin

text \<open>
  The formatting section of \<open>scripts/analyze.py\<close>: \<open>fmt\<close>, \<open>pct\<close>, \<open>signed_pct\<close>, \<open>busy_fmt\<close> and \<open>md_table\<close>, with the
  built-ins they rest on, \<open>repr\<close> and \<open>str\<close> of a JSON value and \<open>sep.join\<close>. The digits of \<open>repr\<close> of a float are a
  parameter, since floats are real numbers here.
\<close>

subsection \<open>Joining and representing\<close>

fun join_str :: "string \<Rightarrow> string list \<Rightarrow> string" where
  "join_str sep [] = []"
| "join_str sep [s] = s"
| "join_str sep (s # t # ts) = s @ sep @ join_str sep (t # ts)"

definition bool_str :: "bool \<Rightarrow> string" where
  "bool_str b = (if b then ''true'' else ''false'')"

definition hex_digit :: "nat \<Rightarrow> char" where
  "hex_digit d = (if d < 10 then digit_char d else char_of (87 + d))"

definition printable :: "char \<Rightarrow> bool" where
  "printable c \<longleftrightarrow> (let n = code_of c in 32 \<le> n \<and> n \<le> 126 \<or> 161 \<le> n \<and> n \<noteq> 173)"

definition repr_char :: "char \<Rightarrow> char \<Rightarrow> string" where
  "repr_char q c =
     (if c = q \<or> c = CHR 0x5C then [CHR 0x5C, c]
      else if c = CHR 0x09 then [CHR 0x5C, CHR ''t'']
      else if c = CHR 0x0A then [CHR 0x5C, CHR ''n'']
      else if c = CHR 0x0D then [CHR 0x5C, CHR ''r'']
      else if printable c then [c]
      else [CHR 0x5C, CHR ''x'', hex_digit (code_of c div 16), hex_digit (code_of c mod 16)])"

definition repr_str :: "string \<Rightarrow> string" where
  "repr_str s =
     (let q = (if CHR 0x27 \<in> set s \<and> CHR 0x22 \<notin> set s then CHR 0x22 else CHR 0x27)
      in q # concat (map (repr_char q) s) @ [q])"

fun repr_float :: "(real \<Rightarrow> string) \<Rightarrow> pyfloat \<Rightarrow> string" where
  "repr_float fr (Fin v) = fr v"
| "repr_float fr NaN = ''nan''"
| "repr_float fr PInf = ''inf''"
| "repr_float fr NInf = ''-inf''"

fun py_repr :: "(real \<Rightarrow> string) \<Rightarrow> json \<Rightarrow> string" where
  "py_repr fr JNull = ''None''"
| "py_repr fr (JBool b) = (if b then ''True'' else ''False'')"
| "py_repr fr (JInt n) = int_str n"
| "py_repr fr (JFloat v) = repr_float fr v"
| "py_repr fr (JStr s) = repr_str s"
| "py_repr fr (JArr xs) = ''['' @ join_str '', '' (map (py_repr fr) xs) @ '']''"
| "py_repr fr (JObj kvs) = ''{'' @ join_str '', '' (map (\<lambda>(k, v). repr_str k @ '': '' @ py_repr fr v) kvs) @ ''}''"

definition py_str :: "(real \<Rightarrow> string) \<Rightarrow> json \<Rightarrow> string" where
  "py_str fr v = (case v of JStr s \<Rightarrow> s | _ \<Rightarrow> py_repr fr v)"

subsection \<open>Numbers\<close>

definition fmt_num :: "nat \<Rightarrow> real \<Rightarrow> string" where
  "fmt_num prec v =
     (if v \<noteq> 0 \<and> (\<bar>v\<bar> < 1 / 1000 \<or> \<bar>v\<bar> \<ge> 10 ^ 7) then sci prec v
      else if \<bar>v\<bar> \<ge> 1000 then fixed 1 v
      else if \<bar>v\<bar> \<ge> 10 then fixed 2 v
      else fixed prec v)"

definition fmt :: "nat \<Rightarrow> real option \<Rightarrow> string" where
  "fmt prec x = (case x of None \<Rightarrow> ''n/a'' | Some v \<Rightarrow> fmt_num prec v)"

text \<open>\<open>fmt\<close> of a value that need not be a number; integers within the range of floats.\<close>

fun fmt_json :: "(real \<Rightarrow> string) \<Rightarrow> nat \<Rightarrow> json \<Rightarrow> string" where
  "fmt_json fr prec JNull = ''n/a''"
| "fmt_json fr prec (JBool b) = bool_str b"
| "fmt_json fr prec (JStr s) = s"
| "fmt_json fr prec (JInt n) = fmt_num prec (of_int n)"
| "fmt_json fr prec (JFloat (Fin v)) = fmt_num prec v"
| "fmt_json fr prec (JFloat _) = ''n/a''"
| "fmt_json fr prec v = py_repr fr v"

definition pct :: "real option \<Rightarrow> string" where
  "pct x = (case x of None \<Rightarrow> ''n/a'' | Some v \<Rightarrow> fixed 1 (100 * v) @ ''%'')"

definition signed_pct :: "real option \<Rightarrow> string" where
  "signed_pct x = (case x of None \<Rightarrow> ''n/a'' | Some v \<Rightarrow> signed_fixed 1 v @ ''%'')"

definition busy_fmt :: "real option \<Rightarrow> string" where
  "busy_fmt x =
     (case x of None \<Rightarrow> ''n/a'' | Some v \<Rightarrow> fixed 1 (if v \<le> 3 / 2 then 100 * v else v) @ ''%'')"

text \<open>\<open>"%.1f%%" % v if v is not None else "n/a"\<close>\<close>

definition pct_points :: "real option \<Rightarrow> string" where
  "pct_points x = (case x of None \<Rightarrow> ''n/a'' | Some v \<Rightarrow> fixed 1 v @ ''%'')"

subsection \<open>Markdown tables\<close>

text \<open>Alignments are \<open>True\<close> for \<open>"l"\<close>. A row whose length is not that of the header raises \<open>IndexError\<close>.\<close>

definition md_esc :: "string \<Rightarrow> string" where
  "md_esc v = concat (map (\<lambda>c. if c = CHR ''|'' then [CHR 0x5C, c] else [c]) v)"

definition md_widths :: "nat \<Rightarrow> string list list \<Rightarrow> nat list" where
  "md_widths cols cells = map (\<lambda>i. max (list_max (map (\<lambda>row. length (row ! i)) cells)) 3) [0..<cols]"

definition md_cell :: "bool \<Rightarrow> nat \<Rightarrow> string \<Rightarrow> string" where
  "md_cell left w v = (if left then ljust w v else rjust w v)"

definition md_line :: "bool list \<Rightarrow> nat list \<Rightarrow> string list \<Rightarrow> string" where
  "md_line aligns widths vals =
     ''| '' @ join_str '' | '' (map (\<lambda>(v, left, w). md_cell left w v) (zip vals (zip aligns widths))) @ '' |''"

definition md_sep :: "bool list \<Rightarrow> nat list \<Rightarrow> string" where
  "md_sep aligns widths =
     ''| '' @ join_str '' | '' (map (\<lambda>(left, w). if left then CHR '':'' # replicate (w - 1) CHR ''-''
                                            else replicate (w - 1) CHR ''-'' @ '':'') (zip aligns widths)) @ '' |''"

definition default_aligns :: "nat \<Rightarrow> bool list" where
  "default_aligns cols = True # replicate (cols - 1) False"

definition md_table :: "string list \<Rightarrow> string list list \<Rightarrow> bool list \<Rightarrow> py_error + string list" where
  "md_table headers rows aligns =
     (if list_all (\<lambda>r. length r = length headers) rows then
        let cells = map md_esc headers # map (map md_esc) rows;
            widths = md_widths (length headers) cells
        in Inr ([md_line aligns widths (hd cells), md_sep aligns widths] @ map (md_line aligns widths) (tl cells))
      else Inl IndexError)"


subsection \<open>Reading a table row\<close>

text \<open>The cells of a Markdown table row: an escaped pipe is a character of its cell, any other pipe ends one.\<close>

fun split_cells :: "string \<Rightarrow> string list" where
  "split_cells [] = [[]]"
| "split_cells (c # cs) =
     (if c = CHR 0x5C \<and> cs \<noteq> [] \<and> hd cs = CHR ''|'' then
        (case split_cells (tl cs) of p # ps \<Rightarrow> (CHR ''|'' # p) # ps | [] \<Rightarrow> [[CHR ''|'']])
      else if c = CHR ''|'' then [] # split_cells cs
      else (case split_cells cs of p # ps \<Rightarrow> (c # p) # ps | [] \<Rightarrow> [[c]]))"

definition read_row :: "string \<Rightarrow> string list" where
  "read_row line = map strip (butlast (tl (split_cells line)))"

definition no_backslash :: "string \<Rightarrow> bool" where
  "no_backslash s \<longleftrightarrow> CHR 0x5C \<notin> set s"

lemma split_cells_nonempty [simp]: "split_cells s \<noteq> []"
  by (induction s rule: split_cells.induct) (auto split: list.splits)

lemma split_cells_esc:
  "no_backslash v \<Longrightarrow> split_cells (md_esc v @ r) = (v @ hd (split_cells r)) # tl (split_cells r)"
  by (induction v) (auto simp: md_esc_def no_backslash_def split: list.splits)

lemma strip_pad:
  assumes "list_all is_space a" "list_all is_space b"
  shows "strip (a @ v @ b) = strip v"
proof -
  have all: "dropWhile is_space s = []" if "list_all is_space s" for s using that by (induction s) auto
  have drop: "dropWhile is_space (s @ t) = dropWhile is_space t" if "list_all is_space s" for s t
    using that by (induction s) auto
  have l: "dropWhile is_space (a @ v @ b) = dropWhile is_space (v @ b)" using drop assms(1) by blast
  show ?thesis
  proof (cases "list_all is_space v")
    case True
    then show ?thesis using assms(2) by (simp only: strip_def l drop all)
  next
    case False
    then have "dropWhile is_space (v @ b) = dropWhile is_space v @ b"
      by (auto simp: list_all_iff dropWhile_append1)
    then have "strip (a @ v @ b) = rev (dropWhile is_space (rev b @ rev (dropWhile is_space v)))"
      by (simp add: strip_def l)
    also have "\<dots> = strip v" using assms(2) by (subst drop) (simp_all add: strip_def)
    finally show ?thesis .
  qed
qed

lemma md_cell_pad:
  assumes "no_backslash v"
  shows "\<exists>v'. md_cell left w (md_esc v) = md_esc v' \<and> no_backslash v' \<and> strip v' = strip v"
proof -
  let ?pad = "replicate (w - length (md_esc v)) CHR '' ''"
  have pad: "md_esc ?pad = ?pad" "no_backslash ?pad" "list_all is_space ?pad"
    by (auto simp: md_esc_def no_backslash_def is_space_def code_of_def Let_def list_all_iff concat_map_singleton)
  have app: "md_esc (s @ t) = md_esc s @ md_esc t" for s t by (simp add: md_esc_def)
  have "md_cell left w (md_esc v) = md_esc (if left then v @ ?pad else ?pad @ v)"
    using pad(1) by (simp add: md_cell_def ljust_def rjust_def app)
  moreover have "strip (if left then v @ ?pad else ?pad @ v) = strip v"
    using strip_pad [of "[]" ?pad v] strip_pad [of ?pad "[]" v] pad(3) by simp
  moreover have "no_backslash (if left then v @ ?pad else ?pad @ v)"
    using assms pad(2) by (simp add: no_backslash_def)
  ultimately show ?thesis by blast
qed

lemma split_cells_join:
  "vs \<noteq> [] \<Longrightarrow> list_all no_backslash vs \<Longrightarrow>
     split_cells (CHR '' '' # join_str '' | '' (map md_esc vs) @ '' |'') = map (\<lambda>v. CHR '' '' # v @ '' '') vs @ [[]]"
  by (induction vs rule: induct_list012) (simp_all add: split_cells_esc)

lemma read_md_line:
  assumes "vals \<noteq> []" "list_all no_backslash vals" "length vals \<le> length aligns" "length vals \<le> length widths"
  shows "read_row (md_line aligns widths (map md_esc vals)) = map strip vals"
proof -
  let ?cells = "map (\<lambda>(v, left, w). md_cell left w v) (zip (map md_esc vals) (zip aligns widths))"
  have "\<exists>vs. ?cells = map md_esc vs \<and> list_all no_backslash vs \<and> map strip vs = map strip vals"
    using assms(2-4)
  proof (induction vals arbitrary: aligns widths)
    case (Cons v vals)
    then obtain l ls w ws where e: "aligns = l # ls" "widths = w # ws" by (cases aligns; cases widths) auto
    from Cons.IH [of ls ws] Cons.prems obtain vs where vs: "map (\<lambda>(v, left, w). md_cell left w v) (zip (map md_esc vals) (zip ls ws)) = map md_esc vs"
      "list_all no_backslash vs" "map strip vs = map strip vals" by (auto simp: e)
    from md_cell_pad [of v l w] Cons.prems(1) obtain v' where
      "md_cell l w (md_esc v) = md_esc v'" "no_backslash v'" "strip v' = strip v" by auto
    with vs show ?case by (intro exI [of _ "v' # vs"]) (simp add: e)
  qed simp
  then obtain vs where vs: "?cells = map md_esc vs" "list_all no_backslash vs" "map strip vs = map strip vals" by blast
  then have "vs \<noteq> []" using assms(1) by auto
  then have "split_cells (md_line aligns widths (map md_esc vals)) = [] # map (\<lambda>v. CHR '' '' # v @ '' '') vs @ [[]]"
    using split_cells_join [OF \<open>vs \<noteq> []\<close> vs(2)] by (simp add: md_line_def vs(1))
  moreover have "is_space CHR '' ''" by (simp add: is_space_def code_of_def)
  then have "strip (CHR '' '' # v @ '' '') = strip v" for v using strip_pad [of "'' ''" "'' ''" v] by simp
  ultimately show ?thesis using vs(3) by (simp add: read_row_def comp_def)
qed

lemma md_table_read:
  assumes "md_table headers rows aligns = Inr lines" "headers \<noteq> []" "length headers \<le> length aligns"
    "list_all (list_all no_backslash) (headers # rows)"
  shows "map read_row (hd lines # drop 2 lines) = map (map strip) (headers # rows)"
proof -
  define widths where "widths = md_widths (length headers) (map md_esc headers # map (map md_esc) rows)"
  have len: "list_all (\<lambda>r. length r = length headers) rows" using assms(1) by (simp add: md_table_def split: if_splits)
  have lines: "lines = [md_line aligns widths (map md_esc headers), md_sep aligns widths]
      @ map (\<lambda>r. md_line aligns widths (map md_esc r)) rows"
    using assms(1) len by (simp add: md_table_def Let_def widths_def [symmetric] comp_def)
  have w: "length widths = length headers" by (simp add: widths_def md_widths_def)
  have "read_row (md_line aligns widths (map md_esc r)) = map strip r" if "r \<in> set (headers # rows)" for r
    using that assms(2-4) len w by (intro read_md_line) (auto simp: list_all_iff)
  then show ?thesis by (simp add: lines)
qed


subsection \<open>Properties\<close>

text \<open>C19: a Markdown table is read back as its header and its rows, cell by cell and but for padding, also when
  cells contain pipes, as long as none contains a backslash.\<close>

theorem md_table_reads_back:
  assumes "md_table headers rows aligns = Inr lines" and "headers \<noteq> []" and "length headers \<le> length aligns"
    and "list_all (list_all no_backslash) (headers # rows)"
  shows "map read_row (hd lines # drop 2 lines) = map (map strip) (headers # rows)"
  by (rule md_table_read [OF assms])

theorem md_table_reads_back_witness:
  "\<exists>lines. md_table [''gate'', ''numbers''] [[''drift'', ''|rho|'']] (default_aligns 2) = Inr lines
     \<and> map read_row (hd lines # drop 2 lines) = [[''gate'', ''numbers''], [''drift'', ''|rho|'']]"
proof -
  obtain lines where l: "md_table [''gate'', ''numbers''] [[''drift'', ''|rho|'']] (default_aligns 2) = Inr lines"
    by (simp add: md_table_def Let_def)
  from md_table_reads_back [OF this] l show ?thesis
    by (simp add: default_aligns_def no_backslash_def strip_def is_space_def code_of_def Let_def)
qed

end
