(* ===== verification/ModelText.thy ===== *)
theory ModelText
  imports ModelMain Fmt
begin

text \<open>
  What \<open>sim/rail_model.py\<close> prints, line by line: \<open>hr\<close> and \<open>fmt_row\<close>, the tables of the three experiments, the header,
  the constants and the verdict, and the report of the calibration. A \<open>print\<close> of a text that starts with a line
  feed is an empty line and the rest.
\<close>

subsection \<open>Lines and rows\<close>

definition hr :: "string \<Rightarrow> string list" where
  "hr title = [[], replicate 92 CHR ''='', title, replicate 92 CHR ''='']"

definition dashes :: "nat \<Rightarrow> string" where
  "dashes n = replicate n CHR ''-''"

text \<open>Alignments are \<open>True\<close> for \<open>"<"\<close>; columns beyond the shortest of the three lists are dropped.\<close>

definition fmt_row :: "string list \<Rightarrow> nat list \<Rightarrow> bool list \<Rightarrow> string" where
  "fmt_row cols widths aligns =
     join_str ''  '' (map (\<lambda>(c, w, left). if left then ljust w c else rjust w c) (zip cols (zip widths aligns)))"

definition right_row :: "string list \<Rightarrow> nat list \<Rightarrow> string" where
  "right_row cols widths = fmt_row cols widths (replicate (length cols) False)"

text \<open>A float times 100.\<close>

fun hundred :: "pyfloat \<Rightarrow> pyfloat" where
  "hundred (Fin x) = Fin (100 * x)"
| "hundred v = v"

definition truth :: "bool \<Rightarrow> string" where
  "truth b = (if b then ''True'' else ''False'')"

subsection \<open>Experiment A\<close>

definition a_widths :: "nat list" where
  "a_widths = [3, 6, 11, 11, 11, 10, 8, 11, 10]"

definition a_cells :: "a_row \<Rightarrow> string list" where
  "a_cells r =
     [nat_str (a_n_light r), nat_str (n_light_on_big_sibling r), fixed 3 (marginal_w_no_partition r),
      fixed 3 (marginal_w_shared r), fixed 3 (marginal_w_split r), fixed 3 (rail_tax_w r),
      fixed_float 2 (cost_ratio_shared_over_split r) @ ''x'', fixed_float 1 (hundred (saving_retained_frac r)) @ ''%'',
      fixed_float 1 (hundred (saving_destroyed_frac r)) @ ''%'']"

definition a_lines :: "real \<Rightarrow> hz \<Rightarrow> a_row list \<times> a_detail \<Rightarrow> string list" where
  "a_lines light_activity f_light_hz res =
     (let rows = fst res; d = snd res in
      hr ''EXPERIMENT A -- THE RAIL TAX'' @
      [''Setup: physical core 0 pinned at '' @ fixed 2 (turbo_limit_hz 1 / 10 ^ 9)
         @ '' GHz turbo, activity 1.00 (the `make -j`'',
       ''       big core). N light threads at '' @ fixed 2 (f_light_hz / 10 ^ 9) @ '' GHz, activity ''
         @ fixed 2 light_activity @ '' each.'',
       ''Rail voltage with the big core active: V = '' @ fixed 3 (v_of_f (turbo_limit_hz 1)) @ '' V  [VF_ANCHORS]'',
       ''Rail voltage a true LITTLE cluster would use: V = '' @ fixed 3 (v_of_f f_light_hz) @ '' V  [VF_ANCHORS]'',
       [],
       ''  Single light core, isolated cost:'',
       ''    shared rail (real i7-8550U): dyn '' @ fixed 3 (one_light_core_shared_dyn_w d) @ '' W + leak ''
         @ fixed 3 (one_light_core_shared_leak_w d) @ '' W = ''
         @ fixed 3 (one_light_core_shared_dyn_w d + one_light_core_shared_leak_w d) @ '' W'',
       ''    split rail  (true LITTLE)  : dyn '' @ fixed 3 (one_light_core_split_dyn_w d) @ '' W + leak ''
         @ fixed 3 (one_light_core_split_leak_w d) @ '' W = ''
         @ fixed 3 (one_light_core_split_dyn_w d + one_light_core_split_leak_w d) @ '' W'',
       ''    => the SAME task costs '' @ fixed 2 (one_light_core_cost_ratio d) @ ''x more on the shared rail.'',
       ''       V^2 penalty  = '' @ fixed 2 (v_squared_penalty d) @ ''x   (dynamic)   [C_EFF, VF_ANCHORS]'',
       ''       exp(V) penalty = '' @ fixed 2 (leak_penalty d) @ ''x (leakage)   [K_LEAK, VT_EFF_V]'',
       [],
       right_row [''N'', ''on-SMT'', ''marg W'', ''marg W'', ''marg W'', ''rail tax'', ''cost'', ''saving'', ''saving''] a_widths,
       right_row [[], ''sib'', ''no-part'', ''shared'', ''split'', ''W'', ''ratio'', ''retained'', ''destroyed''] a_widths,
       dashes 92]
      @ map (\<lambda>r. right_row (a_cells r) a_widths) rows @
      [[],
       ''Columns: 'no-part' = light tasks left at turbo frequency (no EPP scheme).'',
       ''         'shared'  = EPP-partitioned LITTLE cores, real single-rail part.'',
       ''         'split'   = same placement on a true per-cluster-rail big.LITTLE.'',
       ''         'retained'= fraction of big.LITTLE's saving that EPP actually gets.'',
       ''PREDICTION P1: the 'destroyed' column is large and roughly constant in N.''])"

subsection \<open>Experiment B\<close>

definition b_widths :: "nat list" where
  "b_widths = [5, 6, 8, 8, 7, 9, 8, 9, 11]"

definition b_cells :: "b_row \<Rightarrow> string list" where
  "b_cells r =
     [nat_str (b_n_big r), nat_str (b_n_little r), fixed 2 (f_work_ghz r), fixed 2 (f_bg_ghz r),
      fixed 3 (v_rail_phase1_v r), fixed 2 (t_compile_s r), fixed 1 (t_window_s r), fixed 2 (p_phase1_w r),
      fixed 1 (energy_j r)]"

text \<open>The marks behind a row; rows of one rail differ in \<open>n_big\<close>, so equality is the identity the code tests.\<close>

definition b_mark :: "b_row \<Rightarrow> b_row \<Rightarrow> string" where
  "b_mark best r = (if r = best then '' <-- min (feasible)'' else [])"

definition b_nofin :: "b_row \<Rightarrow> string" where
  "b_nofin r =
     (if finished_in_horizon r then [] else ''  INFEASIBLE: misses the '' @ fixed 0 HORIZON_S @ ''s deadline'')"

definition b_line :: "b_row \<Rightarrow> b_row \<Rightarrow> string" where
  "b_line best r = ''  '' @ right_row (b_cells r) b_widths @ b_mark best r @ b_nofin r"

definition b_table :: "string \<Rightarrow> b_row list \<Rightarrow> string list" where
  "b_table label rows =
     [''  '' @ label,
      ''  '' @ right_row [''nbig'', ''nlit'', ''f_work'', ''f_bg'', ''V_rail'', ''t_comp s'', ''win s'', ''P1 W'', ''Energy J''] b_widths,
      ''  '' @ dashes 78]
     @ map (b_line (best_of rows)) rows @ [[]]"

definition tax_widths :: "nat list" where
  "tax_widths = [6, 13, 13, 12, 10, 10]"

definition tax_cells :: "tax_row \<Rightarrow> string list" where
  "tax_cells r =
     [nat_str (tx_n_big r), fixed 1 (energy_j_shared r), fixed 1 (energy_j_split r), fixed 1 (rail_tax_j r),
      fixed 1 (rail_tax_pct r) @ ''%'', if feasible r then ''yes'' else ''no'']"

definition b_intro :: "bool \<Rightarrow> string list" where
  "b_intro apply_pl1 =
     hr ''EXPERIMENT B -- PARTITION SWEEP AT FIXED WORK'' @
     [''Work: '' @ fixed 0 W_COMPILE_GCYCLES @ '' Gcycles of compile + '' @ nat_str N_LIGHT_TASKS @ '' background tasks x ''
        @ fixed 1 W_LIGHT_GCYCLES_PER_TASK @ '' Gcycles,'',
      ''      background deadline '' @ fixed 0 HORIZON_S @ '' s. PL1 cap '' @ (if apply_pl1 then ''APPLIED'' else ''IGNORED'')
        @ '' ('' @ fixed 1 PL1_W @ '' W).'',
      ''Energy-to-solution = P1*t_compile + P2*(window - t_compile), where the'',
      ''window is max(t_compile, deadline) so ALL the work is always charged for.'',
      []]"

definition b_reading :: "b_summary \<Rightarrow> string list" where
  "b_reading s =
     [''  shared rail: optimum at n_big='' @ nat_str (best_n_big_shared s) @ '', '' @ fixed 1 (best_energy_j_shared s)
        @ '' J  (interior optimum: '' @ truth (interior_optimum_shared s) @ '')'',
      ''  split  rail: optimum at n_big='' @ nat_str (best_n_big_split s) @ '', '' @ fixed 1 (best_energy_j_split s)
        @ '' J  (interior optimum: '' @ truth (interior_optimum_split s) @ '')'',
      ''  energy penalty of the shared rail at its own optimum: '' @ signed_fixed 1 (energy_gap_j s) @ '' J (''
        @ signed_fixed 1 (energy_gap_pct s) @ ''%)'',
      ''  value of partitioning at all (vs all-big): shared '' @ fixed 1 (partition_benefit_j_shared s) @ '' J, split ''
        @ fixed 1 (partition_benefit_j_split s) @ '' J'',
      ''  => the shared rail retains '' @ fixed_float 0 (hundred (partition_benefit_retained_frac s))
        @ ''% of the partition's value; the missing'',
      ''     '' @ fixed_float 0 (hundred (one_minus (partition_benefit_retained_frac s)))
        @ ''% is exactly what a per-cluster rail would have bought.'',
      ''  feasible-curve spread (max/min-1): shared '' @ fixed 1 (100 * curve_spread_frac_shared s) @ ''%, split ''
        @ fixed 1 (100 * curve_spread_frac_split s) @ ''%'',
      []]"

definition b_prediction :: "b_row list \<Rightarrow> string list" where
  "b_prediction shared_rows =
     [''PREDICTION P2 (as the model actually computes it -- note this is WEAKER than'',
      ''  the naive 'shared rail collapses to an endpoint' claim, and the difference'',
      ''  matters):'',
      ''  * BOTH rails show an interior optimum here, but for different reasons.'',
      ''    On the SPLIT rail the interior optimum is a genuine voltage effect: the'',
      ''    LITTLE cores sit at '' @ fixed 3 (v_of_f F_LITTLE_HZ) @ '' V. On the SHARED rail the interior optimum is'',
      ''    produced ONLY by (a) the linear-in-f dynamic term and (b) the PL1 cap'',
      ''    redistributing frequency -- V_rail stays pinned by the big core (see the'',
      ''    V_rail column: it never falls below ''
        @ fixed 3 (list_min (map v_rail_phase1_v (filter (\<lambda>r. b_n_big r > 0) shared_rows))) @ '' V for any n_big>0).'',
      ''  * The falsifiable content is the RAIL TAX table above and the retained'',
      ''    fraction: if the measured energy-vs-partition curve on the i7-8550U is'',
      ''    deeper than the shared-rail column predicts, this model is wrong.'',
      ''  * Note also how strongly PL1 flattens the curve: on a '' @ fixed 0 PL1_W @ '' W part the'',
      ''    package power cap is already doing globally what big.LITTLE would do'',
      ''    per-cluster, which is a large part of why the partition adds so little.'']"

definition b_lines :: "bool \<Rightarrow> b_row list \<times> b_summary \<Rightarrow> string list" where
  "b_lines apply_pl1 res =
     (let shared_rows = filter b_shared_rail (fst res);
          split_rows = filter (\<lambda>r. \<not> b_shared_rail r) (fst res) in
      b_intro apply_pl1
      @ b_table ''SHARED RAIL (real i7-8550U)'' shared_rows
      @ b_table ''SPLIT RAIL  (true big.LITTLE counterfactual)'' split_rows
      @ [''  PURE RAIL TAX at identical placement (same n_big, same frequencies):'',
         ''  '' @ right_row [''nbig'', ''E shared J'', ''E split J'', ''rail tax J'', ''rail tax'', ''feasible''] tax_widths,
         ''  '' @ dashes 70]
      @ map (\<lambda>r. ''  '' @ right_row (tax_cells r) tax_widths) (rail_tax_by_n_big (snd res)) @ [[]]
      @ b_reading (snd res) @ b_prediction shared_rows)"

subsection \<open>Experiment C\<close>

definition c_widths :: "nat list" where
  "c_widths = [7, 6, 7, 8, 8, 8, 8, 10, 12, 11]"

definition c_cells :: "c_row \<Rightarrow> string list" where
  "c_cells r =
     [fixed 3 (f_ghz r), fixed 3 (v_v r), fixed 2 (t_s r), fixed 2 (p_dyn_w r), fixed 2 (p_leak_w r),
      fixed 2 (p_uncore_w r), fixed 2 (p_w r), fixed 1 (e_j r), fixed 1 (e_j_no_fixed_floor r), fixed 1 (e_j_core_only r)]"

text \<open>The loop that thins the table out: every \<open>step\<close>-th row, the best and the last one, no frequency twice. Rows
  of a curve differ in frequency, so equality is the identity the code tests.\<close>

fun c_shown :: "nat \<Rightarrow> c_row \<Rightarrow> c_row \<Rightarrow> nat \<Rightarrow> real list \<Rightarrow> c_row list \<Rightarrow> c_row list" where
  "c_shown step best final i shown [] = []"
| "c_shown step best final i shown (r # rs) =
     (if i mod step \<noteq> 0 \<and> r \<noteq> best \<and> r \<noteq> final \<or> f_ghz r \<in> set shown
      then c_shown step best final (Suc i) shown rs
      else r # c_shown step best final (Suc i) (f_ghz r # shown) rs)"

definition c_table_rows :: "c_row list \<Rightarrow> c_row list" where
  "c_table_rows curve =
     c_shown (max 1 (length curve div 24)) (the (min_by e_j curve)) (last curve) 0 [] curve"

definition c_mark :: "c_row \<Rightarrow> c_row \<Rightarrow> string" where
  "c_mark best r = (if r = best then ''  <-- crossover'' else [])"

definition c_line :: "c_row \<Rightarrow> c_row \<Rightarrow> string" where
  "c_line best r = right_row (c_cells r) c_widths @ c_mark best r"

definition c_lines :: "params \<Rightarrow> nat \<Rightarrow> real \<Rightarrow> c_row list \<times> c_summary \<Rightarrow> string list" where
  "c_lines ps n_cores work_gcycles res =
     (let curve = fst res; s = snd res; best = the (min_by e_j curve) in
      hr ''EXPERIMENT C -- THE UNCORE FLOOR AND THE RACE-TO-IDLE CROSSOVER'' @
      [''Fixed work '' @ fixed 0 work_gcycles @ '' Gcycles on '' @ nat_str n_cores @ '' cores, swept over frequency.'',
       ''Fixed floor = System Agent/IMC/always-on = '' @ fixed 2 (p_sa_floor ps) @ '' W [P_SA_FLOOR_W], not under'',
       ''EPP control. Ring and traffic terms scale with f and stay in all columns.'',
       [],
       right_row [''f GHz'', ''V'', ''t s'', ''P dyn'', ''P leak'', ''P unc'', ''P tot'', ''E J'', ''E J no-floor'', ''E J core''] c_widths,
       dashes 92]
      @ map (c_line best) (c_table_rows curve) @
      [[],
       ''  energy-optimal frequency WITH fixed uncore floor : '' @ fixed 3 (crossover_f_ghz s) @ '' GHz (V=''
         @ fixed 3 (crossover_v_v s) @ '', '' @ fixed 1 (crossover_energy_j s) @ '' J)'',
       ''  energy-optimal frequency WITHOUT fixed floor      : '' @ fixed 3 (f_opt_ghz_without_fixed_floor s) @ '' GHz'',
       ''  energy-optimal frequency, cores only (no uncore)  : '' @ fixed 3 (f_opt_ghz_core_only s) @ '' GHz'',
       ''  running the same work at f_min ('' @ fixed 2 (F_MIN_HZ / 10 ^ 9) @ '' GHz) instead costs ''
         @ signed_fixed 1 (energy_penalty_of_running_at_f_min_pct s) @ ''% energy'',
       ''  uncore share of package power: '' @ fixed 1 (uncore_share_at_f_min_pct s) @ ''% at f_min, ''
         @ fixed 1 (uncore_share_at_crossover_pct s) @ ''% at the crossover'',
       [],
       ''PREDICTION P3: the crossover is well above f_min, so a 'LITTLE' core parked'',
       ''  at 400-800 MHz is energy-INEFFICIENT for throughput work even ignoring the'',
       ''  shared rail. It only helps for latency-insensitive work that would'',
       ''  otherwise keep the package out of a deep C-state anyway.''])"

subsection \<open>Header and constants\<close>

definition PART_NAME :: string where
  "PART_NAME = ''Intel Core i7-8550U (Kaby Lake-R)''"

definition PL2_W :: watts where
  "PL2_W = 25"

definition header_points :: "hz list" where
  "header_points = map (\<lambda>m. m * 10 ^ 6) [400, 800, 1200, 1800, 2400, 3000, 3700, 4000]"

definition seven :: "nat \<Rightarrow> real list \<Rightarrow> string" where
  "seven n vs = join_str '' '' (map (\<lambda>v. rjust 7 (fixed n v)) vs)"

definition header_lines :: "params \<Rightarrow> string list" where
  "header_lines ps =
     hr (''rail_model.py -- can ARM big.LITTLE be faked on '' @ PART_NAME @ ''?'') @
     [''Hypothesis H1: per-core HWP/EPP partitioning + sched_ext placement reproduces'',
      ''               big.LITTLE energy behaviour on a homogeneous 4C/8T Intel part.'',
      ''Model's answer: NO -- and the three experiments below quantify why, before'',
      ''               any hardware measurement is taken.'',
      [],
      ''Key structural facts encoded in this model:'',
      ''  * per-core CLOCK domains exist          -> EPP does change per-core frequency'',
      ''  * ONE shared VccCore rail (no FIVR)     -> V_rail = V(max active core freq)'',
      ''  * ring/LLC on VccCore, clock tracks max -> the fabric is dragged up too'',
      ''  * System Agent floor '' @ fixed 2 (p_sa_floor ps) @ '' W, EPP-immune -> a hard lower bound per unit time'',
      ''  * SMT siblings share a clock domain     -> 8 logical CPUs, 4 tunable domains'',
      [],
      ''Voltage-frequency curve in use [VF_ANCHORS]:'',
      ''   f [GHz] '' @ seven 2 (map (\<lambda>f. f / 10 ^ 9) header_points),
      ''   V [V]   '' @ seven 3 (map v_of_f header_points),
      ''   V^2     '' @ seven 3 (map (\<lambda>f. (v_of_f f)\<^sup>2) header_points),
      ''   leak g  '' @ seven 3 (map (\<lambda>f. leak_shape (v_of_f f)) header_points)]"

definition CONSTANT_SOURCES :: "(string \<times> string) list" where
  "CONSTANT_SOURCES =
     [(''N_PHYS_CORES'', ''ARK''), (''F_MIN_HZ'', ''ARK''), (''F_BASE_HZ'', ''ARK''), (''F_TURBO_MAX_HZ'', ''ARK''),
      (''TURBO_BINS_HZ'', ''PUB''), (''PL1_W'', ''ARK''), (''PL2_W'', ''PUB''), (''VF_ANCHORS'', ''PUB''),
      (''C_EFF_W_PER_V2_GHZ'', ''ASSUME''), (''K_LEAK'', ''ASSUME''), (''VT_EFF_V'', ''ASSUME''), (''P_SA_FLOOR_W'', ''ASSUME''),
      (''C_RING_W_PER_V2_GHZ'', ''ASSUME''), (''K_UNCORE_TRAFFIC_W_PER_GHZ'', ''ASSUME''), (''F_LITTLE_HZ'', ''ASSUME''),
      (''C6_LEAK_RESIDUAL'', ''ASSUME''), (''SMT_SIBLING_STRIDE'', ''ASSUME'')]"

definition constant_items :: "params \<Rightarrow> (string \<times> real) list" where
  "constant_items ps =
     [(''N_PHYS_CORES'', real N_PHYS_CORES), (''F_MIN_HZ [GHz]'', F_MIN_HZ / 10 ^ 9),
      (''F_BASE_HZ [GHz]'', F_BASE_HZ / 10 ^ 9), (''F_TURBO_MAX_HZ [GHz]'', F_TURBO_MAX_HZ / 10 ^ 9),
      (''F_LITTLE_HZ [GHz]'', F_LITTLE_HZ / 10 ^ 9), (''PL1_W'', PL1_W), (''PL2_W'', PL2_W),
      (''C_eff [W/(V^2*GHz)]'', C_eff ps), (''k_leak [W]'', k_leak ps), (''VT_EFF_V'', VT_EFF_V),
      (''p_sa_floor [W]'', p_sa_floor ps), (''C_RING_W_PER_V2_GHZ'', C_RING_W_PER_V2_GHZ),
      (''K_UNCORE_TRAFFIC_W_PER_GHZ'', K_UNCORE_TRAFFIC_W_PER_GHZ), (''C6_LEAK_RESIDUAL'', C6_LEAK_RESIDUAL),
      (''SMT_SIBLING_STRIDE'', real SMT_SIBLING_STRIDE)]"

definition constant_keymap :: "(string \<times> string) list" where
  "constant_keymap =
     [(''C_eff [W/(V^2*GHz)]'', ''C_EFF_W_PER_V2_GHZ''), (''k_leak [W]'', ''K_LEAK''), (''p_sa_floor [W]'', ''P_SA_FLOOR_W'')]"

text \<open>\<open>name.split(" [")[0]\<close>\<close>

fun before_unit :: "string \<Rightarrow> string" where
  "before_unit [] = []"
| "before_unit (c # cs) = (if c = CHR '' '' \<and> cs \<noteq> [] \<and> hd cs = CHR ''['' then [] else c # before_unit cs)"

definition constant_class :: "string \<Rightarrow> string" where
  "constant_class name =
     (let base = (case map_of constant_keymap name of Some k \<Rightarrow> k | None \<Rightarrow> before_unit name) in
      case map_of CONSTANT_SOURCES base of Some c \<Rightarrow> c | None \<Rightarrow> ''ASSUME'')"

definition constants_lines :: "params \<Rightarrow> string list" where
  "constants_lines ps =
     hr ''CONSTANTS IN EFFECT''
     @ [fmt_row [''constant'', ''value'', ''class''] [30, 14, 8] [True, False, False], dashes 56]
     @ map (\<lambda>(name, v). fmt_row [name, general 5 v, constant_class name] [30, 14, 8] [True, False, False]) (constant_items ps)
     @ [[], ''[ARK] published spec  [PUB] published/derivable for the class  [ASSUME] calibrate me'']"

subsection \<open>The verdict\<close>

definition retained_percent :: "(pyfloat \<Rightarrow> pyfloat list \<Rightarrow> pyfloat) \<Rightarrow> a_row list \<Rightarrow> string" where
  "retained_percent pick rows =
     (let rs = map saving_retained_frac rows in fixed_float 0 (hundred (pick (hd rs) (tl rs))))"

definition verdict_lines ::
  "a_row list \<times> a_detail \<Rightarrow> b_row list \<times> b_summary \<Rightarrow> c_row list \<times> c_summary \<Rightarrow> string list" where
  "verdict_lines a b c =
     (let d = snd a; bs = snd b; cs = snd c in
      hr ''VERDICT'' @
      [''H1 is REJECTED by the model. Quantitatively:'',
       [],
       ''  1. RAIL TAX. With one core at '' @ fixed 2 (f_big_ghz d) @ '' GHz the rail sits at '' @ fixed 3 (v_rail_big_v d)
         @ '' V. A 'LITTLE'' @ [CHR 0x27],
       ''     thread at '' @ fixed 2 (f_light_ghz d) @ '' GHz that would cost '' @ fixed 3 (one_light_core_split_total_w d)
         @ '' W on its own '' @ fixed 3 (v_light_if_split_v d) @ '' V rail costs'',
       ''     '' @ fixed 3 (one_light_core_shared_total_w d) @ '' W here -- '' @ fixed 2 (one_light_core_cost_ratio d)
         @ ''x more. Across N=1..'' @ nat_str (length (fst a)) @ '' light threads, EPP retains only'',
       ''     '' @ retained_percent py_min (fst a) @ ''-'' @ retained_percent py_max (fst a)
         @ ''% of the energy saving a true LITTLE cluster would deliver.'',
       [],
       ''  2. PARTITIONING IS WORTH LESS. Shared-rail energy minimises at n_big='' @ nat_str (best_n_big_shared bs) @ '','',
       ''     split-rail at n_big='' @ nat_str (best_n_big_split bs) @ ''; at its own optimum the shared rail burns ''
         @ signed_fixed 1 (energy_gap_pct bs) @ ''%'',
       ''     more energy for identical work. Partitioning is worth '' @ fixed 1 (partition_benefit_j_shared bs)
         @ '' J on the shared'',
       ''     rail vs '' @ fixed 1 (partition_benefit_j_split bs) @ '' J on a split rail: ''
         @ fixed_float 0 (hundred (partition_benefit_retained_frac bs)) @ ''% of its value retained. And the whole'',
       ''     feasible curve spans only '' @ fixed 1 (100 * curve_spread_frac_shared bs)
         @ ''%, so the placement decision the sched_ext'',
       ''     scheduler agonises over is worth at most that much.'',
       ''     CAVEAT, stated plainly: this workload is compile-dominated, so the rail'',
       ''     tax is diluted and PL1 ('' @ (if pl1_applied bs then ''applied'' else ''ignored'')
         @ '' here) flattens the curve further. The'',
       ''     background-dominated regime -- the one big.LITTLE actually targets -- is'',
       ''     Experiment A, where the tax is '' @ fixed 1 (one_light_core_cost_ratio d)
         @ ''x per LITTLE thread. Re-run with'',
       ''     --no-pl1 to see the sweep with the cap removed.'',
       [],
       ''  3. UNCORE FLOOR. Energy-optimal frequency is '' @ fixed 2 (crossover_f_ghz cs) @ '' GHz, not f_min. Parking a'',
       ''     core at '' @ fixed 2 (F_MIN_HZ / 10 ^ 9) @ '' GHz costs ''
         @ signed_fixed 1 (energy_penalty_of_running_at_f_min_pct cs) @ ''% energy for the same work. Uncore is ''
         @ fixed 0 (uncore_share_at_f_min_pct cs) @ ''%'',
       ''     of package power down there -- EPP cannot touch it.'',
       [],
       ''  4. TOPOLOGY. Only '' @ nat_str N_PHYS_CORES @ '' frequency domains exist for '' @ nat_str N_LOGICAL_CPUS
         @ '' logical CPUs; an EPP=255'',
       ''     'LITTLE' cpu is silently overridden whenever its SMT sibling goes busy.'',
       [],
       ''What the scheme CAN still buy (and what the hardware run should look for):'',
       ''  * the linear-in-f dynamic term is real and does save power;'',
       ''  * keeping the max-frequency core count low keeps V_rail low, so the useful'',
       ''    knob is the MAXIMUM across cores, not the partition -- i.e. a global'',
       ''    frequency cap, not a big/LITTLE split;'',
       ''  * consolidating work to fewer cores to let others reach C6 saves the C6'',
       ''    leakage delta ('' @ fixed 0 (100 * (1 - C6_LEAK_RESIDUAL)) @ ''% of active leakage per core) and can let the package'',
       ''    reach a deep PC-state, which is worth more than any EPP setting.''])"

subsection \<open>The calibration\<close>

definition fit_widths :: "nat list" where
  "fit_widths = [14, 14, 14, 10]"

definition fit_row :: "string \<Rightarrow> string \<Rightarrow> real \<Rightarrow> real \<Rightarrow> string" where
  "fit_row k unit pr ft =
     fmt_row [k @ '' ['' @ unit @ '']'', general 5 pr, general 5 ft, if pr = 0 then ''n/a'' else fixed 2 (ft / pr) @ ''x'']
       fit_widths [True, False, False, False]"

definition clamp_note :: "string list \<Rightarrow> string list" where
  "clamp_note clamped =
     (if clamped = [] then []
      else [[], ''  NOTE: '' @ join_str '', '' clamped @ '' came out non-physical (<=0) and was reverted to the prior.'',
        ''        That usually means the samples do not span enough of the'',
        ''        frequency/activity space to identify it.''])"

definition residual_warning :: "real \<Rightarrow> string list" where
  "residual_warning rms =
     (if rms > 3 / 2 then
        [''WARNING: residual RMS > 1.5 W. Either the VF_ANCHORS curve is wrong for'',
         ''         this part, or package power contains a term this model omits'',
         ''         (iGPU? PSys vs PKG domain mismatch?). Treat the refitted'',
         ''         experiments below as indicative only.'']
      else [])"

text \<open>The report of a fit; the first argument is the absolute path of the file.\<close>

definition calibration_lines :: "string \<Rightarrow> fit_info \<Rightarrow> string list" where
  "calibration_lines csv info =
     hr ''CALIBRATION -- least squares fit to measured RAPL package power'' @
     [''source CSV        : '' @ csv,
      ''rows used/skipped : '' @ nat_str (n_samples_used info) @ '' / '' @ nat_str (n_rows_skipped info),
      [],
      fmt_row [''parameter'', ''prior'', ''fitted'', ''ratio''] fit_widths [True, False, False, False],
      dashes 60,
      fit_row ''C_eff'' ''W/(V^2*GHz)'' (C_eff (prior info)) (C_eff (fit info)),
      fit_row ''k_leak'' ''W'' (k_leak (prior info)) (k_leak (fit info)),
      fit_row ''p_sa_floor'' ''W'' (p_sa_floor (prior info)) (p_sa_floor (fit info))]
     @ clamp_note (clamped_to_prior info) @
     [[],
      ''residual RMS      : '' @ fixed 3 (residual_rms_w info) @ '' W   (max |resid| '' @ fixed 3 (residual_max_abs_w info)
        @ '' W)'',
      ''R^2               : '' @ fixed_float 4 (r_squared info)]
     @ residual_warning (residual_rms_w info)
     @ [[], ''Re-running all experiments with the fitted constants...'']"

subsection \<open>A run without \<open>--json\<close>\<close>

definition run_lines :: "model_args \<Rightarrow> model_output \<Rightarrow> string list" where
  "run_lines args out =
     header_lines (mo_params out) @ constants_lines (mo_params out)
     @ a_lines (ma_light_activity args) (ma_f_little_mhz args * 10 ^ 6) (mo_a out)
     @ b_lines (\<not> ma_no_pl1 args) (mo_b out)
     @ c_lines (mo_params out) (nat (ma_exp_c_cores args)) W_COMPILE_GCYCLES (mo_c out)
     @ verdict_lines (mo_a out) (mo_b out) (mo_c out)"

definition model_lines :: "(string \<Rightarrow> string) \<Rightarrow> model_args \<Rightarrow> model_output \<Rightarrow> string list" where
  "model_lines abspath args out =
     (case mo_calibration out of
        None \<Rightarrow> []
      | Some info \<Rightarrow> calibration_lines (abspath (case ma_calibrate args of None \<Rightarrow> [] | Some p \<Rightarrow> p)) info)
     @ run_lines args out"

subsection \<open>Characters of the cells\<close>

lemma fixed_chars: "c \<in> set (fixed n x) \<Longrightarrow> number_char c \<or> c = CHR ''-''"
  using point_digits_chars [of n "scaled n x"] by (auto simp: fixed_def list_all_iff split: if_splits)

lemma join_chars: "c \<in> set (join_str sep xs) \<Longrightarrow> c \<in> set sep \<or> (\<exists>x \<in> set xs. c \<in> set x)"
  by (induction sep xs rule: join_str.induct) auto

lemma fmt_row_chars: "c \<in> set (fmt_row cols widths aligns) \<Longrightarrow> c = CHR '' '' \<or> (\<exists>x \<in> set cols. c \<in> set x)"
  by (auto simp: fmt_row_def ljust_def rjust_def dest!: join_chars in_set_zipE split: if_splits)

lemma b_cells_chars:
  assumes "c \<in> set (right_row (b_cells r) b_widths)"
  shows "c \<noteq> CHR ''<'' \<and> c \<noteq> CHR ''I''"
proof -
  have plain: "c \<noteq> CHR ''<'' \<and> c \<noteq> CHR ''I''" if "number_char c \<or> c = CHR ''-'' \<or> is_digit c \<or> c = CHR '' ''"
    using that by (auto simp: number_char_def is_digit_def code_of_def)
  from fmt_row_chars [OF assms [unfolded right_row_def]]
  show ?thesis using plain by (auto simp: b_cells_def dest!: fixed_chars nat_str_chars)
qed

lemma b_line_marks:
  "CHR ''<'' \<in> set (b_line best r) \<longleftrightarrow> r = best" "CHR ''I'' \<in> set (b_line best r) \<longleftrightarrow> \<not> finished_in_horizon r"
proof -
  have h: "CHR ''<'' \<notin> set (fixed 0 HORIZON_S)" using fixed_chars [of "CHR ''<''" 0 HORIZON_S]
    by (auto simp: number_char_def is_digit_def code_of_def)
  show "CHR ''<'' \<in> set (b_line best r) \<longleftrightarrow> r = best"
    "CHR ''I'' \<in> set (b_line best r) \<longleftrightarrow> \<not> finished_in_horizon r"
    using b_cells_chars [of _ r] h by (auto simp: b_line_def b_mark_def b_nofin_def)
qed

lemma filter_one: "distinct xs \<Longrightarrow> x \<in> set xs \<Longrightarrow> filter (\<lambda>y. y = x) xs = [x]"
  by (induction xs) (auto simp: filter_empty_conv)

lemma right_row_first: "\<exists>rest. right_row (c # cols) (w # widths) = rjust w c @ rest"
  by (cases cols; cases widths) (simp_all add: right_row_def fmt_row_def)

lemma b_table_marked:
  assumes "distinct (map b_n_big rows)" "rows \<noteq> []" "CHR ''<'' \<notin> set label"
  shows "filter (\<lambda>l. CHR ''<'' \<in> set l) (b_table label rows) = [b_line (best_of rows) (best_of rows)]"
proof -
  let ?best = "best_of rows"
  have best: "?best \<in> set rows" using best_of_cases(1) [OF assms(2)] .
  have "CHR ''<'' \<notin> set (right_row [''nbig'', ''nlit'', ''f_work'', ''f_bg'', ''V_rail'', ''t_comp s'', ''win s'', ''P1 W'', ''Energy J''] b_widths)"
    unfolding right_row_def by (rule notI, drule fmt_row_chars) simp
  then have "filter (\<lambda>l. CHR ''<'' \<in> set l) (b_table label rows)
      = filter (\<lambda>l. CHR ''<'' \<in> set l) (map (b_line ?best) rows)"
    using assms(3) by (simp add: b_table_def dashes_def)
  also have "\<dots> = map (b_line ?best) (filter (\<lambda>r. r = ?best) rows)"
    by (simp add: filter_map comp_def b_line_marks)
  also have "filter (\<lambda>r. r = ?best) rows = [?best]"
    using assms(1) best by (intro filter_one) (auto simp: distinct_map)
  finally show ?thesis by simp
qed

subsection \<open>The table of experiment C\<close>

lemma c_points_sorted: "sorted_wrt (<) (c_curve (\<lambda>f. f) c f)"
proof (induction "\<lambda>f::hz. f" c f rule: c_curve.induct)
  case (1 c f)
  show ?case
  proof (cases "f \<le> c + 1")
    case True
    have "f < g" if "g \<in> set (c_curve (\<lambda>f. f) c (f + FREQ_SWEEP_STEP_HZ))" for g
    proof -
      from that obtain i where "g = f + FREQ_SWEEP_STEP_HZ + real i * FREQ_SWEEP_STEP_HZ" unfolding c_curve_set by blast
      then show ?thesis by (simp add: FREQ_SWEEP_STEP_HZ_def)
    qed
    then show ?thesis using "1.hyps" [OF True] by (simp add: c_curve_cons [OF True])
  qed (simp add: c_curve_end)
qed

lemma curve_sorted: "sorted_wrt (<) (map f_ghz (c_curve (c_row_of ps n w t) c F_MIN_HZ))"
  using c_points_sorted [of c F_MIN_HZ]
  by (subst c_curve_map) (simp add: sorted_wrt_map c_row_sel(1) divide_strict_right_mono)

definition kept :: "nat \<Rightarrow> c_row \<Rightarrow> c_row \<Rightarrow> nat \<times> c_row \<Rightarrow> bool" where
  "kept step best final = (\<lambda>(i, r). i mod step = 0 \<or> r = best \<or> r = final)"

lemma c_shown_filter:
  "distinct (map f_ghz rs) \<Longrightarrow> set (map f_ghz rs) \<inter> set shown = {} \<Longrightarrow>
     c_shown step best final i shown rs = map snd (filter (kept step best final) (enumerate i rs))"
  by (induction rs arbitrary: i shown) (auto simp: kept_def)

lemma snd_filter_enumerate:
  assumes "\<And>i r. P (i, r) \<Longrightarrow> Q r \<or> R i"
  shows "length (filter P (enumerate i rs)) \<le> length (filter R [i..<i + length rs]) + length (filter Q rs)"
proof (induction rs arbitrary: i)
  case (Cons r rs)
  have "[i..<i + length (r # rs)] = i # [Suc i..<Suc i + length rs]" by (simp add: upt_rec)
  then show ?case using Cons.IH [of "Suc i"] assms [of i r] by auto
qed simp

lemma count_multiples: "length (filter (\<lambda>j. j mod step = 0) [0..<n]) \<le> n div step + 1" if "0 < step" for step n :: nat
proof -
  have "length (filter (\<lambda>j. j mod step = 0) [0..<n]) = card {j. j < n \<and> j mod step = 0}"
    by (subst distinct_card [symmetric]) (auto intro: arg_cong [where f = card])
  also have "\<dots> \<le> card ((*) step ` {0..n div step})"
  proof (rule card_mono)
    show "{j. j < n \<and> j mod step = 0} \<subseteq> (*) step ` {0..n div step}"
    proof
      fix j assume "j \<in> {j. j < n \<and> j mod step = 0}"
      then have "j = step * (j div step)" "j div step \<in> {0..n div step}" by (auto simp: div_le_mono)
      then show "j \<in> (*) step ` {0..n div step}" by (rule image_eqI)
    qed
  qed simp
  also have "\<dots> \<le> n div step + 1" using card_image_le [of "{0..n div step}" "(*) step"] by simp
  finally show ?thesis .
qed

lemma c_table_facts:
  assumes "sorted_wrt (<) (map f_ghz curve)" "curve \<noteq> []"
  defines "best \<equiv> the (min_by e_j curve)"
  shows "sorted_wrt (<) (map f_ghz (c_table_rows curve))" "set (c_table_rows curve) \<subseteq> set curve"
    "filter (\<lambda>r. r = best) (c_table_rows curve) = [best]" "last curve \<in> set (c_table_rows curve)"
    "length (c_table_rows curve) \<le> 50"
proof -
  have dist: "distinct (map f_ghz curve)" using assms(1) by (simp add: strict_sorted_iff)
  then have dc: "distinct curve" by (simp add: distinct_map)
  define step where "step = max 1 (length curve div 24)"
  have "0 < step" by (simp add: step_def)
  define P where "P = kept step best (last curve)"
  have rows: "c_table_rows curve = map snd (filter P (enumerate 0 curve))"
    using c_shown_filter [of curve "[]"] dist by (simp add: c_table_rows_def best_def [symmetric] step_def P_def)
  have "sorted_wrt (<) (map f_ghz (map snd (enumerate 0 curve)))" using assms(1) by (simp add: map_snd_enumerate)
  then show sorted: "sorted_wrt (<) (map f_ghz (c_table_rows curve))"
    unfolding rows sorted_wrt_map by (rule sorted_wrt_filter)
  show subset: "set (c_table_rows curve) \<subseteq> set curve"
    unfolding rows by (auto dest: set_zip_rightD simp: enumerate_eq_zip)
  have inr: "r \<in> set (c_table_rows curve)" if r: "r \<in> set curve" "r = best \<or> r = last curve" for r
  proof -
    from r(1) have "r \<in> snd ` set (enumerate 0 curve)" by (metis list.set_map map_snd_enumerate)
    then obtain i where "(i, r) \<in> set (enumerate 0 curve)" by force
    then show ?thesis using r(2) by (force simp: rows P_def kept_def)
  qed
  show "last curve \<in> set (c_table_rows curve)" using assms(2) by (intro inr) auto
  have "best \<in> set (c_table_rows curve)" using the_min_by(1) [OF assms(2)] by (intro inr) (auto simp: best_def)
  moreover have "distinct (c_table_rows curve)"
    using sorted by (simp add: strict_sorted_iff distinct_map)
  ultimately show "filter (\<lambda>r. r = best) (c_table_rows curve) = [best]" by (rule filter_one [rotated])
  have "length (filter (\<lambda>r. r = best \<or> r = last curve) curve) = card ({r. r = best \<or> r = last curve} \<inter> set curve)"
    by (rule distinct_length_filter [OF dc])
  also have "\<dots> \<le> card {best, last curve}" by (intro card_mono) auto
  also have "\<dots> \<le> 2" by (simp add: card_insert_if)
  finally have two: "length (filter (\<lambda>r. r = best \<or> r = last curve) curve) \<le> 2" .
  have "length (c_table_rows curve) \<le> length (filter (\<lambda>j. j mod step = 0) [0..<0 + length curve])
      + length (filter (\<lambda>r. r = best \<or> r = last curve) curve)"
    unfolding rows length_map by (rule snd_filter_enumerate) (auto simp: P_def kept_def)
  also have "\<dots> \<le> length curve div step + 3"
    using count_multiples [of step "length curve"] two \<open>0 < step\<close> by simp
  also have "\<dots> \<le> 50"
  proof (cases "length curve < 48")
    case True
    then have "step = 1" by (simp add: step_def)
    then show ?thesis using True by simp
  next
    case False
    then have "step = length curve div 24" "2 \<le> step" by (simp_all add: step_def)
    then have "length curve < 24 * step + 24" by linarith
    then have "length curve < 37 * step" using \<open>2 \<le> step\<close> by linarith
    then have "length curve div step < 37" using \<open>2 \<le> step\<close> by (simp add: less_mult_imp_div_less)
    then show ?thesis by simp
  qed
  finally show "length (c_table_rows curve) \<le> 50" .
qed

lemma c_line_mark: "CHR ''<'' \<in> set (c_line best r) \<longleftrightarrow> r = best"
proof -
  have "CHR ''<'' \<notin> set (right_row (c_cells r) c_widths)"
    unfolding right_row_def
    by (rule notI, drule fmt_row_chars) (auto simp: c_cells_def number_char_def is_digit_def code_of_def dest: fixed_chars)
  then show ?thesis by (simp add: c_line_def c_mark_def)
qed

lemma b_rows_rail:
  "distinct (map b_n_big (map (\<lambda>n. b_row_of ps t pl1 n sh) [0, 1, 2, 3, 4]))"
  by (simp add: b_row_of_def Let_def)

definition marks_best :: "string list \<Rightarrow> b_row list \<Rightarrow> nat \<Rightarrow> bool" where
  "marks_best table rows n \<longleftrightarrow>
     (\<exists>l. filter (\<lambda>l. CHR ''<'' \<in> set l) table = [l] \<and> take 7 l = ''      '' @ nat_str n
        \<and> (CHR ''I'' \<in> set l) = list_all (\<lambda>r. \<not> finished_in_horizon r) rows)"

lemma b_table_marks:
  assumes "rows = map (\<lambda>n. b_row_of ps t pl1 n sh) [0, 1, 2, 3, 4]" "CHR ''<'' \<notin> set label"
  shows "marks_best (b_table label rows) rows (b_n_big (best_of rows))"
proof -
  let ?best = "best_of rows"
  have ne: "rows \<noteq> []" by (simp add: assms(1))
  have dist: "distinct (map b_n_big rows)" unfolding assms(1) by (rule b_rows_rail)
  note marked = b_table_marked [OF dist ne assms(2)]
  have best: "?best \<in> set rows" using best_of_cases(1) [OF ne] .
  then have "b_n_big ?best \<in> {0, 1, 2, 3, 4}" by (auto simp: assms(1) b_row_of_def Let_def)
  then have "length (nat_str (b_n_big ?best)) = 1" by (auto simp: nat_str.simps)
  moreover obtain rest where "right_row (b_cells ?best) b_widths = rjust 5 (nat_str (b_n_big ?best)) @ rest"
    using right_row_first [of "nat_str (b_n_big ?best)" "tl (b_cells ?best)" 5 "tl b_widths"]
    by (auto simp: b_cells_def b_widths_def)
  ultimately have "take 7 (b_line ?best ?best) = ''      '' @ nat_str (b_n_big ?best)"
    by (simp add: b_line_def rjust_def numeral_eq_Suc)
  moreover have "(CHR ''I'' \<in> set (b_line ?best ?best)) = list_all (\<lambda>r. \<not> finished_in_horizon r) rows"
    unfolding b_line_marks(2) list_all_iff using best best_of_cases(2) [OF ne] by blast
  ultimately show ?thesis using marked unfolding marks_best_def by blast
qed

subsection \<open>Properties\<close>

text \<open>C20: in the printed table of either rail exactly one line carries the mark of the minimum; it is the line of the number of
  big cores the summary names, and it is itself marked infeasible exactly when no configuration of that rail
  meets the deadline, although the mark calls it feasible.\<close>

theorem sweep_tables_mark_best:
  "case experiment_b ps t pl1 of (rows, s) \<Rightarrow>
     let shared = filter b_shared_rail rows; split = filter (\<lambda>r. \<not> b_shared_rail r) rows;
         a = b_table ''SHARED RAIL (real i7-8550U)'' shared; b = b_table ''SPLIT RAIL  (true big.LITTLE counterfactual)'' split
     in marks_best a shared (best_n_big_shared s) \<and> marks_best b split (best_n_big_split s)
        \<and> (\<exists>before after. b_lines pl1 (rows, s) = before @ a @ b @ after)"
proof -
  have "\<exists>before after. b_lines pl1 (rows, s) = before @ b_table ''SHARED RAIL (real i7-8550U)'' (filter b_shared_rail rows)
      @ b_table ''SPLIT RAIL  (true big.LITTLE counterfactual)'' (filter (\<lambda>r. \<not> b_shared_rail r) rows) @ after" for rows s
    unfolding b_lines_def Let_def fst_conv by blast
  moreover have "fst (experiment_b ps t pl1) = b_rows ps t pl1"
    "best_n_big_shared (snd (experiment_b ps t pl1)) = b_n_big (best_of (filter b_shared_rail (b_rows ps t pl1)))"
    "best_n_big_split (snd (experiment_b ps t pl1)) = b_n_big (best_of (filter (\<lambda>r. \<not> b_shared_rail r) (b_rows ps t pl1)))"
    by (simp_all add: experiment_b_def Let_def)
  moreover note b_table_marks [OF shared_rows [of ps t pl1], of "''SHARED RAIL (real i7-8550U)''"]
    b_table_marks [OF split_rows [of ps t pl1], of "''SPLIT RAIL  (true big.LITTLE counterfactual)''"]
  ultimately show ?thesis by (simp add: case_prod_beta' Let_def)
qed

text \<open>The thinned-out table of experiment C keeps at most 50 rows of the sweep, in order of frequency and with the last
  one, and marks exactly one line, that of the crossover the summary reports.\<close>

theorem crossover_table_complete:
  "case experiment_c ps n w t of Inl e \<Rightarrow> True
   | Inr (curve, s) \<Rightarrow>
       let shown = c_table_rows curve; best = the (min_by e_j curve) in
       filter (\<lambda>l. CHR ''<'' \<in> set l) (map (c_line best) shown) = [c_line best best] \<and> f_ghz best = crossover_f_ghz s
       \<and> last curve \<in> set shown \<and> set shown \<subseteq> set curve \<and> sorted_wrt (<) (map f_ghz shown) \<and> length shown \<le> 50"
proof (cases "experiment_c ps n w t")
  case (Inr r)
  obtain curve s where r: "r = (curve, s)" by (rule prod.exhaust)
  have curve: "curve = c_curve (c_row_of ps n w t) (turbo_limit_hz (int n)) F_MIN_HZ"
    "f_ghz (the (min_by e_j curve)) = crossover_f_ghz s"
    using Inr by (auto simp: experiment_c_def Let_def r c_summary_of_def split: if_splits list.splits)
  have "curve \<noteq> []" using turbo_ge_min [of "int n"] by (simp add: curve(1) c_curve_cons)
  moreover have "sorted_wrt (<) (map f_ghz curve)" unfolding curve(1) by (rule curve_sorted)
  ultimately have facts: "sorted_wrt (<) (map f_ghz (c_table_rows curve))" "set (c_table_rows curve) \<subseteq> set curve"
    "filter (\<lambda>r. r = the (min_by e_j curve)) (c_table_rows curve) = [the (min_by e_j curve)]"
    "last curve \<in> set (c_table_rows curve)" "length (c_table_rows curve) \<le> 50"
    using c_table_facts by blast+
  then show ?thesis using curve(2) by (simp add: Inr r Let_def filter_map comp_def c_line_mark)
qed simp


end
