(* ===== verification/ModelJson.thy ===== *)
theory ModelJson
  imports ModelText
begin

text \<open>
  What \<open>sim/rail_model.py --json\<close> hands to \<open>json.dump\<close>: the result of \<open>run_all\<close> with the rows and summaries of the
  experiments, the constants, the predictions and the fit, key by key.
\<close>

subsection \<open>The result as a JSON value\<close>

definition params_json :: "params \<Rightarrow> json" where
  "params_json ps =
     JObj [(''C_eff'', JFloat (Fin (C_eff ps))),
       (''k_leak'', JFloat (Fin (k_leak ps))),
       (''p_sa_floor'', JFloat (Fin (p_sa_floor ps)))]"

definition a_row_json :: "a_row \<Rightarrow> json" where
  "a_row_json r =
     JObj [(''n_light'', JInt (int (a_n_light r))),
       (''n_light_on_big_sibling'', JInt (int (n_light_on_big_sibling r))),
       (''marginal_w_shared'', JFloat (Fin (marginal_w_shared r))),
       (''marginal_w_split'', JFloat (Fin (marginal_w_split r))),
       (''marginal_w_no_partition'', JFloat (Fin (marginal_w_no_partition r))),
       (''rail_tax_w'', JFloat (Fin (rail_tax_w r))),
       (''cost_ratio_shared_over_split'', JFloat (cost_ratio_shared_over_split r)),
       (''saving_retained_frac'', JFloat (saving_retained_frac r)),
       (''saving_destroyed_frac'', JFloat (saving_destroyed_frac r)),
       (''pkg_w_shared'', JFloat (Fin (pkg_w_shared r))),
       (''pkg_w_split'', JFloat (Fin (pkg_w_split r)))]"

definition a_detail_json :: "a_detail \<Rightarrow> json" where
  "a_detail_json d =
     JObj [(''f_big_ghz'', JFloat (Fin (f_big_ghz d))),
       (''v_rail_big_v'', JFloat (Fin (v_rail_big_v d))),
       (''f_light_ghz'', JFloat (Fin (f_light_ghz d))),
       (''v_light_if_split_v'', JFloat (Fin (v_light_if_split_v d))),
       (''light_activity'', JFloat (Fin (ad_light_activity d))),
       (''one_light_core_shared_dyn_w'', JFloat (Fin (one_light_core_shared_dyn_w d))),
       (''one_light_core_shared_leak_w'', JFloat (Fin (one_light_core_shared_leak_w d))),
       (''one_light_core_split_dyn_w'', JFloat (Fin (one_light_core_split_dyn_w d))),
       (''one_light_core_split_leak_w'', JFloat (Fin (one_light_core_split_leak_w d))),
       (''one_light_core_shared_total_w'', JFloat (Fin (one_light_core_shared_total_w d))),
       (''one_light_core_split_total_w'', JFloat (Fin (one_light_core_split_total_w d))),
       (''one_light_core_cost_ratio'', JFloat (Fin (one_light_core_cost_ratio d))),
       (''v_squared_penalty'', JFloat (Fin (v_squared_penalty d))),
       (''leak_penalty'', JFloat (Fin (leak_penalty d)))]"

definition b_row_json :: "b_row \<Rightarrow> json" where
  "b_row_json r =
     JObj [(''n_big'', JInt (int (b_n_big r))),
       (''n_little'', JInt (int (b_n_little r))),
       (''shared_rail'', JBool (b_shared_rail r)),
       (''f_work_ghz'', JFloat (Fin (f_work_ghz r))),
       (''f_bg_ghz'', JFloat (Fin (f_bg_ghz r))),
       (''bg_activity'', JFloat (Fin (bg_activity r))),
       (''t_compile_s'', JFloat (Fin (t_compile_s r))),
       (''t_window_s'', JFloat (Fin (t_window_s r))),
       (''finished_in_horizon'', JBool (finished_in_horizon r)),
       (''p_phase1_w'', JFloat (Fin (p_phase1_w r))),
       (''p_phase2_w'', JFloat (Fin (p_phase2_w r))),
       (''v_rail_phase1_v'', JFloat (Fin (v_rail_phase1_v r))),
       (''energy_j'', JFloat (Fin (energy_j r)))]"

definition tax_row_json :: "tax_row \<Rightarrow> json" where
  "tax_row_json r =
     JObj [(''n_big'', JInt (int (tx_n_big r))),
       (''energy_j_shared'', JFloat (Fin (energy_j_shared r))),
       (''energy_j_split'', JFloat (Fin (energy_j_split r))),
       (''rail_tax_j'', JFloat (Fin (rail_tax_j r))),
       (''rail_tax_pct'', JFloat (Fin (rail_tax_pct r))),
       (''feasible'', JBool (feasible r))]"

definition b_summary_json :: "b_summary \<Rightarrow> json" where
  "b_summary_json s =
     JObj [(''best_n_big_shared'', JInt (int (best_n_big_shared s))),
       (''best_energy_j_shared'', JFloat (Fin (best_energy_j_shared s))),
       (''best_n_big_split'', JInt (int (best_n_big_split s))),
       (''best_energy_j_split'', JFloat (Fin (best_energy_j_split s))),
       (''interior_optimum_shared'', JBool (interior_optimum_shared s)),
       (''interior_optimum_split'', JBool (interior_optimum_split s)),
       (''energy_gap_j'', JFloat (Fin (energy_gap_j s))),
       (''energy_gap_pct'', JFloat (Fin (energy_gap_pct s))),
       (''partition_benefit_j_shared'', JFloat (Fin (partition_benefit_j_shared s))),
       (''partition_benefit_j_split'', JFloat (Fin (partition_benefit_j_split s))),
       (''partition_benefit_retained_frac'', JFloat (partition_benefit_retained_frac s)),
       (''curve_spread_frac_shared'', JFloat (Fin (curve_spread_frac_shared s))),
       (''curve_spread_frac_split'', JFloat (Fin (curve_spread_frac_split s))),
       (''rail_tax_by_n_big'', JArr (map tax_row_json (rail_tax_by_n_big s))),
       (''pl1_applied'', JBool (pl1_applied s))]"

definition c_row_json :: "c_row \<Rightarrow> json" where
  "c_row_json r =
     JObj [(''f_ghz'', JFloat (Fin (f_ghz r))),
       (''v_v'', JFloat (Fin (v_v r))),
       (''t_s'', JFloat (Fin (t_s r))),
       (''p_w'', JFloat (Fin (p_w r))),
       (''p_dyn_w'', JFloat (Fin (p_dyn_w r))),
       (''p_leak_w'', JFloat (Fin (p_leak_w r))),
       (''p_uncore_w'', JFloat (Fin (p_uncore_w r))),
       (''e_j'', JFloat (Fin (e_j r))),
       (''e_j_no_fixed_floor'', JFloat (Fin (e_j_no_fixed_floor r))),
       (''e_j_core_only'', JFloat (Fin (e_j_core_only r)))]"

definition c_summary_json :: "c_summary \<Rightarrow> json" where
  "c_summary_json s =
     JObj [(''n_cores'', JInt (int (c_n_cores s))),
       (''work_gcycles'', JFloat (Fin (c_work_gcycles s))),
       (''crossover_f_ghz'', JFloat (Fin (crossover_f_ghz s))),
       (''crossover_v_v'', JFloat (Fin (crossover_v_v s))),
       (''crossover_energy_j'', JFloat (Fin (crossover_energy_j s))),
       (''crossover_runtime_s'', JFloat (Fin (crossover_runtime_s s))),
       (''f_opt_ghz_without_fixed_floor'', JFloat (Fin (f_opt_ghz_without_fixed_floor s))),
       (''f_opt_ghz_core_only'', JFloat (Fin (f_opt_ghz_core_only s))),
       (''energy_at_f_min_j'', JFloat (Fin (energy_at_f_min_j s))),
       (''energy_penalty_of_running_at_f_min_pct'', JFloat (Fin (energy_penalty_of_running_at_f_min_pct s))),
       (''uncore_share_at_f_min_pct'', JFloat (Fin (uncore_share_at_f_min_pct s))),
       (''uncore_share_at_crossover_pct'', JFloat (Fin (uncore_share_at_crossover_pct s)))]"

definition TAU_S :: real where
  "TAU_S = 28"

definition constants_json :: "hz \<Rightarrow> real \<Rightarrow> json" where
  "constants_json f_little temp =
     JObj [(''n_phys_cores'', JInt (int N_PHYS_CORES)),
       (''n_logical_cpus'', JInt (int N_LOGICAL_CPUS)),
       (''smt_sibling_stride'', JInt (int SMT_SIBLING_STRIDE)),
       (''f_min_hz'', JFloat (Fin F_MIN_HZ)),
       (''f_base_hz'', JFloat (Fin F_BASE_HZ)),
       (''f_turbo_max_hz'', JFloat (Fin F_TURBO_MAX_HZ)),
       (''f_little_hz'', JFloat (Fin f_little)),
       (''turbo_bins_hz'', JObj (map (\<lambda>(k, v). (int_str k, JFloat (Fin v))) TURBO_BINS_HZ)),
       (''vf_anchors_mhz_v'', JArr (map (\<lambda>(m, v). JArr [JFloat (Fin m), JFloat (Fin v)]) VF_ANCHORS)),
       (''vt_eff_v'', JFloat (Fin VT_EFF_V)),
       (''c_ring_w_per_v2_ghz'', JFloat (Fin C_RING_W_PER_V2_GHZ)),
       (''k_uncore_traffic_w_per_ghz'', JFloat (Fin K_UNCORE_TRAFFIC_W_PER_GHZ)),
       (''c6_leak_residual'', JFloat (Fin C6_LEAK_RESIDUAL)),
       (''pl1_w'', JFloat (Fin PL1_W)),
       (''pl2_w'', JFloat (Fin PL2_W)),
       (''tau_s'', JFloat (Fin TAU_S)),
       (''temp_c'', JFloat (Fin temp)),
       (''w_compile_gcycles'', JFloat (Fin W_COMPILE_GCYCLES)),
       (''w_light_gcycles_per_task'', JFloat (Fin W_LIGHT_GCYCLES_PER_TASK)),
       (''n_light_tasks'', JInt (int N_LIGHT_TASKS)),
       (''horizon_s'', JFloat (Fin HORIZON_S)),
       (''source_class'', JObj (map (\<lambda>(k, c). (k, JStr c)) CONSTANT_SOURCES))]"

definition predictions_json :: "predictions \<Rightarrow> json" where
  "predictions_json p =
     JObj [(''P1_saving_retained_frac_range'', JArr (map JFloat (P1_saving_retained_frac_range p))),
       (''P1_single_little_cost_ratio'', JFloat (Fin (P1_single_little_cost_ratio p))),
       (''P2_shared_rail_interior_optimum'', JBool (P2_shared_rail_interior_optimum p)),
       (''P2_split_rail_interior_optimum'', JBool (P2_split_rail_interior_optimum p)),
       (''P2_partition_benefit_retained_frac'', JFloat (P2_partition_benefit_retained_frac p)),
       (''P2_energy_penalty_at_optimum_pct'', JFloat (Fin (P2_energy_penalty_at_optimum_pct p))),
       (''P2_feasible_curve_spread_frac_shared'', JFloat (Fin (P2_feasible_curve_spread_frac_shared p))),
       (''P3_race_to_idle_crossover_ghz'', JFloat (Fin (P3_race_to_idle_crossover_ghz p))),
       (''P3_energy_penalty_at_f_min_pct'', JFloat (Fin (P3_energy_penalty_at_f_min_pct p))),
       (''P4_tunable_freq_domains'', JInt (int (P4_tunable_freq_domains p))),
       (''P4_logical_cpus'', JInt (int (P4_logical_cpus p)))]"

definition fit_json :: "string \<Rightarrow> fit_info \<Rightarrow> json" where
  "fit_json csv info =
     JObj [(''csv'', JStr csv),
       (''n_samples_used'', JInt (int (n_samples_used info))),
       (''n_rows_skipped'', JInt (int (n_rows_skipped info))),
       (''fit'', params_json (fit info)),
       (''prior'', params_json (prior info)),
       (''clamped_to_prior'', JArr (map JStr (clamped_to_prior info))),
       (''residual_rms_w'', JFloat (Fin (residual_rms_w info))),
       (''residual_max_abs_w'', JFloat (Fin (residual_max_abs_w info))),
       (''r_squared'', JFloat (r_squared info))]"

definition hypothesis :: string where
  "hypothesis = ''per-core EPP partitioning emulates big.LITTLE on a shared-rail homogeneous x86 client CPU''"

text \<open>The whole result; the first argument is the absolute path of the calibration file.\<close>

definition model_json :: "string \<Rightarrow> model_output \<Rightarrow> json" where
  "model_json csv out =
     JObj ([(''part'', JStr PART_NAME), (''hypothesis'', JStr hypothesis), (''verdict'', JStr (mo_verdict out)),
       (''params'', params_json (mo_params out)), (''constants'', constants_json (mo_f_little_hz out) (mo_temp_c out)),
       (''experiment_a_rail_tax'', JObj [(''rows'', JArr (map a_row_json (fst (mo_a out)))), (''detail'', a_detail_json (snd (mo_a out)))]),
       (''experiment_b_partition_sweep'', JObj [(''rows'', JArr (map b_row_json (fst (mo_b out)))), (''summary'', b_summary_json (snd (mo_b out)))]),
       (''experiment_c_uncore_floor'', JObj [(''curve'', JArr (map c_row_json (fst (mo_c out)))), (''summary'', c_summary_json (snd (mo_c out)))]),
       (''predictions'', predictions_json (mo_predictions out))]
       @ (case mo_calibration out of None \<Rightarrow> [] | Some info \<Rightarrow> [(''calibration'', fit_json csv info)]))"

subsection \<open>Special floats\<close>

text \<open>Whether a value is JSON: \<open>json.dump\<close> writes NaN and infinities as tokens no JSON parser has to accept.\<close>

fun strict_json :: "json \<Rightarrow> bool" where
  "strict_json (JObj kvs) = list_all (\<lambda>(k, v). strict_json v) kvs"
| "strict_json (JArr xs) = list_all strict_json xs"
| "strict_json (JFloat v) = is_finite v"
| "strict_json v = True"

lemma strict_model_json:
  "strict_json (model_json csv out) =
     (list_all (\<lambda>r. is_finite (cost_ratio_shared_over_split r) \<and> is_finite (saving_retained_frac r)
        \<and> is_finite (saving_destroyed_frac r)) (fst (mo_a out))
      \<and> is_finite (partition_benefit_retained_frac (snd (mo_b out)))
      \<and> list_all is_finite (P1_saving_retained_frac_range (mo_predictions out))
      \<and> is_finite (P2_partition_benefit_retained_frac (mo_predictions out))
      \<and> (case mo_calibration out of None \<Rightarrow> True | Some info \<Rightarrow> is_finite (r_squared info)))"
  by (simp add: model_json_def params_json_def constants_json_def a_row_json_def a_detail_json_def b_row_json_def
      b_summary_json_def tax_row_json_def c_row_json_def c_summary_json_def predictions_json_def fit_json_def
      list_all_iff split_beta' split: option.split)

text \<open>At the turbo frequency a light core costs less on the shared rail: idle, it would leak at the high voltage.\<close>

lemma light_cost_at_turbo:
  assumes "params_ok ps"
  shows "light_cost ps t True (4000 * 10 ^ 6) a \<le> light_cost ps t False (4000 * 10 ^ 6) a"
proof (cases "core_active a")
  case True
  have "(0.65 :: real) * exp (0.65 / 0.3) \<le> 1.15 * exp (1.15 / 0.3)" by (intro mult_mono) auto
  then have "0.9 * leak_shape 1.15 \<le> leak_shape 1.15 - 0.1 * leak_shape 0.65"
    by (simp add: leak_shape_def VT_EFF_V_def)
  then have "k_leak ps * (0.9 * leak_shape 1.15) * leak_temp_factor t
      \<le> k_leak ps * (leak_shape 1.15 - 0.1 * leak_shape 0.65) * leak_temp_factor t"
    using assms by (intro mult_right_mono mult_left_mono) (auto simp: params_ok_def leak_temp_factor_def)
  then show ?thesis
    unfolding light_cost_shared [OF True] light_cost_split [OF True] v_turbo
    by (simp add: power2_eq_square field_simps)
qed simp

lemma retained_at_turbo:
  assumes "params_ok ps"
  shows "saving_retained_frac (a_row_of ps la (4000 * 10 ^ 6) t n) = NaN"
proof -
  let ?r = "a_row_of ps la (4000 * 10 ^ 6) t n"
  have "marginal_w_no_partition ?r \<le> marginal_w_split ?r"
    unfolding a_row_marginals [OF order_refl] by (intro sum_list_mono light_cost_at_turbo assms)
  then show ?thesis by (auto simp: a_row_of_def Let_def guarded_div_def)
qed

subsection \<open>Properties\<close>

text \<open>C22: with \<open>--json\<close> the program can print what is not JSON: when the LITTLE frequency is the turbo frequency, it
  ends normally and the retained saving of every row is NaN, which \<open>json.dump\<close> writes as such.\<close>

theorem json_not_strict_at_turbo:
  "\<exists>out. model_main read (default_model_args\<lparr>ma_f_little_mhz := 4000\<rparr>) = Inr out
     \<and> list_all (\<lambda>r. saving_retained_frac r = NaN) (fst (mo_a out)) \<and> fst (mo_a out) \<noteq> []
     \<and> \<not> strict_json (model_json csv out)"
proof -
  let ?args = "default_model_args\<lparr>ma_f_little_mhz := 4000\<rparr>"
  have args: "check_args ?args = None" "ma_calibrate ?args = None" "0 < ma_f_little_mhz ?args"
    "ma_f_little_mhz ?args * 10 ^ 6 = 4000 * 10 ^ 6"
    by (simp_all add: default_model_args_def check_args_def N_PHYS_CORES_def)
  obtain out where out: "run_all PARAMS ?args None = Inr out"
    using run_all_total [OF _ args(1,3), of PARAMS None] by auto
  then have "fst (mo_a out) = map (a_row_of PARAMS (ma_light_activity ?args) (4000 * 10 ^ 6) (ma_temp_c ?args)) [1..<8]"
    unfolding run_all_def args(4) by (auto simp: err_bind_Inr Let_def experiment_a_def split: sum.splits)
  then have a: "list_all (\<lambda>r. saving_retained_frac r = NaN) (fst (mo_a out))" "fst (mo_a out) \<noteq> []"
    using retained_at_turbo [of PARAMS] by (simp_all add: list_all_iff)
  then have "\<not> strict_json (model_json csv out)"
    unfolding strict_model_json by (cases "fst (mo_a out)") auto
  then show ?thesis using a out model_main_cases(2) [OF args(1)] args(2) by auto
qed

end
