(* ===== verification/ModelPlots.thy ===== *)
theory ModelPlots
  imports ModelJson
begin

text \<open>
  The figures of \<open>sim/rail_model.py --plot\<close>, and what a run prints in the end. A figure is the data handed to matplotlib:
  file, title, axis labels, curves, and the marked point. Rendering it is matplotlib's; whether that can be
  imported, and if not the error text, is a parameter.
\<close>

subsection \<open>Figures\<close>

record curve =
  cv_points :: "(real \<times> real) list"
  cv_style :: string
  cv_label :: string

record figure =
  fig_file :: string
  fig_title :: string
  fig_xlabel :: string
  fig_ylabel :: string
  fig_curves :: "curve list"
  fig_mark :: "(string \<times> real \<times> real) option"

definition curve_of :: "('a \<Rightarrow> real) \<Rightarrow> ('a \<Rightarrow> real) \<Rightarrow> 'a list \<Rightarrow> string \<Rightarrow> string \<Rightarrow> curve" where
  "curve_of x y rows style label = \<lparr>cv_points = map (\<lambda>r. (x r, y r)) rows, cv_style = style, cv_label = label\<rparr>"

definition figure_a :: "string \<Rightarrow> a_row list \<times> a_detail \<Rightarrow> figure" where
  "figure_a outdir res =
     (let rows = fst res; n = (\<lambda>r. real (a_n_light r)) in
      \<lparr>fig_file = path_join outdir ''expA_rail_tax.png'',
       fig_title = ''Experiment A: the rail tax (one core at '' @ fixed 1 (f_big_ghz (snd res)) @ '' GHz turbo)'',
       fig_xlabel = ''number of light background threads'', fig_ylabel = ''marginal package power [W]'',
       fig_curves =
         [curve_of n marginal_w_no_partition rows ''o-'' ''no partitioning (light tasks at turbo)'',
          curve_of n marginal_w_shared rows ''s-'' ''EPP LITTLE, shared rail (real i7-8550U)'',
          curve_of n marginal_w_split rows ''^-'' ''true big.LITTLE, split rail''],
       fig_mark = None\<rparr>)"

definition figure_b :: "string \<Rightarrow> b_row list \<times> b_summary \<Rightarrow> figure" where
  "figure_b outdir res =
     \<lparr>fig_file = path_join outdir ''expB_partition_sweep.png'', fig_title = ''Experiment B: partition sweep at fixed work'',
      fig_xlabel = ''number of cores designated 'big'' @ [CHR 0x27], fig_ylabel = ''energy to solution [J]'',
      fig_curves =
        map (\<lambda>(shared, style, lbl).
               curve_of (\<lambda>r. real (b_n_big r)) energy_j (sort_key b_n_big (filter (\<lambda>r. b_shared_rail r = shared) (fst res))) style lbl)
          [(True, ''s-'', ''shared rail (real)''), (False, ''^-'', ''split rail (counterfactual)'')],
      fig_mark = None\<rparr>"

definition figure_c :: "string \<Rightarrow> c_row list \<times> c_summary \<Rightarrow> figure" where
  "figure_c outdir res =
     (let c = fst res; xo = crossover_f_ghz (snd res) in
      \<lparr>fig_file = path_join outdir ''expC_uncore_floor.png'', fig_title = ''Experiment C: uncore floor and race-to-idle'',
       fig_xlabel = ''core frequency [GHz]'', fig_ylabel = ''energy to solution [J]'',
       fig_curves =
         [curve_of f_ghz e_j c [] ''with fixed uncore floor'',
          curve_of f_ghz e_j_no_fixed_floor c ''--'' ''fixed floor removed'',
          curve_of f_ghz e_j_core_only c '':'' ''cores only''],
       fig_mark = Some (''crossover '' @ fixed 2 xo @ '' GHz'', xo, crossover_energy_j (snd res))\<rparr>)"

record plots =
  plots_figures :: "figure list"
  plots_error :: "string option"

text \<open>\<open>make_plots\<close>; the first argument is the text of the exception of the import, if any.\<close>

definition make_plots ::
  "string option \<Rightarrow> string \<Rightarrow> a_row list \<times> a_detail \<Rightarrow> b_row list \<times> b_summary \<Rightarrow> c_row list \<times> c_summary \<Rightarrow> plots" where
  "make_plots missing outdir a b c =
     (case missing of
        Some e \<Rightarrow> \<lparr>plots_figures = [], plots_error = Some (''matplotlib unavailable: '' @ e)\<rparr>
      | None \<Rightarrow> \<lparr>plots_figures = [figure_a outdir a, figure_b outdir b, figure_c outdir c], plots_error = None\<rparr>)"

definition plots_json :: "plots \<Rightarrow> json" where
  "plots_json p =
     JObj [(''written'', JArr (map (\<lambda>f. JStr (fig_file f)) (plots_figures p))),
       (''error'', case plots_error p of None \<Rightarrow> JNull | Some e \<Rightarrow> JStr e)]"

definition plots_lines :: "plots \<Rightarrow> string list" where
  "plots_lines p =
     hr ''PLOTS''
     @ (case plots_error p of Some e \<Rightarrow> [''  skipped: '' @ e]
        | None \<Rightarrow> map (\<lambda>f. ''  wrote '' @ fig_file f) (plots_figures p))"

subsection \<open>The end of a run\<close>

text \<open>Where the program runs: \<open>os.path.abspath\<close>, and whether matplotlib is missing.\<close>

record surroundings =
  su_abspath :: "string \<Rightarrow> string"
  su_missing :: "string option"

definition add_entry :: "json \<Rightarrow> string \<times> json \<Rightarrow> json" where
  "add_entry v kv = (case v of JObj kvs \<Rightarrow> JObj (kvs @ [kv]) | _ \<Rightarrow> v)"

text \<open>What a completed run prints: the JSON value or the lines; \<open>plot\<close> is the directory of \<open>--plot\<close>.\<close>

definition model_print ::
  "surroundings \<Rightarrow> bool \<Rightarrow> string option \<Rightarrow> model_args \<Rightarrow> model_output \<Rightarrow> json + string list" where
  "model_print su as_json plot args out =
     (let csv = su_abspath su (case ma_calibrate args of None \<Rightarrow> [] | Some p \<Rightarrow> p);
          ps = map_option (\<lambda>d. make_plots (su_missing su) d (mo_a out) (mo_b out) (mo_c out)) plot
      in if as_json then
           Inl (case ps of None \<Rightarrow> model_json csv out | Some p \<Rightarrow> add_entry (model_json csv out) (''plots'', plots_json p))
         else Inr (model_lines (su_abspath su) args out @ (case ps of None \<Rightarrow> [] | Some p \<Rightarrow> plots_lines p)))"

subsection \<open>Properties\<close>

text \<open>The point the third figure marks lies on its first curve and is a lowest point of it, so the figure and the
  summary of experiment C agree on the crossover.\<close>

theorem crossover_mark_on_curve:
  "case experiment_c ps n w t of Inl e \<Rightarrow> True
   | Inr res \<Rightarrow>
       (case (fig_mark (figure_c outdir res), fig_curves (figure_c outdir res)) of
          (Some (label, x, y), cv # cvs) \<Rightarrow>
            (x, y) \<in> set (cv_points cv) \<and> list_all (\<lambda>(x', y'). y \<le> y') (cv_points cv)
            \<and> list_all (\<lambda>c. map fst (cv_points c) = map fst (cv_points cv)) cvs
        | _ \<Rightarrow> False)"
proof (cases "experiment_c ps n w t")
  case (Inr r)
  obtain curve s where r: "r = (curve, s)" by (rule prod.exhaust)
  let ?best = "the (min_by e_j curve)"
  have curve: "curve = c_curve (c_row_of ps n w t) (turbo_limit_hz (int n)) F_MIN_HZ"
    "f_ghz ?best = crossover_f_ghz s" "e_j ?best = crossover_energy_j s"
    using Inr by (auto simp: experiment_c_def Let_def r c_summary_of_def split: if_splits list.splits)
  have "curve \<noteq> []" using turbo_ge_min [of "int n"] by (simp add: curve(1) c_curve_cons)
  from the_min_by [OF this, where f = e_j]
  have "?best \<in> set curve" "list_all (\<lambda>r. e_j ?best \<le> e_j r) curve" by (auto simp: list_all_iff)
  then show ?thesis
    by (auto simp: Inr r figure_c_def curve_of_def Let_def list_all_iff curve(2,3) [symmetric])
qed simp

end
