(* ===== verification/Cpulist.thy ===== *)
theory Cpulist
  imports PyText "HOL-Library.Multiset"
begin

text \<open>
  The CPU lists of \<open>scripts/bench.py\<close>: \<open>cpulist\<close> and \<open>parse_cpulist\<close>, which print and read lists such as
  \<open>0-1,4-5\<close>, and \<open>default_partition\<close>, which splits the logical CPUs by physical core. A topology is the
  list of core ids of the CPUs 0, 1, and so on, as \<open>topology\<close> reads them.
\<close>

subsection \<open>Printing\<close>

definition render_run :: "nat \<times> nat \<Rightarrow> string" where
  "render_run = (\<lambda>(start, prev). if start = prev then nat_str start else nat_str start @ CHR ''-'' # nat_str prev)"

text \<open>The loop over \<open>cpus[1:] + [None]\<close>; the empty list is the sentinel that closes the last run.\<close>

fun cpu_runs :: "nat \<Rightarrow> nat \<Rightarrow> nat list \<Rightarrow> (nat \<times> nat) list" where
  "cpu_runs start prev [] = [(start, prev)]"
| "cpu_runs start prev (c # cs) =
     (if c = prev + 1 then cpu_runs start c cs else (start, prev) # cpu_runs c c cs)"

definition cpulist :: "nat list \<Rightarrow> string" where
  "cpulist cpus =
     (case cpus of [] \<Rightarrow> [] | c # cs \<Rightarrow> join_with CHR '','' (map render_run (cpu_runs c c cs)))"

subsection \<open>Reading\<close>

text \<open>\<open>None\<close> is the \<open>ValueError\<close> of \<open>int\<close> or of unpacking other than two parts.\<close>

definition parse_part :: "string \<Rightarrow> nat list option" where
  "parse_part part =
     (if CHR ''-'' \<in> set part then
        (case split_on CHR ''-'' part of
           [a, b] \<Rightarrow> (case (py_nat a, py_nat b) of (Some m, Some n) \<Rightarrow> Some [m..<n + 1] | _ \<Rightarrow> None)
         | _ \<Rightarrow> None)
      else map_option (\<lambda>n. [n]) (py_nat part))"

definition parse_cpulist :: "string \<Rightarrow> nat list option" where
  "parse_cpulist s =
     (case those (map parse_part (split_on CHR '','' s)) of
        None \<Rightarrow> None | Some parts \<Rightarrow> Some (sort (concat parts)))"

lemma dash_comma_free: "CHR ''-'' \<notin> set (nat_str n)" "CHR '','' \<notin> set (nat_str n)"
  using nat_str_chars [of "CHR ''-''" n] nat_str_chars [of "CHR '',''" n] by (auto simp: is_digit_def code_of_def)

lemma parse_render: "a \<le> b \<Longrightarrow> parse_part (render_run (a, b)) = Some [a..<b + 1]"
  by (simp add: render_run_def parse_part_def dash_comma_free split_on_append split_on_absent)

lemma render_comma_free: "CHR '','' \<notin> set (render_run r)"
  by (cases r) (simp add: render_run_def dash_comma_free)

lemma cpu_runs_cover:
  "start \<le> prev \<Longrightarrow> (\<forall>(a, b) \<in> set (cpu_runs start prev cs). a \<le> b)
     \<and> concat (map (\<lambda>(a, b). [a..<b + 1]) (cpu_runs start prev cs)) = [start..<prev + 1] @ cs"
  by (induction start prev cs rule: cpu_runs.induct) auto

lemma those_map_Some: "\<forall>x \<in> set xs. f x = Some (g x) \<Longrightarrow> those (map f xs) = Some (map g xs)"
  by (induction xs) auto

lemma cpu_runs_nonempty [simp]: "cpu_runs start prev cs \<noteq> []"
  by (induction start prev cs rule: cpu_runs.induct) auto

subsection \<open>The default partition\<close>

definition topology_cores :: "int list \<Rightarrow> int list" where
  "topology_cores topo = sorted_list_of_set (set topo)"

definition big_cores :: "int list \<Rightarrow> int list" where
  "big_cores topo = (let cores = topology_cores topo in take (max 1 (length cores div 2)) cores)"

definition default_partition :: "int list \<Rightarrow> nat list \<times> nat list" where
  "default_partition topo =
     (let bc = big_cores topo;
          big = filter (\<lambda>c. topo ! c \<in> set bc) [0..<length topo];
          little = filter (\<lambda>c. topo ! c \<notin> set bc) [0..<length topo]
      in (sort big, sort little))"

text \<open>\<open>Bench.__init__\<close>: the \<open>--big\<close> override takes precedence when it is a non-empty text.\<close>

definition bench_partition :: "int list \<Rightarrow> string \<Rightarrow> (nat list \<times> nat list) option" where
  "bench_partition topo big_arg =
     (if big_arg = [] then Some (default_partition topo)
      else case parse_cpulist big_arg of None \<Rightarrow> None
           | Some big \<Rightarrow> Some (big, filter (\<lambda>c. c \<notin> set big) [0..<length topo]))"

lemma sort_upt_filter [simp]: "sort (filter P [0..<n]) = filter P [0..<n]"
  by (simp add: sorted_sort_id sorted_wrt_filter)

lemma big_cores_split:
  assumes "x \<in> set topo" "y \<in> set topo" "x \<in> set (big_cores topo)" "y \<notin> set (big_cores topo)"
  shows "x < y"
proof -
  let ?cs = "topology_cores topo" and ?k = "max 1 (length (topology_cores topo) div 2)"
  have cs: "set ?cs = set topo" "sorted ?cs" "distinct ?cs" by (simp_all add: topology_cores_def)
  have split: "?cs = take ?k ?cs @ drop ?k ?cs" by simp
  have "y \<in> set (drop ?k ?cs)"
    using assms(2,4) cs(1) set_append [of "take ?k ?cs" "drop ?k ?cs"] by (auto simp: big_cores_def Let_def)
  moreover have "sorted (take ?k ?cs @ drop ?k ?cs)" using cs(2) by simp
  ultimately have "x \<le> y" using assms(3) by (simp only: sorted_append) (auto simp: big_cores_def Let_def)
  then show ?thesis using assms(3,4) by (metis order_le_less)
qed

lemma big_cores_nonempty: "topo \<noteq> [] \<Longrightarrow> hd (topology_cores topo) \<in> set (big_cores topo)"
proof -
  assume "topo \<noteq> []"
  then have "topology_cores topo \<noteq> []" by (simp add: topology_cores_def)
  then obtain c cs where cs: "topology_cores topo = c # cs" by (cases "topology_cores topo") auto
  obtain k where "max 1 (length (topology_cores topo) div 2) = Suc k"
    by (cases "max 1 (length (topology_cores topo) div 2)") auto
  then show ?thesis by (simp add: big_cores_def Let_def cs)
qed

lemma little_nonempty:
  assumes "2 \<le> card (set topo)"
  shows "\<exists>y \<in> set topo. y \<notin> set (big_cores topo)"
proof -
  let ?cs = "topology_cores topo" and ?k = "max 1 (length (topology_cores topo) div 2)"
  have len: "length ?cs = card (set topo)" by (simp add: topology_cores_def)
  then have k: "?k < length ?cs" using assms by auto
  have "distinct (take ?k ?cs @ drop ?k ?cs)" by (simp add: topology_cores_def)
  then have "?cs ! ?k \<notin> set (take ?k ?cs)"
    using k by (auto simp: Cons_nth_drop_Suc [symmetric])
  moreover have "?cs ! ?k \<in> set ?cs" using k by simp
  ultimately show ?thesis by (auto simp: big_cores_def Let_def topology_cores_def)
qed

subsection \<open>Properties\<close>

text \<open>C40: printing a CPU list and reading it back gives the sorted list: for a list already in
  ascending order, exactly the list that was printed.\<close>

theorem cpulist_roundtrip:
  assumes "cpus \<noteq> []"
  shows "parse_cpulist (cpulist cpus) = Some (sort cpus)"
proof -
  obtain c cs where cpus: "cpus = c # cs" using assms by (cases cpus) auto
  let ?runs = "cpu_runs c c cs"
  have runs: "\<forall>(a, b) \<in> set ?runs. a \<le> b" "concat (map (\<lambda>(a, b). [a..<b + 1]) ?runs) = cpus"
    using cpu_runs_cover [of c c cs] by (simp_all add: cpus)
  have "split_on CHR '','' (cpulist cpus) = map render_run ?runs"
    unfolding cpus cpulist_def list.case
    by (rule split_join) (auto simp: render_comma_free)
  moreover have "those (map parse_part (map render_run ?runs)) = Some (map (\<lambda>(a, b). [a..<b + 1]) ?runs)"
    unfolding map_map using runs(1) by (intro those_map_Some) (auto simp: parse_render)
  ultimately show ?thesis unfolding parse_cpulist_def by (simp only: option.case runs(2))
qed

theorem cpulist_roundtrip_witness: "parse_cpulist (cpulist [0, 1, 4, 5]) = Some [0, 1, 4, 5]"
  using cpulist_roundtrip [of "[0, 1, 4, 5]"] by simp

text \<open>The default partition splits the logical CPUs into two ascending lists without losing or
  repeating one, keeps SMT siblings on the same side, puts lower core ids on the big side, and with at
  least two physical cores leaves neither side empty.\<close>

theorem default_partition_spec:
  assumes "default_partition topo = (big, little)" and "2 \<le> card (set topo)"
  shows "set big \<union> set little = {0..<length topo} \<and> set big \<inter> set little = {}
    \<and> sorted_wrt (<) big \<and> sorted_wrt (<) little \<and> big \<noteq> [] \<and> little \<noteq> []
    \<and> list_all (\<lambda>b. list_all (\<lambda>l. topo ! b < topo ! l) little) big"
proof -
  have bl: "big = filter (\<lambda>c. topo ! c \<in> set (big_cores topo)) [0..<length topo]"
    "little = filter (\<lambda>c. topo ! c \<notin> set (big_cores topo)) [0..<length topo]"
    using assms(1) by (auto simp: default_partition_def Let_def)
  have ne: "topo \<noteq> []" using assms(2) by auto
  have "hd (topology_cores topo) \<in> set topo"
    using ne by (metis hd_in_set List.finite_set set_empty sorted_list_of_set.set_sorted_key_list_of_set topology_cores_def)
  then obtain i where "i < length topo" "topo ! i = hd (topology_cores topo)" by (auto simp: in_set_conv_nth)
  then have "i \<in> set big" using big_cores_nonempty [OF ne] by (simp add: bl)
  then have "big \<noteq> []" by auto
  moreover obtain j where "j < length topo" "topo ! j \<notin> set (big_cores topo)"
    using little_nonempty [OF assms(2)] by (auto simp: in_set_conv_nth)
  then have "j \<in> set little" by (simp add: bl)
  then have "little \<noteq> []" by auto
  moreover have "topo ! b < topo ! l" if "b \<in> set big" "l \<in> set little" for b l
    using big_cores_split [of "topo ! b" topo "topo ! l"] that by (auto simp: bl)
  moreover have "sorted_wrt (<) big" "sorted_wrt (<) little" by (simp_all add: bl sorted_wrt_filter)
  moreover have "set big \<union> set little = {0..<length topo}" "set big \<inter> set little = {}" by (auto simp: bl)
  ultimately show ?thesis by (simp add: list_all_iff)
qed

theorem default_partition_spec_witness:
  "set (fst (default_partition [0, 1, 2, 3, 0, 1, 2, 3])) \<inter> set (snd (default_partition [0, 1, 2, 3, 0, 1, 2, 3])) = {}"
  using default_partition_spec [of "[0, 1, 2, 3, 0, 1, 2, 3]", OF surjective_pairing]
  by (simp add: card_insert_if)

end
