(* ===== verification/Sampling.thy ===== *)
theory Sampling
  imports Prelude "HOL-Library.Multiset"
begin

text \<open>
  The two uses of Python's \<open>random\<close> in \<open>scripts/bench.py\<close> and \<open>scripts/analyze.py\<close>: shuffling a list
  and drawing a sample with replacement. The generator is a parameter: \<open>dr k n\<close> is the \<open>k\<close>-th draw
  since seeding, taken below \<open>n\<close>.
\<close>

subsection \<open>Shuffling\<close>

text \<open>\<open>random.shuffle\<close>: for \<open>i\<close> from the last index down to 1, exchange with an index drawn from the
  first \<open>i + 1\<close>; \<open>k\<close> is the number of draws made before.\<close>

fun shuffle_from :: "(nat \<Rightarrow> nat \<Rightarrow> nat) \<Rightarrow> nat \<Rightarrow> nat \<Rightarrow> 'a list \<Rightarrow> 'a list" where
  "shuffle_from dr k 0 xs = xs"
| "shuffle_from dr k (Suc i) xs =
     (let j = dr k (Suc i + 1) in shuffle_from dr (Suc k) i (xs[Suc i := xs ! j, j := xs ! Suc i]))"

definition shuffle_list :: "(nat \<Rightarrow> nat \<Rightarrow> nat) \<Rightarrow> nat \<Rightarrow> 'a list \<Rightarrow> 'a list" where
  "shuffle_list dr k xs = shuffle_from dr k (length xs - 1) xs"

definition draws_ok :: "(nat \<Rightarrow> nat \<Rightarrow> nat) \<Rightarrow> bool" where
  "draws_ok dr \<longleftrightarrow> (\<forall>k n. 0 < n \<longrightarrow> dr k n < n)"

lemma shuffle_from_mset: "draws_ok dr \<Longrightarrow> i < length xs \<Longrightarrow> mset (shuffle_from dr k i xs) = mset xs"
proof (induction i arbitrary: k xs)
  case (Suc i)
  define j where "j = dr k (Suc i + 1)"
  have "dr k (Suc i + 1) < Suc i + 1" using Suc.prems(1) unfolding draws_ok_def by blast
  then have j: "j < length xs" using Suc.prems(2) unfolding j_def by linarith
  have "mset (shuffle_from dr k (Suc i) xs) = mset (shuffle_from dr (Suc k) i (xs[Suc i := xs ! j, j := xs ! Suc i]))"
    by (simp add: Let_def j_def)
  also have "\<dots> = mset (xs[Suc i := xs ! j, j := xs ! Suc i])" using Suc by simp
  also have "\<dots> = mset xs" using j Suc.prems(2) by (rule mset_swap)
  finally show ?case .
qed simp

lemma shuffle_mset: "draws_ok dr \<Longrightarrow> mset (shuffle_list dr k xs) = mset xs"
  by (cases xs) (auto simp: shuffle_list_def shuffle_from_mset)

subsection \<open>Sampling with replacement\<close>

text \<open>\<open>rng.choices(g, k=len(g))\<close>, and that for every group in turn; the second component counts the draws.\<close>

definition choices :: "(nat \<Rightarrow> nat \<Rightarrow> nat) \<Rightarrow> nat \<Rightarrow> 'a list \<Rightarrow> 'a list" where
  "choices dr k g = map (\<lambda>i. g ! dr (k + i) (length g)) [0..<length g]"

fun resample :: "(nat \<Rightarrow> nat \<Rightarrow> nat) \<Rightarrow> nat \<Rightarrow> 'a list list \<Rightarrow> 'a list list \<times> nat" where
  "resample dr k [] = ([], k)"
| "resample dr k (g # gs) =
     (let (rs, k') = resample dr (k + length g) gs in (choices dr k g # rs, k'))"

lemma choices_length [simp]: "length (choices dr k g) = length g"
  by (simp add: choices_def)

lemma choices_in: "draws_ok dr \<Longrightarrow> set (choices dr k g) \<subseteq> set g"
proof
  fix x
  assume ok: "draws_ok dr" and "x \<in> set (choices dr k g)"
  then obtain i where "i < length g" "x = g ! dr (k + i) (length g)" by (auto simp: choices_def)
  moreover have "dr (k + i) (length g) < length g"
    using ok \<open>i < length g\<close> unfolding draws_ok_def by (metis gr_implies_not0 gr0I)
  ultimately show "x \<in> set g" by simp
qed

lemma resample_groups:
  "draws_ok dr \<Longrightarrow>
     list_all2 (\<lambda>r g. length r = length g \<and> set r \<subseteq> set g) (fst (resample dr k gs)) gs"
proof (induction gs arbitrary: k)
  case (Cons g gs)
  then show ?case using choices_in [OF Cons.prems] by (simp add: split_beta Let_def)
qed simp

end
