(* ===== verification/Session.thy ===== *)
theory Session
  imports Cpulist Json Sampling
begin

text \<open>
  The session driver of \<open>scripts/bench.py\<close>, class \<open>Bench\<close>: EPP control, cooldown, the four experiments,
  the run plan and \<open>go\<close> with its \<open>finally\<close>. A step takes the state of the machine and returns a value
  or an exception together with the state it leaves, so that what an exception leaves behind is
  visible. The machine around the program (sysfs, the sensor, the measurement tools as processes, the
  random number generator, the JSON decoder) is the record \<open>machine\<close>.
\<close>

subsection \<open>State and environment\<close>

datatype cmd =
    EnergyIdle string string real
  | EnergySpin string string string real
  | EnergyMake string string nat
  | MakeClean
  | MakeBuild nat

record proc =
  returncode :: int
  proc_stdout :: string
  proc_secs :: real

record run_record =
  rr_experiment :: string
  rr_arm :: string
  rr_factors :: "(string \<times> json) list"
  rr_rep :: nat
  rr_ok :: bool
  rr_start_temp :: "real option"
  rr_slots :: slots
  rr_notes :: string

record world =
  clock :: real
  epp :: "nat \<Rightarrow> string"
  files :: "string \<Rightarrow> run_record option"
  children :: "string list"
  draws :: nat
  trace :: "(cmd \<times> (nat \<Rightarrow> string)) list"

text \<open>
  \<open>trace\<close> is the history of the commands run, each with the EPP settings it ran under. A tool answers
  \<open>None\<close> when it cannot be started; \<open>pinger_stop\<close> and \<open>bls_stop\<close> are what \<open>communicate\<close> returns after
  SIGTERM, \<open>None\<close> when it times out.
\<close>

record machine =
  nr_cpus :: nat
  topology :: "int list"
  sensor :: "real \<Rightarrow> real option"
  epp_accepts :: "nat \<Rightarrow> string \<Rightarrow> bool"
  tool :: "cmd \<Rightarrow> world \<Rightarrow> proc option"
  can_spawn :: "string \<Rightarrow> bool"
  scx_state :: "real \<Rightarrow> string option"
  bls_dead :: "real \<Rightarrow> bool"
  pinger_stop :: "world \<Rightarrow> string option"
  bls_stop :: "world \<Rightarrow> string option"
  json_loads :: "string \<Rightarrow> json option"
  draw :: "nat \<Rightarrow> nat \<Rightarrow> nat"

record bench_args =
  experiment_arg :: string
  reps :: nat
  dur :: real
  big_arg :: string
  cool_to :: real
  cool_max :: real
  cool_margin :: real
  floor_probe :: real
  plan_only :: bool
  settle :: real
  allow_battery :: bool

record bench =
  b_args :: bench_args
  b_big :: "nat list"
  b_little :: "nat list"
  b_saved :: "(nat \<times> string) list"
  b_floor :: "real option"

subsection \<open>Steps\<close>

type_synonym 'a step = "world \<Rightarrow> (py_error + 'a) \<times> world"

definition step_return :: "'a \<Rightarrow> 'a step" where
  "step_return a = (\<lambda>w. (Inr a, w))"

definition step_raise :: "py_error \<Rightarrow> 'a step" where
  "step_raise e = (\<lambda>w. (Inl e, w))"

definition step_bind :: "'a step \<Rightarrow> ('a \<Rightarrow> 'b step) \<Rightarrow> 'b step" where
  "step_bind m f = (\<lambda>w. case m w of (Inl e, w') \<Rightarrow> (Inl e, w') | (Inr a, w') \<Rightarrow> f a w')"

definition step_then :: "'a step \<Rightarrow> 'b step \<Rightarrow> 'b step" where
  "step_then m n = step_bind m (\<lambda>_. n)"

definition step_finally :: "'a step \<Rightarrow> (world \<Rightarrow> world) \<Rightarrow> 'a step" where
  "step_finally m cleanup = (\<lambda>w. case m w of (r, w') \<Rightarrow> (r, cleanup w'))"

fun for_each :: "('a \<Rightarrow> unit step) \<Rightarrow> 'a list \<Rightarrow> unit step" where
  "for_each f [] = step_return ()"
| "for_each f (x # xs) = step_then (f x) (for_each f xs)"

subsection \<open>EPP\<close>

definition EPP_BIG :: string where "EPP_BIG = ''performance''"
definition EPP_LITTLE :: string where "EPP_LITTLE = ''power''"
definition EPP_FLAT :: string where "EPP_FLAT = ''balance_performance''"

definition write_epp :: "machine \<Rightarrow> nat \<Rightarrow> string \<Rightarrow> unit step" where
  "write_epp m cpu value = (\<lambda>w.
     if epp_accepts m cpu value then (Inr (), w\<lparr>epp := (epp w)(cpu := value)\<rparr>) else (Inl OSError, w))"

definition apply_epp :: "machine \<Rightarrow> (nat \<times> string) list \<Rightarrow> unit step" where
  "apply_epp m mapping = for_each (\<lambda>(cpu, value). write_epp m cpu value) mapping"

definition read_epp_all :: "machine \<Rightarrow> world \<Rightarrow> (nat \<times> string) list" where
  "read_epp_all m w = map (\<lambda>c. (c, epp w c)) [0..<nr_cpus m]"

definition uniform_epp :: "machine \<Rightarrow> string \<Rightarrow> (nat \<times> string) list" where
  "uniform_epp m value = map (\<lambda>c. (c, value)) [0..<nr_cpus m]"

definition partitioned_epp :: "bench \<Rightarrow> (nat \<times> string) list" where
  "partitioned_epp b = map (\<lambda>c. (c, EPP_BIG)) (b_big b) @ map (\<lambda>c. (c, EPP_LITTLE)) (b_little b)"

definition set_partitioned_epp :: "machine \<Rightarrow> bench \<Rightarrow> unit step" where
  "set_partitioned_epp m b = apply_epp m (partitioned_epp b)"

definition set_flat_epp :: "machine \<Rightarrow> string \<Rightarrow> unit step" where
  "set_flat_epp m value = apply_epp m (uniform_epp m value)"

text \<open>The loop of \<open>restore_epp\<close>, which swallows the \<open>OSError\<close> of a single CPU and goes on.\<close>

definition restore_epp :: "machine \<Rightarrow> bench \<Rightarrow> world \<Rightarrow> world" where
  "restore_epp m b w = fold (\<lambda>(cpu, value) w. snd (write_epp m cpu value w)) (b_saved b) w"

subsection \<open>Temperature\<close>

function floor_loop :: "(real \<Rightarrow> real option) \<Rightarrow> real \<Rightarrow> real \<Rightarrow> real list \<times> real" where
  "floor_loop sens endt now =
     (if now < endt then
        let (samples, t) = floor_loop sens endt (now + 1)
        in ((case sens now of Some c \<Rightarrow> c # samples | None \<Rightarrow> samples), t)
      else ([], now))"
  by pat_completeness auto
termination by (relation "measure (\<lambda>(sens, endt, now). nat \<lceil>endt - now\<rceil>)") (auto, linarith)

declare floor_loop.simps [simp del]

definition measure_idle_floor :: "machine \<Rightarrow> bench \<Rightarrow> world \<Rightarrow> real option \<times> world" where
  "measure_idle_floor m b w =
     (let (samples, t) = floor_loop (sensor m) (clock w + floor_probe (b_args b)) (clock w)
      in (if samples = [] then None else Some (list_min samples), w\<lparr>clock := t\<rparr>))"

definition cool_target :: "bench \<Rightarrow> real" where
  "cool_target b =
     (case b_floor b of None \<Rightarrow> cool_to (b_args b)
      | Some f \<Rightarrow> max (cool_to (b_args b)) (f + cool_margin (b_args b)))"

text \<open>The \<open>while\<close> of \<open>cooldown\<close>: the time at which it stops.\<close>

function cool_loop :: "(real \<Rightarrow> real option) \<Rightarrow> real \<Rightarrow> real \<Rightarrow> real \<Rightarrow> real" where
  "cool_loop sens target deadline now =
     (case sens now of None \<Rightarrow> now
      | Some t \<Rightarrow> if t > target \<and> now < deadline then cool_loop sens target deadline (now + 2) else now)"
  by pat_completeness auto
termination by (relation "measure (\<lambda>(sens, target, deadline, now). nat \<lceil>deadline - now\<rceil>)") (auto, linarith)

declare cool_loop.simps [simp del]

definition cooldown :: "machine \<Rightarrow> bench \<Rightarrow> real option step" where
  "cooldown m b = (\<lambda>w.
     let now = cool_loop (sensor m) (cool_target b) (clock w + cool_max (b_args b)) (clock w)
     in if settle (b_args b) < 0 then (Inl ValueError, w\<lparr>clock := now\<rparr>)
        else let t = now + settle (b_args b) in (Inr (sensor m t), w\<lparr>clock := t\<rparr>))"

subsection \<open>Running a tool and recording the run\<close>

definition run_cmd :: "machine \<Rightarrow> cmd \<Rightarrow> proc step" where
  "run_cmd m c = (\<lambda>w. case tool m c w of None \<Rightarrow> (Inl OSError, w)
     | Some p \<Rightarrow> (Inr p, w\<lparr>clock := clock w + proc_secs p, trace := trace w @ [(c, epp w)]\<rparr>))"

text \<open>\<open>{rep:02d}\<close> and the file names of a run.\<close>

definition pad2 :: "nat \<Rightarrow> string" where
  "pad2 n = (if n < 10 then CHR ''0'' # nat_str n else nat_str n)"

definition record_path :: "string \<Rightarrow> string \<Rightarrow> nat \<Rightarrow> string" where
  "record_path experiment arm rep = experiment @ CHR ''/'' # arm @ ''.rep'' @ pad2 rep @ ''.json''"

definition csv_path :: "string \<Rightarrow> string \<Rightarrow> nat \<Rightarrow> string" where
  "csv_path experiment arm rep = experiment @ CHR ''/'' # arm @ ''.rep'' @ pad2 rep @ ''.csv''"

text \<open>Formatting a value with \<open>.2f\<close>: the exception, if any. A missing key is formatted as NaN.\<close>

fun float_format_error :: "json option \<Rightarrow> py_error option" where
  "float_format_error (Some (JInt n)) = (if \<bar>n\<bar> \<ge> 2 ^ 1024 - 2 ^ 970 then Some OverflowError else None)"
| "float_format_error (Some (JStr _)) = Some ValueError"
| "float_format_error (Some JNull) = Some TypeError"
| "float_format_error (Some (JArr _)) = Some TypeError"
| "float_format_error (Some (JObj _)) = Some TypeError"
| "float_format_error _ = None"

fun jfind :: "json \<Rightarrow> string \<Rightarrow> json option" where
  "jfind (JObj kvs) k = map_of kvs k"
| "jfind _ k = None"

text \<open>The status line \<open>record\<close> prints after writing the file raises when an energy value is not a number.\<close>

definition status_error :: "slots \<Rightarrow> py_error option" where
  "status_error sl =
     (let e = (case sl_energy sl of Some obj \<Rightarrow> obj | None \<Rightarrow> JObj [])
      in case float_format_error (jfind e ''wall_s'') of Some err \<Rightarrow> Some err
         | None \<Rightarrow> float_format_error (jfind e ''pkg_j''))"

definition record_run ::
  "string \<Rightarrow> string \<Rightarrow> (string \<times> json) list \<Rightarrow> nat \<Rightarrow> slots \<Rightarrow> bool \<Rightarrow> real option \<Rightarrow> string \<Rightarrow> unit step" where
  "record_run experiment arm factors rep sl ok start_temp notes = (\<lambda>w.
     let rec = \<lparr>rr_experiment = experiment, rr_arm = arm, rr_factors = factors, rr_rep = rep, rr_ok = ok,
                rr_start_temp = start_temp, rr_slots = sl, rr_notes = notes\<rparr>;
         w' = w\<lparr>files := (files w)(record_path experiment arm rep \<mapsto> rec)\<rparr>
     in case status_error sl of Some e \<Rightarrow> (Inl e, w') | None \<Rightarrow> (Inr (), w'))"

text \<open>What \<open>e1_rail\<close>, \<open>e1b_poison\<close> and \<open>e2_coupling\<close> do for one arm once its EPP is set.\<close>

definition measured_run ::
  "machine \<Rightarrow> bench \<Rightarrow> string \<Rightarrow> string \<Rightarrow> cmd \<Rightarrow> (string \<times> json) list \<Rightarrow> string \<Rightarrow> nat \<Rightarrow> unit step" where
  "measured_run m b experiment arm c factors notes rep =
     step_bind (cooldown m b) (\<lambda>t.
     step_bind (run_cmd m c) (\<lambda>p.
       let sl = classify_json (collect_json (json_loads m) (proc_stdout p));
           ok = (returncode p = 0 \<and> sl_energy sl \<noteq> None)
       in record_run experiment arm factors rep sl ok t notes))"

subsection \<open>Experiments e1 and e1b\<close>

definition e1_arms :: "machine \<Rightarrow> bench \<Rightarrow> (string \<times> (nat \<times> string) list) list" where
  "e1_arms m b =
     [(''both-performance'', uniform_epp m EPP_BIG), (''both-power'', uniform_epp m EPP_LITTLE),
      (''both-balance'', uniform_epp m EPP_FLAT), (''partitioned'', partitioned_epp b)]"

definition e1_rail :: "machine \<Rightarrow> bench \<Rightarrow> nat \<Rightarrow> unit step" where
  "e1_rail m b rep =
     (case (b_big b, b_little b) of
        (probe_big # _, probe_little # _) \<Rightarrow>
          for_each (\<lambda>(name, mapping).
            step_then (apply_epp m mapping)
              (measured_run m b ''e1-rail'' name
                (EnergySpin (csv_path ''e1-rail'' name rep) name
                   (nat_str probe_big @ CHR '','' # nat_str probe_little) (dur (b_args b)))
                [(''epp'', JStr name), (''probe_big'', JInt (int probe_big)), (''probe_little'', JInt (int probe_little))]
                ''one spinner pinned to one CPU of each domain'' rep))
            (e1_arms m b)
      | _ \<Rightarrow> step_raise IndexError)"

definition e1b_arms :: "(string \<times> string) list" where
  "e1b_arms =
     [(''others-power'', EPP_LITTLE), (''others-balance'', EPP_FLAT),
      (''others-performance'', EPP_BIG), (''others-balance-power'', ''balance_power'')]"

definition poison_epp :: "machine \<Rightarrow> nat \<Rightarrow> string \<Rightarrow> (nat \<times> string) list" where
  "poison_epp m probe other =
     map (\<lambda>c. (c, other)) (filter (\<lambda>c. c \<noteq> probe) [0..<nr_cpus m]) @ [(probe, EPP_LITTLE)]"

definition e1b_poison :: "machine \<Rightarrow> bench \<Rightarrow> nat \<Rightarrow> unit step" where
  "e1b_poison m b rep =
     (case b_little b of
        [] \<Rightarrow> step_raise IndexError
      | probe # _ \<Rightarrow>
          for_each (\<lambda>(name, other).
            step_then (apply_epp m (poison_epp m probe other))
              (measured_run m b ''e1b-poison'' name
                (EnergySpin (csv_path ''e1b-poison'' name rep) name (nat_str probe) (dur (b_args b)))
                [(''probe_cpu'', JInt (int probe)), (''probe_epp'', JStr EPP_LITTLE), (''others_epp'', JStr other)]
                ''probe CPU held at EPP power; only idle CPUs vary'' rep))
            e1b_arms)"

subsection \<open>Experiment e2\<close>

definition e2_ks :: "bench \<Rightarrow> nat list" where
  "e2_ks b = filter (\<lambda>k. k \<le> length (b_little b)) (sorted_list_of_set {1, 2, length (b_little b)})"

definition e2_conditions :: "bench \<Rightarrow> (string \<times> string option) list" where
  "e2_conditions b =
     (''idle'', None)
     # concat (map (\<lambda>k. [(''little'' @ nat_str k, Some (cpulist (take k (b_little b)))),
                        (''big1+little'' @ nat_str k,
                         Some (cpulist (sort (take 1 (b_big b) @ take k (b_little b)))))]) (e2_ks b))
     @ [(''big1'', Some (cpulist (take 1 (b_big b))))]"

definition e2_run :: "machine \<Rightarrow> bench \<Rightarrow> nat \<Rightarrow> string \<Rightarrow> string \<times> string option \<Rightarrow> unit step" where
  "e2_run m b rep epp_name = (\<lambda>(cond, cpus).
     let arm = epp_name @ CHR ''.'' # cond;
         csv = csv_path ''e2-coupling'' arm rep;
         c = (case cpus of None \<Rightarrow> EnergyIdle csv arm (dur (b_args b))
              | Some l \<Rightarrow> EnergySpin csv arm l (dur (b_args b)))
     in measured_run m b ''e2-coupling'' arm c
          [(''epp'', JStr epp_name), (''condition'', JStr cond),
           (''cpus'', case cpus of None \<Rightarrow> JNull | Some l \<Rightarrow> JStr l)] [] rep)"

definition e2_coupling :: "machine \<Rightarrow> bench \<Rightarrow> nat \<Rightarrow> unit step" where
  "e2_coupling m b rep =
     for_each (\<lambda>(epp_name, mapping).
       step_then (apply_epp m mapping) (for_each (e2_run m b rep epp_name) (e2_conditions b)))
       [(''partitioned'', partitioned_epp b), (''flat'', uniform_epp m EPP_FLAT)]"

subsection \<open>Experiment e3\<close>

record e3_factors =
  f_scx :: bool
  f_partitioned :: bool
  f_strict :: bool

definition E3_ARMS :: "(string \<times> e3_factors) list" where
  "E3_ARMS =
     [(''eevdf-flat'', \<lparr>f_scx = False, f_partitioned = False, f_strict = False\<rparr>),
      (''eevdf-partitioned'', \<lparr>f_scx = False, f_partitioned = True, f_strict = False\<rparr>),
      (''scx-flat'', \<lparr>f_scx = True, f_partitioned = False, f_strict = False\<rparr>),
      (''scx-partitioned'', \<lparr>f_scx = True, f_partitioned = True, f_strict = False\<rparr>),
      (''scx-partitioned-strict'', \<lparr>f_scx = True, f_partitioned = True, f_strict = True\<rparr>)]"

definition factors_json :: "e3_factors \<Rightarrow> (string \<times> json) list" where
  "factors_json f =
     [(''sched'', JStr (if f_scx f then ''scx'' else ''eevdf'')),
      (''epp'', JStr (if f_partitioned f then ''partitioned'' else ''flat'')),
      (''strict'', JBool (f_strict f))]"

definition scx_loaded :: "string option \<Rightarrow> bool" where
  "scx_loaded state = (case state of None \<Rightarrow> False | Some s \<Rightarrow> s \<noteq> [] \<and> s \<noteq> ''disabled'' \<and> s \<noteq> ''none'')"

text \<open>\<open>_wait_attached\<close>: whether it attached, and the time.\<close>

function attach_loop :: "(real \<Rightarrow> bool) \<Rightarrow> (real \<Rightarrow> string option) \<Rightarrow> real \<Rightarrow> real \<Rightarrow> bool \<times> real" where
  "attach_loop dead state endt now =
     (if now < endt then
        if dead now then (False, now)
        else if scx_loaded (state now) then (True, now + 1 / 2)
        else attach_loop dead state endt (now + 1 / 5)
      else (False, now))"
  by pat_completeness auto
termination
  by (relation "measure (\<lambda>(dead, state, endt, now). nat \<lceil>(endt - now) * 5\<rceil>)") (auto simp: algebra_simps, linarith)

declare attach_loop.simps [simp del]

definition spawn :: "machine \<Rightarrow> string \<Rightarrow> unit step" where
  "spawn m name = (\<lambda>w. if can_spawn m name then (Inr (), w\<lparr>children := name # children w\<rparr>) else (Inl OSError, w))"

definition reap :: "string \<Rightarrow> world \<Rightarrow> world" where
  "reap name w = w\<lparr>children := remove1 name (children w)\<rparr>"

definition json_zero :: "json \<Rightarrow> bool" where
  "json_zero v = (v = JInt 0 \<or> v = JFloat (Fin 0) \<or> v = JBool False)"

text \<open>From the start of the pinger on: the build is measured, the pinger is stopped, then the
  scheduler. A pinger that does not stop within its timeout raises.\<close>

definition e3_measure :: "machine \<Rightarrow> bench \<Rightarrow> string \<Rightarrow> e3_factors \<Rightarrow> nat \<Rightarrow> real option \<Rightarrow> unit step" where
  "e3_measure m b arm f rep t =
     step_then (spawn m ''pinger'')
     (step_bind (run_cmd m (EnergyMake (csv_path ''e3-ab'' arm rep) arm (nr_cpus m))) (\<lambda>p w.
        case pinger_stop m w of
          None \<Rightarrow> (Inl TimeoutExpired, w)
        | Some ping_out \<Rightarrow>
            let w1 = reap ''pinger'' w;
                bls_out = (if f_scx f then (case bls_stop m w1 of None \<Rightarrow> [] | Some out \<Rightarrow> out) else []);
                w2 = (if f_scx f then reap ''bls'' w1 else w1);
                sl = classify_json (collect_json (json_loads m)
                       (proc_stdout p @ CHR 0x0A # ping_out @ CHR 0x0A # bls_out));
                ok = (returncode p = 0 \<and> sl_pinger sl \<noteq> None
                      \<and> (case sl_energy sl of None \<Rightarrow> False | Some e \<Rightarrow> json_zero (jget e ''exit_code'')))
            in record_run ''e3-ab'' arm (factors_json f) rep sl ok t [] w2))"

definition e3_one :: "machine \<Rightarrow> bench \<Rightarrow> nat \<Rightarrow> string \<times> e3_factors \<Rightarrow> unit step" where
  "e3_one m b rep = (\<lambda>(arm, f).
     step_then (if f_partitioned f then set_partitioned_epp m b else set_flat_epp m EPP_FLAT)
     (step_then (step_bind (run_cmd m MakeClean) (\<lambda>_. step_return ()))
     (step_bind (cooldown m b) (\<lambda>t.
        if f_scx f then
          step_then (spawn m ''bls'') (\<lambda>w.
            case attach_loop (bls_dead m) (scx_state m) (clock w + 10) (clock w) of
              (True, now) \<Rightarrow> e3_measure m b arm f rep t (w\<lparr>clock := now\<rparr>)
            | (False, now) \<Rightarrow>
                record_run ''e3-ab'' arm (factors_json f) rep no_slots False t ''scheduler failed to attach''
                  (reap ''bls'' (w\<lparr>clock := now\<rparr>)))
        else e3_measure m b arm f rep t))))"

definition e3_rep :: "machine \<Rightarrow> bench \<Rightarrow> nat \<Rightarrow> unit step" where
  "e3_rep m b rep = (\<lambda>w.
     for_each (e3_one m b rep) (shuffle_list (draw m) (draws w) E3_ARMS)
       (w\<lparr>draws := draws w + (length E3_ARMS - 1)\<rparr>))"

subsection \<open>The session\<close>

definition selected :: "bench \<Rightarrow> string \<Rightarrow> bool" where
  "selected b name \<longleftrightarrow> experiment_arg (b_args b) = name \<or> experiment_arg (b_args b) = ''all''"

definition plan :: "bench \<Rightarrow> (string \<times> nat \<times> real) list" where
  "plan b =
     (if selected b ''e1-rail'' then [(''e1-rail'', 4, dur (b_args b))] else [])
     @ (if selected b ''e1b-poison'' then [(''e1b-poison'', 4, dur (b_args b))] else [])
     @ (if selected b ''e2-coupling'' then [(''e2-coupling'', 2 * length (e2_conditions b), dur (b_args b))] else [])
     @ (if selected b ''e3-ab'' then [(''e3-ab'', length E3_ARMS, 30)] else [])"

text \<open>The totals \<open>print_plan\<close> prints: runs, and the lower and upper bound in seconds.\<close>

definition plan_totals :: "bench \<Rightarrow> nat \<times> real \<times> real" where
  "plan_totals b =
     (sum_list (map (\<lambda>(name, arms, secs). arms * reps (b_args b)) (plan b)),
      sum_list (map (\<lambda>(name, arms, secs). real (arms * reps (b_args b)) * (secs + settle (b_args b))) (plan b)),
      sum_list (map (\<lambda>(name, arms, secs).
        real (arms * reps (b_args b)) * (secs + settle (b_args b) + cool_max (b_args b))) (plan b)))"

definition run_if :: "bool \<Rightarrow> unit step \<Rightarrow> unit step" where
  "run_if c m = (if c then m else step_return ())"

definition experiments :: "machine \<Rightarrow> bench \<Rightarrow> unit step" where
  "experiments m b =
     step_then (run_if (selected b ''e1-rail'') (for_each (e1_rail m b) [0..<reps (b_args b)]))
     (step_then (run_if (selected b ''e1b-poison'') (for_each (e1b_poison m b) [0..<reps (b_args b)]))
     (step_then (run_if (selected b ''e2-coupling'') (for_each (e2_coupling m b) [0..<reps (b_args b)]))
     (run_if (selected b ''e3-ab'') (for_each (e3_rep m b) [0..<reps (b_args b)]))))"

definition warmup :: "machine \<Rightarrow> unit step" where
  "warmup m =
     for_each (\<lambda>c. step_bind (run_cmd m c) (\<lambda>_. step_return ())) [MakeClean, MakeBuild (nr_cpus m), MakeClean]"

text \<open>\<open>go\<close>, given whether the preflight found problems.\<close>

definition go :: "machine \<Rightarrow> bench \<Rightarrow> bool \<Rightarrow> int step" where
  "go m b0 problems = (\<lambda>w.
     if problems \<and> \<not> plan_only (b_args b0) then (Inr 1, w)
     else let (fl, w1) = measure_idle_floor m b0 w; b = b0\<lparr>b_floor := fl\<rparr> in
       if plan_only (b_args b) then (Inr 0, w1)
       else step_then (warmup m)
              (step_then (step_finally (experiments m b) (restore_epp m b)) (step_return 0)) w1)"

text \<open>\<open>Bench(args).go()\<close>: the constructor reads the partition and saves the EPP settings.\<close>

definition bench_main :: "machine \<Rightarrow> bench_args \<Rightarrow> bool \<Rightarrow> int step" where
  "bench_main m a problems = (\<lambda>w.
     case bench_partition (topology m) (big_arg a) of
       None \<Rightarrow> (Inl ValueError, w)
     | Some (big, little) \<Rightarrow>
         go m \<lparr>b_args = a, b_big = big, b_little = little, b_saved = read_epp_all m w, b_floor = None\<rparr>
           problems w)"

end
