(* ===== verification/SessionFacts.thy ===== *)
theory SessionFacts
  imports Session
begin

text \<open>
  What a session guarantees. A relation between the states before and after a step that is reflexive
  and transitive is kept by every composition of steps that keep it (\<open>step_relation\<close>); if the
  primitive operations of the driver keep it, so does a whole session (\<open>session_relation\<close>), however
  it ends. The interpretations are the relations the properties need: which EPP settings can change,
  that no stored record is lost, and under which EPP settings a command runs.
\<close>

subsection \<open>Normal returns\<close>

lemma bind_Inr: "step_bind s f w = (Inr b, w') \<longleftrightarrow> (\<exists>a v. s w = (Inr a, v) \<and> f a v = (Inr b, w'))"
  by (auto simp: step_bind_def split: prod.splits sum.splits)

lemma then_Inr: "step_then s t w = (Inr b, w') \<longleftrightarrow> (\<exists>a v. s w = (Inr a, v) \<and> t v = (Inr b, w'))"
  by (simp add: step_then_def bind_Inr)

subsection \<open>Relations kept by steps\<close>

definition keeps :: "(world \<Rightarrow> world \<Rightarrow> bool) \<Rightarrow> 'a step \<Rightarrow> bool" where
  "keeps R s \<longleftrightarrow> (\<forall>w. R w (snd (s w)))"

locale step_relation =
  fixes R :: "world \<Rightarrow> world \<Rightarrow> bool"
  assumes refl: "R w w" and trans: "R u v \<Longrightarrow> R v w \<Longrightarrow> R u w"
begin

lemma keeps_return [simp]: "keeps R (step_return a)"
  by (simp add: keeps_def step_return_def refl)

lemma keeps_raise [simp]: "keeps R (step_raise e)"
  by (simp add: keeps_def step_raise_def refl)

lemma keeps_bind: "keeps R s \<Longrightarrow> (\<And>a. keeps R (f a)) \<Longrightarrow> keeps R (step_bind s f)"
  unfolding keeps_def step_bind_def
  by (auto split: prod.splits sum.splits) (metis snd_conv trans)+

lemma keeps_then: "keeps R s \<Longrightarrow> keeps R t \<Longrightarrow> keeps R (step_then s t)"
  by (simp add: step_then_def keeps_bind)

lemma keeps_for_each: "(\<And>x. x \<in> set xs \<Longrightarrow> keeps R (f x)) \<Longrightarrow> keeps R (for_each f xs)"
  by (induction xs) (auto intro: keeps_then)

lemma keeps_if: "keeps R s \<Longrightarrow> keeps R (run_if c s)"
  by (simp add: run_if_def)

lemma keeps_after: "R w v \<Longrightarrow> keeps R s \<Longrightarrow> R w (snd (s v))"
  using trans by (auto simp: keeps_def)

end

text \<open>What a tool printed is what the decoder made of its lines.\<close>

definition decoded :: "machine \<Rightarrow> slots \<Rightarrow> bool" where
  "decoded m sl \<longleftrightarrow> (\<forall>k v. slot_value k sl = Some v \<longrightarrow> (\<exists>l. json_loads m l = Some v))"

lemma decoded_none: "decoded m no_slots"
proof -
  have "slot_value k no_slots = None" for k by (cases k) (simp_all add: no_slots_def)
  then show ?thesis by (simp add: decoded_def)
qed

lemma decoded_output: "decoded m (classify_json (collect_json (json_loads m) out))"
proof -
  have "\<exists>l. json_loads m l = Some v" if "slot_value k (classify_json (collect_json (json_loads m) out)) = Some v" for k v
  proof -
    let ?mine = "filter (\<lambda>obj. slot_of obj = Some k) (collect_json (json_loads m) out)"
    from that have "?mine \<noteq> []" "v = last ?mine" by (auto simp: classify_json_last Let_def split: if_splits)
    then have "v \<in> set ?mine" using last_in_set by blast
    then show ?thesis by (auto simp: collect_json_def map_filter_def)
  qed
  then show ?thesis by (simp add: decoded_def)
qed

text \<open>A relation the primitive operations keep, whatever the machine does.\<close>

locale quiet_relation = step_relation +
  fixes m :: machine
  assumes clock: "R w (w\<lparr>clock := t\<rparr>)"
    and draws: "R w (w\<lparr>draws := n\<rparr>)"
    and children: "R w (w\<lparr>children := cs\<rparr>)"
    and ran: "R w (w\<lparr>clock := t, trace := trace w @ [(c, epp w)]\<rparr>)"
    and stored: "CHR ''/'' \<notin> set (rr_experiment rec) \<Longrightarrow> decoded m (rr_slots rec) \<Longrightarrow>
      R w (w\<lparr>files := (files w)(record_path (rr_experiment rec) (rr_arm rec) (rr_rep rec) \<mapsto> rec)\<rparr>)"
begin

lemma keeps_cmd: "keeps R (run_cmd m c)"
  by (auto simp: keeps_def run_cmd_def refl ran split: option.splits)

lemma keeps_cooldown: "keeps R (cooldown m b)"
  by (auto simp: keeps_def cooldown_def Let_def clock)

lemma keeps_record: "CHR ''/'' \<notin> set e \<Longrightarrow> decoded m sl \<Longrightarrow> keeps R (record_run e a f rep sl ok t n)"
proof -
  assume e: "CHR ''/'' \<notin> set e" "decoded m sl"
  have "R w (w\<lparr>files := (files w)(record_path e a rep \<mapsto> \<lparr>rr_experiment = e, rr_arm = a, rr_factors = f, rr_rep = rep,
      rr_ok = ok, rr_start_temp = t, rr_slots = sl, rr_notes = n\<rparr>)\<rparr>)" for w
    using stored [of "\<lparr>rr_experiment = e, rr_arm = a, rr_factors = f, rr_rep = rep, rr_ok = ok, rr_start_temp = t,
        rr_slots = sl, rr_notes = n\<rparr>" w] e by simp
  then show ?thesis by (auto simp: keeps_def record_run_def Let_def split: option.splits)
qed

lemma keeps_spawn: "keeps R (spawn m name)"
  by (auto simp: keeps_def spawn_def refl children)

lemma reap: "R w (reap name w)"
  by (simp add: reap_def children)

lemma keeps_measured: "CHR ''/'' \<notin> set e \<Longrightarrow> keeps R (measured_run m b e a c f n rep)"
  unfolding measured_run_def Let_def by (intro keeps_bind keeps_cooldown keeps_cmd keeps_record decoded_output)

lemma keeps_warmup: "keeps R (warmup m)"
  unfolding warmup_def by (intro keeps_for_each keeps_bind keeps_cmd keeps_return)

lemma keeps_e3_measure: "keeps R (e3_measure m b arm f rep t)"
proof -
  have "keeps R (\<lambda>w. case pinger_stop m w of None \<Rightarrow> (Inl TimeoutExpired, w)
      | Some ping_out \<Rightarrow>
          let w1 = reap ''pinger'' w;
              bls_out = (if f_scx f then (case bls_stop m w1 of None \<Rightarrow> [] | Some out \<Rightarrow> out) else []);
              w2 = (if f_scx f then reap ''bls'' w1 else w1);
              sl = classify_json (collect_json (json_loads m)
                     (proc_stdout p @ CHR 0x0A # ping_out @ CHR 0x0A # bls_out));
              ok = (returncode p = 0 \<and> sl_pinger sl \<noteq> None
                    \<and> (case sl_energy sl of None \<Rightarrow> False | Some e \<Rightarrow> json_zero (jget e ''exit_code'')))
          in record_run ''e3-ab'' arm (factors_json f) rep sl ok t [] w2)" (is "keeps R ?s") for p
    unfolding keeps_def
  proof
    fix w :: world
    have "R w (reap ''bls'' (reap ''pinger'' w))" using reap trans by blast
    then show "R w (snd (?s w))"
      by (auto simp: Let_def refl intro: keeps_after [OF reap keeps_record] keeps_after [OF _ keeps_record] decoded_output
          split: option.splits)
  qed
  then show ?thesis
    unfolding e3_measure_def by (intro keeps_then keeps_bind keeps_spawn keeps_cmd)
qed

lemma keeps_e3_tail:
  "keeps R (step_then (step_bind (run_cmd m MakeClean) (\<lambda>_. step_return ()))
     (step_bind (cooldown m b) (\<lambda>t.
        if f_scx f then
          step_then (spawn m ''bls'') (\<lambda>w.
            case attach_loop (bls_dead m) (scx_state m) (clock w + 10) (clock w) of
              (True, now) \<Rightarrow> e3_measure m b arm f rep t (w\<lparr>clock := now\<rparr>)
            | (False, now) \<Rightarrow>
                record_run ''e3-ab'' arm (factors_json f) rep no_slots False t ''scheduler failed to attach''
                  (reap ''bls'' (w\<lparr>clock := now\<rparr>)))
        else e3_measure m b arm f rep t)))"
proof -
  have "keeps R (\<lambda>w.
      case attach_loop (bls_dead m) (scx_state m) (clock w + 10) (clock w) of
        (True, now) \<Rightarrow> e3_measure m b arm f rep t (w\<lparr>clock := now\<rparr>)
      | (False, now) \<Rightarrow>
          record_run ''e3-ab'' arm (factors_json f) rep no_slots False t ''scheduler failed to attach''
            (reap ''bls'' (w\<lparr>clock := now\<rparr>)))" (is "keeps R ?s") for t
    unfolding keeps_def
  proof
    fix w :: world
    obtain ok now where a: "attach_loop (bls_dead m) (scx_state m) (clock w + 10) (clock w) = (ok, now)"
      by (rule prod.exhaust)
    have late: "R w (w\<lparr>clock := now\<rparr>)" "R w (reap ''bls'' (w\<lparr>clock := now\<rparr>))"
      using clock reap trans by blast+
    show "R w (snd (?s w))"
      using keeps_after [OF late(1) keeps_e3_measure] keeps_after [OF late(2) keeps_record]
      by (cases ok) (simp_all add: a decoded_none)
  qed
  then show ?thesis
    by (intro keeps_then keeps_bind keeps_cmd keeps_cooldown keeps_return)
      (auto intro: keeps_then keeps_spawn keeps_e3_measure)
qed

end

text \<open>If writing an EPP setting keeps the relation too, every experiment does.\<close>

locale session_relation = quiet_relation +
  assumes epp_write: "keeps R (write_epp m c v)"
begin

lemma keeps_apply: "keeps R (apply_epp m mapping)"
  unfolding apply_epp_def by (intro keeps_for_each) (auto intro: epp_write split: prod.splits)

lemma keeps_e1: "keeps R (e1_rail m b rep)"
  unfolding e1_rail_def
  by (auto intro!: keeps_for_each keeps_then keeps_apply keeps_measured split: list.splits prod.splits)

lemma keeps_e1b: "keeps R (e1b_poison m b rep)"
  unfolding e1b_poison_def
  by (auto intro!: keeps_for_each keeps_then keeps_apply keeps_measured split: list.splits prod.splits)

lemma keeps_e2: "keeps R (e2_coupling m b rep)"
  unfolding e2_coupling_def e2_run_def Let_def
  by (auto intro!: keeps_for_each keeps_then keeps_apply keeps_measured split: prod.splits)

lemma keeps_e3: "keeps R (e3_one m b rep af)"
  by (auto simp: e3_one_def set_partitioned_epp_def set_flat_epp_def
      intro!: keeps_then [OF _ keeps_e3_tail] keeps_apply split: prod.splits)

lemma keeps_e3_rep: "keeps R (e3_rep m b rep)"
proof -
  have "keeps R (for_each (e3_one m b rep) xs)" for xs by (intro keeps_for_each keeps_e3)
  from keeps_after [OF draws this] show ?thesis by (simp add: keeps_def e3_rep_def)
qed

lemma keeps_experiments: "keeps R (experiments m b)"
  unfolding experiments_def
  by (intro keeps_then keeps_if keeps_for_each keeps_e1 keeps_e1b keeps_e2 keeps_e3_rep)

lemma restored: "R w (restore_epp m b w)"
proof -
  have "R w (fold (\<lambda>(cpu, value) w. snd (write_epp m cpu value w)) saved w)" for saved w
  proof (induction saved arbitrary: w)
    case (Cons cv saved)
    obtain c v where cv: "cv = (c, v)" by (rule prod.exhaust)
    have "R w (snd (write_epp m c v w))" using epp_write by (simp add: keeps_def)
    from trans [OF this Cons.IH] show ?case by (simp add: cv)
  qed (simp add: refl)
  then show ?thesis by (simp add: restore_epp_def)
qed

lemma keeps_finally: "keeps R s \<Longrightarrow> keeps R (step_finally s (restore_epp m b))"
  unfolding keeps_def
proof
  fix w
  assume "\<forall>w. R w (snd (s w))"
  then have "R w (restore_epp m b (snd (s w)))" using restored trans by blast
  then show "R w (snd (step_finally s (restore_epp m b) w))" by (simp add: step_finally_def case_prod_beta')
qed

lemma keeps_go: "keeps R (go m b problems)"
  unfolding keeps_def
proof
  fix w
  define b' where "b' = b\<lparr>b_floor := fst (measure_idle_floor m b w)\<rparr>"
  have "R w (snd (measure_idle_floor m b w))" by (simp add: measure_idle_floor_def clock split: prod.splits)
  moreover have "keeps R (step_then (warmup m) (step_then (step_finally (experiments m b') (restore_epp m b')) (step_return (0 :: int))))"
    by (intro keeps_then keeps_warmup keeps_finally keeps_experiments keeps_return)
  ultimately show "R w (snd (go m b problems w))"
    using keeps_after refl by (auto simp: go_def Let_def b'_def split: prod.splits)
qed

lemma keeps_main: "keeps R (bench_main m a problems)"
  using keeps_go refl by (auto simp: keeps_def bench_main_def split: option.split)

end

subsection \<open>The relations of the properties\<close>

text \<open>Only settings the machine accepts can change.\<close>

definition epp_frame :: "machine \<Rightarrow> world \<Rightarrow> world \<Rightarrow> bool" where
  "epp_frame m w w' \<longleftrightarrow> (\<forall>c. (\<forall>v. \<not> epp_accepts m c v) \<longrightarrow> epp w' c = epp w c)"

interpretation frame: session_relation "epp_frame m" m for m
  by unfold_locales (auto simp: epp_frame_def keeps_def write_epp_def)

text \<open>No stored record disappears.\<close>

definition files_grow :: "world \<Rightarrow> world \<Rightarrow> bool" where
  "files_grow w w' \<longleftrightarrow> dom (files w) \<subseteq> dom (files w')"

interpretation grow: session_relation files_grow m for m
  by unfold_locales (auto simp: files_grow_def keeps_def write_epp_def)

text \<open>A record lies under the path made of its experiment, arm and repetition, and holds what the tools printed.\<close>

definition well_filed :: "machine \<Rightarrow> world \<Rightarrow> world \<Rightarrow> bool" where
  "well_filed m w w' \<longleftrightarrow>
     (\<forall>p rec. files w' p = Some rec \<longrightarrow>
        files w p = Some rec
        \<or> (p = record_path (rr_experiment rec) (rr_arm rec) (rr_rep rec) \<and> CHR ''/'' \<notin> set (rr_experiment rec)
            \<and> decoded m (rr_slots rec)))"

interpretation filed: session_relation "well_filed m" m for m
proof unfold_locales
  fix u v w
  assume "well_filed m u v" "well_filed m v w"
  then show "well_filed m u w" unfolding well_filed_def by metis
qed (auto simp: well_filed_def keeps_def write_epp_def split: if_splits)

text \<open>The settings stay as they are, and the commands run meanwhile ran under them.\<close>

definition steady :: "world \<Rightarrow> world \<Rightarrow> bool" where
  "steady w w' \<longleftrightarrow> epp w' = epp w \<and> (\<exists>new. trace w' = trace w @ new \<and> list_all (\<lambda>(c, s). s = epp w) new)"

interpretation steady: quiet_relation steady m for m
proof unfold_locales
  fix u v w
  assume "steady u v" "steady v w"
  then obtain n1 n2 where "trace v = trace u @ n1" "list_all (\<lambda>(c, s). s = epp u) n1" "epp v = epp u"
      "trace w = trace v @ n2" "list_all (\<lambda>(c, s). s = epp u) n2" "epp w = epp u"
    by (auto simp: steady_def)
  then show "steady u w" by (auto simp: steady_def intro!: exI [of _ "n1 @ n2"])
qed (auto simp: steady_def)

subsection \<open>Restoring EPP\<close>

lemma restore_cons:
  "restore_epp m (b\<lparr>b_saved := (c, v) # cvs\<rparr>) w = restore_epp m (b\<lparr>b_saved := cvs\<rparr>) (snd (write_epp m c v w))"
  by (simp add: restore_epp_def)

lemma restore_epp_eq:
  "distinct (map fst saved) \<Longrightarrow>
     epp (restore_epp m (b\<lparr>b_saved := saved\<rparr>) w) c =
       (case map_of saved c of Some v \<Rightarrow> if epp_accepts m c v then v else epp w c | None \<Rightarrow> epp w c)"
proof (induction saved arbitrary: w)
  case (Cons cv saved)
  obtain d v where cv: "cv = (d, v)" by (rule prod.exhaust)
  from Cons have none: "map_of saved d = None" by (simp add: cv map_of_eq_None_iff)
  show ?case
    using Cons.IH Cons.prems none
    by (cases "c = d") (auto simp: cv restore_cons write_epp_def split: option.splits)
qed (simp add: restore_epp_def)

lemma saved_map: "map_of (read_epp_all m w) c = (if c < nr_cpus m then Some (epp w c) else None)"
  by (auto simp: read_epp_all_def map_of_map_restrict [of "epp w"] comp_def map_of_eq_None_iff
      intro!: map_of_is_SomeI simp: inj_on_def distinct_map)

lemma go_restores:
  assumes acc: "\<And>c v. epp_accepts m c v \<Longrightarrow> c < nr_cpus m" "\<And>c. c < nr_cpus m \<Longrightarrow> epp_accepts m c (epp w c)"
    and saved: "b_saved b = read_epp_all m w"
  shows "epp (snd (go m b problems w)) = epp w"
proof -
  define b' where "b' = b\<lparr>b_floor := fst (measure_idle_floor m b w)\<rparr>"
  define w1 where "w1 = snd (measure_idle_floor m b w)"
  have w1: "epp w1 = epp w" by (simp add: w1_def measure_idle_floor_def Let_def split: prod.splits)
  obtain r2 w2 where w2: "warmup m w1 = (r2, w2)" by (rule prod.exhaust)
  have "steady w1 w2" using steady.keeps_warmup [of m] w2 by (auto simp: keeps_def dest: spec [of _ w1])
  then have e2: "epp w2 = epp w" using w1 by (simp add: steady_def)
  obtain r3 w3 where w3: "experiments m b' w2 = (r3, w3)" by (rule prod.exhaust)
  have fr: "epp_frame m w2 w3" using frame.keeps_experiments [of m b'] w3 by (auto simp: keeps_def dest: spec [of _ w2])
  have "epp (restore_epp m b' w3) = epp w"
  proof
    fix c
    have "restore_epp m b' w3 = restore_epp m (b'\<lparr>b_saved := read_epp_all m w\<rparr>) w3"
      using saved by (simp add: restore_epp_def b'_def)
    moreover have d: "distinct (map fst (read_epp_all m w))" by (simp add: read_epp_all_def comp_def)
    ultimately have "epp (restore_epp m b' w3) c = (if c < nr_cpus m then epp w c else epp w3 c)"
      using acc(2) [of c] by (simp add: restore_epp_eq [OF d] saved_map)
    also have "\<dots> = epp w c" using fr acc(1) e2 by (auto simp: epp_frame_def)
    finally show "epp (restore_epp m b' w3) c = epp w c" .
  qed
  then show ?thesis
    using w1 e2 w2 w3
    by (auto simp: go_def Let_def step_then_def step_bind_def step_finally_def step_return_def
        b'_def w1_def split: prod.splits sum.splits)
qed

subsection \<open>Applying EPP\<close>

lemma apply_epp_spec:
  "apply_epp m mapping w = (r, w') \<Longrightarrow>
     trace w' = trace w \<and> clock w' = clock w \<and> children w' = children w \<and> files w' = files w
     \<and> (\<forall>c. c \<notin> fst ` set mapping \<longrightarrow> epp w' c = epp w c)
     \<and> (r = Inr () \<longrightarrow> distinct (map fst mapping) \<longrightarrow> (\<forall>(c, v) \<in> set mapping. epp w' c = v))"
proof (induction mapping arbitrary: w)
  case (Cons cv mapping)
  obtain d v where cv: "cv = (d, v)" by (rule prod.exhaust)
  show ?case
  proof (cases "epp_accepts m d v")
    case True
    let ?w1 = "w\<lparr>epp := (epp w)(d := v)\<rparr>"
    have "apply_epp m mapping ?w1 = (r, w')"
      using Cons.prems True by (simp add: apply_epp_def cv step_then_def step_bind_def write_epp_def)
    from Cons.IH [OF this] show ?thesis by (auto simp: cv)
  next
    case False
    then show ?thesis using Cons.prems
      by (auto simp: apply_epp_def cv step_then_def step_bind_def write_epp_def)
  qed
qed (auto simp: apply_epp_def step_return_def)

lemma apply_epp_accepted:
  "list_all (\<lambda>(c, v). epp_accepts m c v) mapping \<Longrightarrow> \<exists>w'. apply_epp m mapping w = (Inr (), w')"
  by (induction mapping arbitrary: w)
    (auto simp: apply_epp_def step_return_def step_then_def step_bind_def write_epp_def)

definition arm_epp :: "machine \<Rightarrow> bench \<Rightarrow> e3_factors \<Rightarrow> (nat \<times> string) list" where
  "arm_epp m b f = (if f_partitioned f then partitioned_epp b else uniform_epp m EPP_FLAT)"

lemma arm_epp_all:
  "list_all (\<lambda>(cpu, v). s cpu = v) (arm_epp m b f) \<longleftrightarrow>
     (if f_partitioned f
      then list_all (\<lambda>cpu. s cpu = EPP_BIG) (b_big b) \<and> list_all (\<lambda>cpu. s cpu = EPP_LITTLE) (b_little b)
      else list_all (\<lambda>cpu. s cpu = EPP_FLAT) [0..<nr_cpus m])"
  by (simp add: arm_epp_def partitioned_epp_def uniform_epp_def list.pred_map comp_def)

lemma e3_one_steady:
  assumes "e3_one m b rep (arm, f) w = (r, w')" and "distinct (map fst (arm_epp m b f))"
  shows "\<exists>new. trace w' = trace w @ new \<and> list_all (\<lambda>(c, s). list_all (\<lambda>(cpu, v). s cpu = v) (arm_epp m b f)) new"
proof -
  have set_eq: "(if f_partitioned f then set_partitioned_epp m b else set_flat_epp m EPP_FLAT) = apply_epp m (arm_epp m b f)"
    by (simp add: set_partitioned_epp_def set_flat_epp_def arm_epp_def)
  obtain r1 w1 where a: "apply_epp m (arm_epp m b f) w = (r1, w1)" by (rule prod.exhaust)
  note spec = apply_epp_spec [OF a]
  show ?thesis
  proof (cases r1)
    case (Inl e)
    then show ?thesis using assms(1) spec a
      by (auto simp: e3_one_def set_eq step_then_def step_bind_def intro!: exI [of _ "[]"])
  next
    case (Inr u)
    have "steady w1 w'"
      using steady.keeps_e3_tail [of m b f arm rep, unfolded keeps_def, rule_format, of w1] assms(1) a Inr
      by (simp add: e3_one_def set_eq step_then_def [of "apply_epp m (arm_epp m b f)"] step_bind_def [of "apply_epp m (arm_epp m b f)"])
    then obtain new where "trace w' = trace w1 @ new" "list_all (\<lambda>(c, s). s = epp w1) new"
      by (auto simp: steady_def)
    moreover have "list_all (\<lambda>(cpu, v). epp w1 cpu = v) (arm_epp m b f)"
      using spec Inr assms(2) by (auto simp: list_all_iff)
    ultimately show ?thesis using spec by (auto simp: list_all_iff)
  qed
qed

subsection \<open>Cooldown\<close>

lemma cool_loop_spec:
  "now \<le> cool_loop sens target deadline now
   \<and> (cool_loop sens target deadline now = now \<or> cool_loop sens target deadline now < deadline + 2)
   \<and> (case sens (cool_loop sens target deadline now) of None \<Rightarrow> True
      | Some t \<Rightarrow> t \<le> target \<or> deadline \<le> cool_loop sens target deadline now)"
proof (induction sens target deadline now rule: cool_loop.induct)
  case (1 sens target deadline now)
  show ?case
  proof (cases "sens now")
    case None
    then show ?thesis by (simp add: cool_loop.simps [of sens target deadline now])
  next
    case (Some t)
    show ?thesis
    proof (cases "t > target \<and> now < deadline")
      case True
      then have eq: "cool_loop sens target deadline now = cool_loop sens target deadline (now + 2)"
        using Some by (simp add: cool_loop.simps [of sens target deadline now])
      from "1.IH" [OF Some True] show ?thesis unfolding eq using True by auto
    next
      case False
      then have "cool_loop sens target deadline now = now"
        using Some by (auto simp: cool_loop.simps [of sens target deadline now])
      with False Some show ?thesis by auto
    qed
  qed
qed

subsection \<open>Child processes\<close>

lemma e3_measure_children:
  "e3_measure m b arm f rep t w = (Inr (), w') \<Longrightarrow>
     children w' = (if f_scx f then remove1 ''bls'' (children w) else children w)"
  by (auto simp: e3_measure_def step_then_def step_bind_def spawn_def run_cmd_def record_run_def Let_def reap_def
      split: if_splits option.splits prod.splits sum.splits)

lemma cooldown_children: "cooldown m b w = (r, w') \<Longrightarrow> children w' = children w \<and> epp w' = epp w \<and> files w' = files w"
  by (auto simp: cooldown_def Let_def split: if_splits)

lemma run_cmd_children: "run_cmd m c w = (r, w') \<Longrightarrow> children w' = children w \<and> files w' = files w"
  by (auto simp: run_cmd_def split: option.splits)

lemma e3_tail_children:
  assumes "(if f_scx f then
          step_then (spawn m ''bls'') (\<lambda>w.
            case attach_loop (bls_dead m) (scx_state m) (clock w + 10) (clock w) of
              (True, now) \<Rightarrow> e3_measure m b arm f rep t (w\<lparr>clock := now\<rparr>)
            | (False, now) \<Rightarrow>
                record_run ''e3-ab'' arm (factors_json f) rep no_slots False t ''scheduler failed to attach''
                  (reap ''bls'' (w\<lparr>clock := now\<rparr>)))
        else e3_measure m b arm f rep t) w = (Inr (), w')"
  shows "children w' = children w"
  using assms
  by (auto simp: step_then_def step_bind_def spawn_def record_run_def Let_def reap_def
      dest!: e3_measure_children split: if_splits option.splits prod.splits sum.splits bool.splits)

lemma e3_one_Inr:
  assumes "e3_one m b rep (arm, f) w = (Inr r, w')"
  obtains w1 w2 w3 u p t where "apply_epp m (arm_epp m b f) w = (Inr u, w1)"
    "run_cmd m MakeClean w1 = (Inr p, w2)" "cooldown m b w2 = (Inr t, w3)"
    "(if f_scx f then
          step_then (spawn m ''bls'') (\<lambda>w.
            case attach_loop (bls_dead m) (scx_state m) (clock w + 10) (clock w) of
              (True, now) \<Rightarrow> e3_measure m b arm f rep t (w\<lparr>clock := now\<rparr>)
            | (False, now) \<Rightarrow>
                record_run ''e3-ab'' arm (factors_json f) rep no_slots False t ''scheduler failed to attach''
                  (reap ''bls'' (w\<lparr>clock := now\<rparr>)))
        else e3_measure m b arm f rep t) w3 = (Inr r, w')"
proof -
  have set_eq: "(if f_partitioned f then set_partitioned_epp m b else set_flat_epp m EPP_FLAT) = apply_epp m (arm_epp m b f)"
    by (simp add: set_partitioned_epp_def set_flat_epp_def arm_epp_def)
  show thesis
    using assms that unfolding e3_one_def prod.case set_eq then_Inr bind_Inr step_return_def by blast
qed

lemma e3_one_children: "e3_one m b rep (arm, f) w = (Inr (), w') \<Longrightarrow> children w' = children w"
proof (erule e3_one_Inr)
  fix w1 w2 w3 u p t
  assume a: "apply_epp m (arm_epp m b f) w = (Inr u, w1)" "run_cmd m MakeClean w1 = (Inr p, w2)"
    "cooldown m b w2 = (Inr t, w3)"
    and tail: "(if f_scx f then
          step_then (spawn m ''bls'') (\<lambda>w.
            case attach_loop (bls_dead m) (scx_state m) (clock w + 10) (clock w) of
              (True, now) \<Rightarrow> e3_measure m b arm f rep t (w\<lparr>clock := now\<rparr>)
            | (False, now) \<Rightarrow>
                record_run ''e3-ab'' arm (factors_json f) rep no_slots False t ''scheduler failed to attach''
                  (reap ''bls'' (w\<lparr>clock := now\<rparr>)))
        else e3_measure m b arm f rep t) w3 = (Inr (), w')"
  show ?thesis
    using e3_tail_children [OF tail] apply_epp_spec [OF a(1)] run_cmd_children [OF a(2)] cooldown_children [OF a(3)]
    by simp
qed

subsection \<open>Properties\<close>

definition demo_machine :: machine where
  "demo_machine = \<lparr>nr_cpus = 8, topology = [0, 1, 2, 3, 0, 1, 2, 3], sensor = (\<lambda>t. Some 45),
     epp_accepts = (\<lambda>c v. c < 8), tool = (\<lambda>c w. Some \<lparr>returncode = 0, proc_stdout = [], proc_secs = 1\<rparr>),
     can_spawn = (\<lambda>name. True), scx_state = (\<lambda>t. None), bls_dead = (\<lambda>t. False),
     pinger_stop = (\<lambda>w. Some []), bls_stop = (\<lambda>w. Some []), json_loads = (\<lambda>l. None), draw = (\<lambda>k n. 0)\<rparr>"

definition demo_args :: bench_args where
  "demo_args = \<lparr>experiment_arg = ''e1b-poison'', reps = 1, dur = 20, big_arg = [], cool_to = 50, cool_max = 120,
     cool_margin = 3, floor_probe = 0, plan_only = False, settle = 3, allow_battery = False\<rparr>"

definition demo_world :: world where
  "demo_world = \<lparr>clock = 0, epp = (\<lambda>c. ''balance_power''), files = Map.empty, children = [], draws = 0, trace = []\<rparr>"

definition demo_bench :: bench where
  "demo_bench = \<lparr>b_args = demo_args, b_big = [0, 1, 4, 5], b_little = [2, 3, 6, 7],
     b_saved = read_epp_all demo_machine demo_world, b_floor = None\<rparr>"

text \<open>C2: however a session ends, by a normal return or by an exception in any step, it leaves every
  CPU's EPP setting as it found it, provided writes succeed only for existing CPUs and the settings
  found at the start can be written back.\<close>

theorem session_restores_epp:
  assumes "\<forall>c v. epp_accepts m c v \<longrightarrow> c < nr_cpus m"
    and "\<forall>c < nr_cpus m. epp_accepts m c (epp w c)"
    and "bench_main m a problems w = (result, w')"
  shows "epp w' = epp w"
  using go_restores [of m w _ problems] assms
  by (auto simp: bench_main_def split: option.splits) (metis bench.select_convs(4) snd_conv)+

theorem session_restores_epp_witness:
  "epp (snd (bench_main demo_machine demo_args False demo_world)) = epp demo_world"
  by (rule session_restores_epp [OF _ _ surjective_pairing]) (simp_all add: demo_machine_def)

text \<open>C12: every command an arm of the A/B experiment runs, the measured build included, runs while each
  CPU has exactly the EPP setting the arm's factors call for, whether or not the arm completes.\<close>

theorem e3_runs_under_arm_epp:
  assumes "e3_one m b rep (arm, f) w = (result, w')" and "distinct (b_big b @ b_little b)"
  shows "\<exists>new. trace w' = trace w @ new
    \<and> list_all (\<lambda>(c, settings).
        if f_partitioned f
        then list_all (\<lambda>cpu. settings cpu = EPP_BIG) (b_big b) \<and> list_all (\<lambda>cpu. settings cpu = EPP_LITTLE) (b_little b)
        else list_all (\<lambda>cpu. settings cpu = EPP_FLAT) [0..<nr_cpus m]) new"
proof -
  have "distinct (map fst (arm_epp m b f))"
    using assms(2) by (auto simp: arm_epp_def partitioned_epp_def uniform_epp_def comp_def)
  from e3_one_steady [OF assms(1) this] show ?thesis unfolding arm_epp_all .
qed

theorem e3_runs_under_arm_epp_witness:
  "\<exists>new. trace (snd (e3_one demo_machine demo_bench 0 (''eevdf-partitioned'', \<lparr>f_scx = False, f_partitioned = True, f_strict = False\<rparr>) demo_world)) = new
     \<and> list_all (\<lambda>(c, settings). settings 0 = EPP_BIG \<and> settings 7 = EPP_LITTLE) new"
proof -
  let ?f = "\<lparr>f_scx = False, f_partitioned = True, f_strict = False\<rparr>"
  have "distinct (b_big demo_bench @ b_little demo_bench)" by (simp add: demo_bench_def)
  from e3_runs_under_arm_epp [OF surjective_pairing this, of demo_machine 0 "''eevdf-partitioned''" ?f demo_world]
  show ?thesis by (auto simp: demo_world_def demo_bench_def list_all_iff split: prod.splits)
qed

text \<open>A cooldown always ends, at most two seconds after its deadline plus the settling time (or at
  once, when the deadline has passed already); when it ends, the package was at or below the target, or
  the sensor was missing, or the deadline had passed; it returns the temperature at its end and changes
  nothing but the time.\<close>

theorem cooldown_spec:
  assumes "0 \<le> settle (b_args b)"
  shows "\<exists>now. cooldown m b w = (Inr (sensor m (now + settle (b_args b))), w\<lparr>clock := now + settle (b_args b)\<rparr>)
    \<and> clock w \<le> now \<and> (now = clock w \<or> now < clock w + cool_max (b_args b) + 2)
    \<and> (sensor m now = None \<or> the (sensor m now) \<le> cool_target b \<or> clock w + cool_max (b_args b) \<le> now)"
  using assms cool_loop_spec [of "clock w" "sensor m" "cool_target b" "clock w + cool_max (b_args b)"]
  by (auto simp: cooldown_def Let_def split: option.splits)

theorem cooldown_spec_witness:
  "\<exists>t. fst (cooldown demo_machine demo_bench demo_world) = Inr t"
  using cooldown_spec [of demo_bench demo_machine demo_world] by (auto simp: demo_bench_def demo_args_def)


lemma no_output: "collect_json (json_loads demo_machine) text = []" "classify_json [] = no_slots" "status_error no_slots = None"
  by (simp_all add: collect_json_def classify_json_def status_error_def no_slots_def List.map_filter_def demo_machine_def)

lemma demo_parts: "nr_cpus demo_machine = 8" "epp_accepts demo_machine c v = (c < 8)"
  "tool demo_machine c0 w = Some \<lparr>returncode = 0, proc_stdout = [], proc_secs = 1\<rparr>"
  "can_spawn demo_machine name" "pinger_stop demo_machine w = Some []" "json_loads demo_machine l = None"
  "sensor demo_machine t = Some 45" "b_args demo_bench = demo_args" "settle demo_args = 3"
  by (simp_all add: demo_machine_def demo_bench_def demo_args_def)


end
