(* ===== verification/SessionRecords.thy ===== *)
theory SessionRecords
  imports SessionFacts
begin

text \<open>
  The records a session stores. The run planner of \<open>scripts/bench.py\<close> announces a number of runs; a
  session that completes stores exactly one record file for each of them, under pairwise different
  paths. The random order of the A/B arms is a permutation of them for every generator whose draws are
  below their bound.
\<close>

subsection \<open>Record paths\<close>

lemma nat_str_inj: "nat_str m = nat_str n \<Longrightarrow> m = n"
  using nat_str_val by metis

lemma pad2_digits: "c \<in> set (pad2 n) \<Longrightarrow> is_digit c"
  using nat_str_chars [of c n] by (auto simp: pad2_def is_digit_def code_of_def split: if_splits)

lemma pad2_val: "digits_val (map digit_val (pad2 n)) = n"
  using nat_str_val [of n] by (simp add: pad2_def digits_val_def digit_val_def code_of_def)

lemma pad2_inj: "pad2 m = pad2 n \<Longrightarrow> m = n"
  using pad2_val by metis

lemma digits_suffix_inj:
  assumes "xs @ ''.rep'' @ ds = ys @ ''.rep'' @ es" "\<forall>d \<in> set ds. is_digit d" "\<forall>d \<in> set es. is_digit d"
  shows "xs = ys \<and> ds = es"
proof -
  have np: "\<not> is_digit (CHR ''p'')" by (simp add: is_digit_def code_of_def)
  have strip: "takeWhile is_digit (rev (zs @ ''.rep'' @ ds)) = rev ds" if "\<forall>d \<in> set ds. is_digit d" for zs ds
  proof -
    have "takeWhile is_digit (rev ds @ ys) = rev ds @ takeWhile is_digit ys" for ys
      using that by (intro takeWhile_append2) auto
    then show ?thesis by (simp add: np)
  qed
  have "rev ds = rev es" using strip [OF assms(2), of xs] strip [OF assms(3), of ys] assms(1) by metis
  then show ?thesis using assms(1) by simp
qed

lemma record_path_inj:
  assumes "record_path e a r = record_path e' a' r'" "CHR ''/'' \<notin> set e" "CHR ''/'' \<notin> set e'"
  shows "e = e' \<and> a = a' \<and> r = r'"
proof -
  have hd: "takeWhile (\<lambda>c. c \<noteq> CHR ''/'') (x @ CHR ''/'' # y) = x" if "CHR ''/'' \<notin> set x" for x y
    using that by (subst takeWhile_append2) auto
  have e: "e = e'" using assms hd unfolding record_path_def by metis
  then have "(a @ ''.rep'' @ pad2 r) @ ''.json'' = (a' @ ''.rep'' @ pad2 r') @ ''.json''"
    using assms(1) by (simp add: record_path_def)
  then have "a @ ''.rep'' @ pad2 r = a' @ ''.rep'' @ pad2 r'" by (simp only: append_same_eq)
  from digits_suffix_inj [OF this] pad2_digits have "a = a'" "pad2 r = pad2 r'" by blast+
  then show ?thesis using e pad2_inj by blast
qed

subsection \<open>Files a step adds\<close>

lemma finally_Inr: "step_finally s c w = (Inr a, w') \<longleftrightarrow> (\<exists>v. s w = (Inr a, v) \<and> w' = c v)"
  by (auto simp: step_finally_def split: prod.splits)

definition adds :: "'a step \<Rightarrow> string set \<Rightarrow> bool" where
  "adds s K \<longleftrightarrow> (\<forall>w a w'. s w = (Inr a, w') \<longrightarrow> dom (files w') = dom (files w) \<union> K)"

lemma adds_return: "adds (step_return a) {}"
  by (simp add: adds_def step_return_def)

lemma adds_raise: "adds (step_raise e) K"
  by (simp add: adds_def step_raise_def)

lemma adds_bind:
  assumes "adds s K" "\<And>a. adds (f a) L"
  shows "adds (step_bind s f) (K \<union> L)"
  unfolding adds_def
proof (intro allI impI)
  fix w b w'
  assume "step_bind s f w = (Inr b, w')"
  then obtain a v where "s w = (Inr a, v)" "f a v = (Inr b, w')" by (auto simp: bind_Inr)
  with assms show "dom (files w') = dom (files w) \<union> (K \<union> L)" by (auto simp: adds_def Un_assoc)
qed

lemma adds_then: "adds s K \<Longrightarrow> adds t L \<Longrightarrow> adds (step_then s t) (K \<union> L)"
  by (simp add: step_then_def adds_bind)

lemma adds_for_each: "(\<And>x. x \<in> set xs \<Longrightarrow> adds (f x) (K x)) \<Longrightarrow> adds (for_each f xs) (\<Union>x \<in> set xs. K x)"
proof (induction xs)
  case (Cons x xs)
  then have "adds (step_then (f x) (for_each f xs)) (K x \<union> (\<Union>x \<in> set xs. K x))"
    by (intro adds_then) auto
  then show ?case by simp
qed (simp add: adds_return)

lemma adds_if: "adds s K \<Longrightarrow> adds (run_if c s) (if c then K else {})"
  by (simp add: run_if_def adds_return)

lemma adds_apply: "adds (apply_epp m mapping) {}"
  unfolding adds_def using apply_epp_spec by fastforce

lemma adds_cmd: "adds (run_cmd m c) {}"
  by (auto simp: adds_def run_cmd_def split: option.splits)

lemma adds_cooldown: "adds (cooldown m b) {}"
  by (auto simp: adds_def cooldown_def Let_def split: if_splits)

lemma adds_record: "adds (record_run e a f rep sl ok t n) {record_path e a rep}"
  by (auto simp: adds_def record_run_def Let_def split: option.splits)

lemma adds_measured: "adds (measured_run m b e a c f n rep) {record_path e a rep}"
proof -
  have "adds (measured_run m b e a c f n rep) ({} \<union> ({} \<union> {record_path e a rep}))"
    unfolding measured_run_def Let_def
    by (intro adds_bind adds_cooldown adds_cmd adds_record)
  then show ?thesis by simp
qed

lemma adds_set_run:
  assumes "adds s {record_path e a rep}"
  shows "adds (step_then (apply_epp m mapping) s) {record_path e a rep}"
  using adds_then [OF adds_apply assms] by simp

subsection \<open>The arms of each experiment\<close>

definition e1_names :: "string list" where
  "e1_names = [''both-performance'', ''both-power'', ''both-balance'', ''partitioned'']"

definition e2_names :: "bench \<Rightarrow> string list" where
  "e2_names b = concat (map (\<lambda>e. map (\<lambda>(cond, cpus). e @ CHR ''.'' # cond) (e2_conditions b)) [''partitioned'', ''flat''])"

lemma adds_e1: "adds (e1_rail m b rep) ((\<lambda>a. record_path ''e1-rail'' a rep) ` set e1_names)"
proof (cases "b_big b = [] \<or> b_little b = []")
  case True
  then show ?thesis by (auto simp: e1_rail_def adds_raise split: list.splits)
next
  case False
  then obtain p ps q qs where bl: "b_big b = p # ps" "b_little b = q # qs" by (auto simp: neq_Nil_conv)
  have "adds (e1_rail m b rep) (\<Union>x \<in> set (e1_arms m b). {record_path ''e1-rail'' (fst x) rep})"
    unfolding e1_rail_def bl prod.case list.case
    by (rule adds_for_each) (auto intro!: adds_set_run adds_measured split: prod.splits)
  then show ?thesis by (simp add: e1_arms_def e1_names_def insert_commute)
qed

lemma adds_e1b: "adds (e1b_poison m b rep) ((\<lambda>a. record_path ''e1b-poison'' a rep) ` set (map fst e1b_arms))"
proof (cases "b_little b")
  case Nil
  then show ?thesis by (simp add: e1b_poison_def adds_raise)
next
  case (Cons q qs)
  have "adds (e1b_poison m b rep) (\<Union>x \<in> set e1b_arms. {record_path ''e1b-poison'' (fst x) rep})"
    unfolding e1b_poison_def Cons list.case
    by (rule adds_for_each) (auto intro!: adds_set_run adds_measured split: prod.splits)
  moreover have "(\<Union>x \<in> set e1b_arms. {record_path ''e1b-poison'' (fst x) rep})
      = (\<lambda>a. record_path ''e1b-poison'' a rep) ` set (map fst e1b_arms)" by auto
  ultimately show ?thesis by simp
qed

lemma adds_e2: "adds (e2_coupling m b rep) ((\<lambda>a. record_path ''e2-coupling'' a rep) ` set (e2_names b))"
proof -
  have one: "adds (e2_run m b rep e cc) {record_path ''e2-coupling'' (e @ CHR ''.'' # fst cc) rep}" for e cc
    unfolding e2_run_def Let_def by (cases cc) (simp add: adds_measured)
  have cond: "adds (for_each (e2_run m b rep e) (e2_conditions b))
      (\<Union>cc \<in> set (e2_conditions b). {record_path ''e2-coupling'' (e @ CHR ''.'' # fst cc) rep})" for e
    by (rule adds_for_each) (rule one)
  have "adds (e2_coupling m b rep) (\<Union>em \<in> set [(''partitioned'', partitioned_epp b), (''flat'', uniform_epp m EPP_FLAT)].
      {} \<union> (\<Union>cc \<in> set (e2_conditions b). {record_path ''e2-coupling'' (fst em @ CHR ''.'' # fst cc) rep}))"
    unfolding e2_coupling_def
    by (rule adds_for_each) (auto intro!: adds_then [OF adds_apply, simplified] cond split: prod.splits)
  moreover have "(\<Union>em \<in> set [(''partitioned'', partitioned_epp b), (''flat'', uniform_epp m EPP_FLAT)].
      {} \<union> (\<Union>cc \<in> set (e2_conditions b). {record_path ''e2-coupling'' (fst em @ CHR ''.'' # fst cc) rep}))
      = (\<lambda>a. record_path ''e2-coupling'' a rep) ` set (e2_names b)"
    by (auto simp: e2_names_def image_iff split: prod.splits)
  ultimately show ?thesis by simp
qed

lemma adds_e3: "adds (e3_one m b rep af) {record_path ''e3-ab'' (fst af) rep}"
  unfolding adds_def
proof (intro allI impI)
  fix w u w'
  obtain arm f where af: "af = (arm, f)" by (rule prod.exhaust)
  assume "e3_one m b rep af w = (Inr u, w')"
  then show "dom (files w') = dom (files w) \<union> {record_path ''e3-ab'' (fst af) rep}"
    unfolding af
  proof (rule e3_one_Inr)
    fix w1 w2 w3 u' p t
    assume a: "apply_epp m (arm_epp m b f) w = (Inr u', w1)" "run_cmd m MakeClean w1 = (Inr p, w2)"
      "cooldown m b w2 = (Inr t, w3)"
      and tail: "(if f_scx f then
          step_then (spawn m ''bls'') (\<lambda>w.
            case attach_loop (bls_dead m) (scx_state m) (clock w + 10) (clock w) of
              (True, now) \<Rightarrow> e3_measure m b arm f rep t (w\<lparr>clock := now\<rparr>)
            | (False, now) \<Rightarrow>
                record_run ''e3-ab'' arm (factors_json f) rep no_slots False t ''scheduler failed to attach''
                  (reap ''bls'' (w\<lparr>clock := now\<rparr>)))
        else e3_measure m b arm f rep t) w3 = (Inr u, w')"
    have w3: "files w3 = files w"
      using apply_epp_spec [OF a(1)] run_cmd_children [OF a(2)] cooldown_children [OF a(3)] by simp
    have meas: "dom (files v') = insert (record_path ''e3-ab'' arm rep) (dom (files v))"
      if "e3_measure m b arm f rep t v = (Inr (), v')" for v v'
      using that
      by (auto simp: e3_measure_def then_Inr bind_Inr spawn_def run_cmd_def record_run_def Let_def reap_def
          split: if_splits option.splits)
    have "dom (files w') = insert (record_path ''e3-ab'' arm rep) (dom (files w3))"
      using tail
      by (auto simp: then_Inr spawn_def record_run_def Let_def reap_def dest!: meas
          split: if_splits option.splits prod.splits bool.splits)
    then show "dom (files w') = dom (files w) \<union> {record_path ''e3-ab'' (fst (arm, f)) rep}" by (simp add: w3)
  qed
qed

subsection \<open>The random order\<close>

lemma adds_e3_rep:
  assumes "draws_ok (draw m)"
  shows "adds (e3_rep m b rep) ((\<lambda>a. record_path ''e3-ab'' a rep) ` set (map fst E3_ARMS))"
  unfolding adds_def
proof (intro allI impI)
  fix w u w'
  assume r: "e3_rep m b rep w = (Inr u, w')"
  let ?xs = "shuffle_list (draw m) (draws w) E3_ARMS"
  have "adds (for_each (e3_one m b rep) ?xs) (\<Union>x \<in> set ?xs. {record_path ''e3-ab'' (fst x) rep})"
    by (rule adds_for_each) (rule adds_e3)
  moreover have "set ?xs = set E3_ARMS" using shuffle_mset [OF assms] by (metis set_mset_mset)
  ultimately show "dom (files w') = dom (files w) \<union> (\<lambda>a. record_path ''e3-ab'' a rep) ` set (map fst E3_ARMS)"
    using r by (fastforce simp: e3_rep_def adds_def)
qed

subsection \<open>The planned runs\<close>

definition planned_arms :: "bench \<Rightarrow> (string \<times> string list) list" where
  "planned_arms b =
     (if selected b ''e1-rail'' then [(''e1-rail'', e1_names)] else [])
     @ (if selected b ''e1b-poison'' then [(''e1b-poison'', map fst e1b_arms)] else [])
     @ (if selected b ''e2-coupling'' then [(''e2-coupling'', e2_names b)] else [])
     @ (if selected b ''e3-ab'' then [(''e3-ab'', map fst E3_ARMS)] else [])"

definition planned_runs :: "bench \<Rightarrow> (string \<times> string \<times> nat) list" where
  "planned_runs b =
     concat (map (\<lambda>(e, arms). map (\<lambda>(a, rep). (e, a, rep)) (List.product arms [0..<reps (b_args b)])) (planned_arms b))"

lemma e2_names_length: "length (e2_names b) = 2 * length (e2_conditions b)"
  by (simp add: e2_names_def)

lemma planned_length: "length (planned_runs b) = fst (plan_totals b)"
  by (simp add: planned_runs_def planned_arms_def plan_totals_def plan_def e1_names_def e1b_arms_def
      e2_names_length)

lemma distinct_ks:
  "distinct ks \<Longrightarrow> distinct (concat (map (\<lambda>k. [''little'' @ nat_str k, ''big1+little'' @ nat_str k]) ks))"
  by (induction ks) (auto dest: nat_str_inj)

lemma e2_conditions_names:
  "map fst (e2_conditions b) =
     ''idle'' # concat (map (\<lambda>k. [''little'' @ nat_str k, ''big1+little'' @ nat_str k]) (e2_ks b)) @ [''big1'']"
  by (simp add: e2_conditions_def map_concat comp_def)

lemma distinct_conditions: "distinct (map fst (e2_conditions b))"
proof -
  have "distinct (e2_ks b)" unfolding e2_ks_def
    by (intro distinct_filter sorted_list_of_set.distinct_sorted_key_list_of_set)
  from distinct_ks [OF this] show ?thesis unfolding e2_conditions_names by auto
qed

lemma distinct_e2: "distinct (e2_names b)"
proof -
  have names: "e2_names b = map (\<lambda>n. ''partitioned.'' @ n) (map fst (e2_conditions b)) @ map (\<lambda>n. ''flat.'' @ n) (map fst (e2_conditions b))"
    by (simp add: e2_names_def comp_def split_beta)
  show ?thesis
    unfolding names using distinct_conditions [of b] by (auto simp: distinct_map inj_on_def)
qed

lemma planned_arms_ok:
  "distinct (map fst (planned_arms b))" "\<forall>(e, arms) \<in> set (planned_arms b). distinct arms \<and> CHR ''/'' \<notin> set e"
  by (auto simp: planned_arms_def distinct_e2 e1_names_def e1b_arms_def E3_ARMS_def)

lemma distinct_triples:
  "distinct (map fst es) \<Longrightarrow> \<forall>(e, arms) \<in> set es. distinct arms \<Longrightarrow>
     distinct (concat (map (\<lambda>(e, arms). map (\<lambda>(a, rep). (e, a, rep)) (List.product arms [0..<n])) es))"
  by (induction es) (auto simp: distinct_map inj_on_def distinct_product split: prod.splits, force)

lemma planned_distinct: "distinct (planned_runs b)"
  unfolding planned_runs_def
  by (rule distinct_triples) (use planned_arms_ok [of b] in fastforce)+

lemma planned_no_slash: "(e, a, r) \<in> set (planned_runs b) \<Longrightarrow> CHR ''/'' \<notin> set e"
  using planned_arms_ok(2) [of b] by (auto simp: planned_runs_def)

definition planned_paths :: "bench \<Rightarrow> string list" where
  "planned_paths b = map (\<lambda>(e, a, r). record_path e a r) (planned_runs b)"

lemma planned_paths_distinct: "distinct (planned_paths b)"
  unfolding planned_paths_def distinct_map
proof
  show "inj_on (\<lambda>(e, a, r). record_path e a r) (set (planned_runs b))"
  proof (rule inj_onI)
    fix x y
    assume mem: "x \<in> set (planned_runs b)" "y \<in> set (planned_runs b)"
      and eq: "(\<lambda>(e, a, r). record_path e a r) x = (\<lambda>(e, a, r). record_path e a r) y"
    obtain e a r e' a' r' where xy: "x = (e, a, r)" "y = (e', a', r')" by (metis prod_cases3)
    have "record_path e a r = record_path e' a' r'" using eq by (simp add: xy)
    from record_path_inj [OF this] planned_no_slash mem show "x = y" by (auto simp: xy)
  qed
qed (rule planned_distinct)

lemma adds_reps:
  assumes "\<And>rep. adds (f rep) ((\<lambda>a. record_path e a rep) ` set arms)"
  shows "adds (for_each f [0..<n]) ((\<lambda>(a, rep). record_path e a rep) ` set (List.product arms [0..<n]))"
proof -
  have "adds (for_each f [0..<n]) (\<Union>rep \<in> set [0..<n]. (\<lambda>a. record_path e a rep) ` set arms)"
    by (rule adds_for_each) (rule assms)
  moreover have "(\<Union>rep \<in> set [0..<n]. (\<lambda>a. record_path e a rep) ` set arms)
      = (\<lambda>(a, rep). record_path e a rep) ` set (List.product arms [0..<n])"
    by (force simp: image_iff)
  ultimately show ?thesis by simp
qed

lemma adds_experiments:
  assumes "draws_ok (draw m)"
  shows "adds (experiments m b) (set (planned_paths b))"
proof -
  let ?n = "reps (b_args b)"
  let ?K = "\<lambda>e arms. if selected b e then (\<lambda>(a, rep). record_path e a rep) ` set (List.product arms [0..<?n]) else {}"
  have "adds (experiments m b) (?K ''e1-rail'' e1_names \<union> (?K ''e1b-poison'' (map fst e1b_arms)
      \<union> (?K ''e2-coupling'' (e2_names b) \<union> ?K ''e3-ab'' (map fst E3_ARMS))))"
    unfolding experiments_def
    by (intro adds_then adds_if adds_reps adds_e1 adds_e1b adds_e2 adds_e3_rep assms)
  moreover have "?K ''e1-rail'' e1_names \<union> (?K ''e1b-poison'' (map fst e1b_arms)
      \<union> (?K ''e2-coupling'' (e2_names b) \<union> ?K ''e3-ab'' (map fst E3_ARMS))) = set (planned_paths b)"
    by (auto simp: planned_paths_def planned_runs_def planned_arms_def image_Un image_image split_beta)
  ultimately show ?thesis by simp
qed

subsection \<open>A whole session\<close>

lemma restore_files: "files (restore_epp m b w) = files w"
proof -
  have "files (fold (\<lambda>(cpu, value) w. snd (write_epp m cpu value w)) cvs w) = files w" for cvs
    by (induction cvs arbitrary: w) (auto simp: write_epp_def)
  then show ?thesis by (simp add: restore_epp_def)
qed

lemma adds_warmup: "adds (warmup m) {}"
proof -
  have "adds (step_bind (run_cmd m c) (\<lambda>_. step_return ())) ({} \<union> {})" for c
    by (intro adds_bind adds_cmd adds_return)
  then have "adds (warmup m) (\<Union>c \<in> set [MakeClean, MakeBuild (nr_cpus m), MakeClean]. {})"
    unfolding warmup_def by (intro adds_for_each) simp
  then show ?thesis by simp
qed

lemma floor_irrelevant: "planned_paths (b\<lparr>b_floor := fl\<rparr>) = planned_paths b"
  by (simp add: planned_paths_def planned_runs_def planned_arms_def selected_def e2_names_def e2_conditions_def e2_ks_def)

lemma go_records:
  assumes "draws_ok (draw m)" "\<not> plan_only (b_args b)" "go m b problems w = (Inr 0, w')"
  shows "dom (files w') = dom (files w) \<union> set (planned_paths b)"
proof -
  define b' where "b' = b\<lparr>b_floor := fst (measure_idle_floor m b w)\<rparr>"
  define w1 where "w1 = snd (measure_idle_floor m b w)"
  have "step_then (warmup m) (step_then (step_finally (experiments m b') (restore_epp m b')) (step_return 0)) w1 = (Inr (0::int), w')"
    using assms(2,3) by (auto simp: go_def b'_def w1_def Let_def split: if_splits prod.splits)
  then obtain u1 w2 u3 w3 where w: "warmup m w1 = (Inr u1, w2)" "experiments m b' w2 = (Inr u3, w3)"
      "w' = restore_epp m b' w3"
    by (auto simp: then_Inr finally_Inr step_return_def)
  have "files w1 = files w" by (simp add: w1_def measure_idle_floor_def Let_def split: prod.splits)
  then show ?thesis
    using adds_warmup [of m] adds_experiments [OF assms(1), of b'] w
    by (simp add: adds_def restore_files b'_def floor_irrelevant)
qed

subsection \<open>Properties\<close>

text \<open>C5: a session that completes has stored exactly one record file for every run the planner
  announced: the paths of the planned runs are pairwise different, as many as the printed total, and
  the files present afterwards are those present before and the planned ones; for every random
  generator whose draws respect their bound.\<close>

theorem session_records_plan:
  assumes "draws_ok (draw m)" and "\<not> plan_only a"
    and "bench_partition (topology m) (big_arg a) = Some (big, little)"
    and "bench_main m a problems w = (Inr 0, w')"
  shows "let b = \<lparr>b_args = a, b_big = big, b_little = little, b_saved = read_epp_all m w, b_floor = None\<rparr>
    in dom (files w') = dom (files w) \<union> set (planned_paths b) \<and> distinct (planned_paths b)
       \<and> length (planned_paths b) = fst (plan_totals b)"
proof -
  let ?b = "\<lparr>b_args = a, b_big = big, b_little = little, b_saved = read_epp_all m w, b_floor = None\<rparr>"
  have "go m ?b problems w = (Inr 0, w')" using assms(3,4) by (simp add: bench_main_def)
  from go_records [OF assms(1) _ this] assms(2)
  show ?thesis
    by (simp add: Let_def planned_paths_distinct) (simp add: planned_paths_def planned_length)
qed

definition returns :: "'a step \<Rightarrow> bool" where
  "returns s \<longleftrightarrow> (\<forall>w. \<exists>a w'. s w = (Inr a, w'))"

lemma returns_bind: "returns s \<Longrightarrow> (\<And>a. returns (f a)) \<Longrightarrow> returns (step_bind s f)"
  unfolding returns_def bind_Inr by metis

lemma returns_for_each: "(\<And>x. x \<in> set xs \<Longrightarrow> returns (f x)) \<Longrightarrow> returns (for_each f xs)"
  by (induction xs) (auto simp: step_then_def step_return_def returns_def [of "\<lambda>w. (Inr (), w)"] intro!: returns_bind)

lemma demo_returns:
  "0 \<le> settle (b_args b) \<Longrightarrow> returns (measured_run demo_machine b e a c f n rep)"
  "returns (run_cmd demo_machine c)"
  by (simp_all add: returns_def measured_run_def step_bind_def cooldown_def run_cmd_def demo_parts Let_def
      record_run_def no_output)

lemma demo_partition: "bench_partition [0, 1, 2, 3, 0, 1, 2, 3] [] = Some ([0, 1, 4, 5], [2, 3, 6, 7])"
  by code_simp

lemma demo_e1b:
  assumes "b_little b = [2, 3, 6, 7]" "0 \<le> settle (b_args b)"
  shows "returns (e1b_poison demo_machine b rep)"
proof -
  have "returns (apply_epp demo_machine (poison_epp demo_machine 2 other))" for other
    unfolding returns_def
  proof
    fix w
    have "\<exists>w'. apply_epp demo_machine (poison_epp demo_machine 2 other) w = (Inr (), w')"
      by (rule apply_epp_accepted) (auto simp: poison_epp_def demo_parts list_all_iff)
    then show "\<exists>a w'. apply_epp demo_machine (poison_epp demo_machine 2 other) w = (Inr a, w')" by blast
  qed
  then show ?thesis
    unfolding e1b_poison_def assms(1) list.case
    by (intro returns_for_each) (auto simp: step_then_def intro!: returns_bind demo_returns assms(2) split: prod.splits)
qed

lemma returns_then: "returns s \<Longrightarrow> returns t \<Longrightarrow> returns (step_then s t)"
  by (simp add: step_then_def returns_bind)

lemma returns_return: "returns (step_return a)"
  by (simp add: returns_def step_return_def)

lemma demo_experiments:
  assumes "b_little b = [2, 3, 6, 7]" "b_args b = demo_args"
  shows "returns (experiments demo_machine b)"
  unfolding experiments_def
  by (intro returns_then)
    (auto simp: run_if_def selected_def assms demo_args_def
      intro!: returns_then returns_return returns_for_each demo_e1b)

lemma demo_session: "\<exists>w'. bench_main demo_machine demo_args False demo_world = (Inr 0, w')"
proof -
  obtain fl w1 where fl: "measure_idle_floor demo_machine
      \<lparr>b_args = demo_args, b_big = [0, 1, 4, 5], b_little = [2, 3, 6, 7],
       b_saved = read_epp_all demo_machine demo_world, b_floor = None\<rparr> demo_world = (fl, w1)" by (rule prod.exhaust)
  let ?b = "\<lparr>b_args = demo_args, b_big = [0, 1, 4, 5], b_little = [2, 3, 6, 7],
       b_saved = read_epp_all demo_machine demo_world, b_floor = fl\<rparr>"
  have warm: "returns (warmup demo_machine)"
    unfolding warmup_def by (intro returns_for_each returns_bind demo_returns returns_return)
  have ex: "returns (experiments demo_machine ?b)" by (rule demo_experiments) simp_all
  have "\<exists>w'. step_then (warmup demo_machine) (step_then (step_finally (experiments demo_machine ?b)
      (restore_epp demo_machine ?b)) (step_return 0)) w1 = (Inr (0::int), w')"
    using warm ex unfolding returns_def then_Inr finally_Inr step_return_def by blast
  then show ?thesis
    using fl demo_partition
    by (simp add: bench_main_def go_def Let_def demo_machine_def [THEN arg_cong, of topology] demo_args_def [THEN arg_cong, of big_arg]
        demo_args_def [THEN arg_cong, of plan_only])
qed

theorem session_records_plan_witness:
  "\<exists>w'. bench_main demo_machine demo_args False demo_world = (Inr 0, w') \<and> card (dom (files w')) = 4"
proof -
  obtain w' where w': "bench_main demo_machine demo_args False demo_world = (Inr 0, w')" using demo_session by blast
  have "bench_partition (topology demo_machine) (big_arg demo_args) = Some ([0, 1, 4, 5], [2, 3, 6, 7])"
    using demo_partition by (simp add: demo_machine_def demo_args_def)
  from session_records_plan [OF _ _ this w']
  have "dom (files w') = set (planned_paths demo_bench) \<and> distinct (planned_paths demo_bench)
      \<and> length (planned_paths demo_bench) = fst (plan_totals demo_bench)"
    by (simp add: draws_ok_def demo_machine_def [THEN arg_cong, of draw] demo_args_def [THEN arg_cong, of plan_only]
        demo_world_def [THEN arg_cong, of files] Let_def demo_bench_def)
  moreover have "fst (plan_totals demo_bench) = 4"
    by (simp add: plan_totals_def plan_def selected_def demo_bench_def demo_args_def)
  ultimately show ?thesis using w' by (auto simp: distinct_card)
qed

end
