(* ===== verification/Preflight.thy ===== *)
theory Preflight
  imports SessionRecords
begin

text \<open>
  What \<open>scripts/bench.py\<close> reads from the host before a session: the package temperature, the power source,
  and the \<open>preflight\<close> checks with the problems they report. The host is a record of what its files
  contain, \<open>None\<close> for a file that cannot be opened; a problem is a constructor in place of its message.
\<close>

subsection \<open>Sensors\<close>

text \<open>A hwmon directory: its \<open>name\<close> file, and its \<open>temp*_label\<close> files in order with the matching inputs.\<close>

record hwmon =
  hw_name :: "string option"
  hw_temps :: "(string option \<times> string option) list"

text \<open>\<open>int(s)\<close>, the sign included.\<close>

definition py_int :: "string \<Rightarrow> int option" where
  "py_int s =
     (let t = strip s in
      if t \<noteq> [] \<and> hd t = CHR ''-'' then
        let (ds, r) = digit_run False (tl t) in if ds \<noteq> [] \<and> r = [] then Some (- int (digits_val ds)) else None
      else map_option int (py_nat t))"

datatype temp_result = NoReading | SkipDevice | Reading real | BadReading

text \<open>The loop over the labels of one device: an unreadable file leaves the device.\<close>

fun scan_labels :: "(string option \<times> string option) list \<Rightarrow> temp_result" where
  "scan_labels [] = NoReading"
| "scan_labels ((label, inp) # ts) =
     (case label of None \<Rightarrow> SkipDevice
      | Some l \<Rightarrow>
          if take 7 (lower (strip l)) \<noteq> ''package'' then scan_labels ts
          else case inp of None \<Rightarrow> SkipDevice
               | Some s \<Rightarrow> (case py_int s of None \<Rightarrow> BadReading | Some n \<Rightarrow> Reading (of_int n / 1000)))"

fun pkg_temp_c :: "hwmon list \<Rightarrow> py_error + real option" where
  "pkg_temp_c [] = Inr None"
| "pkg_temp_c (hw # hws) =
     (case hw_name hw of None \<Rightarrow> pkg_temp_c hws
      | Some n \<Rightarrow>
          if strip n \<noteq> ''coretemp'' then pkg_temp_c hws
          else case scan_labels (hw_temps hw) of
                 Reading t \<Rightarrow> Inr (Some t)
               | BadReading \<Rightarrow> Inl ValueError
               | _ \<Rightarrow> pkg_temp_c hws)"

text \<open>\<open>on_ac\<close>: the first readable supply decides.\<close>

fun on_ac :: "string option list \<Rightarrow> bool option" where
  "on_ac [] = None"
| "on_ac (Some s # ps) = Some (strip s = ''1'')"
| "on_ac (None # ps) = on_ac ps"

subsection \<open>Preflight\<close>

record host =
  h_root :: bool
  h_exists :: "string \<Rightarrow> bool"
  h_driver :: "string option"
  h_scx_state :: "string option"
  h_supplies :: "string option list"

datatype problem =
    NotRoot
  | MissingTool string
  | MissingScheduler
  | MissingWorkload
  | NoMsr
  | WrongDriver "string option"
  | SchedulerLoaded string
  | OnBattery

definition preflight :: "host \<Rightarrow> bench_args \<Rightarrow> problem list" where
  "preflight h a =
     (if h_root h then [] else [NotRoot])
     @ map MissingTool (filter (\<lambda>t. \<not> h_exists h t) [''build/energy'', ''build/pinger'', ''build/spin''])
     @ (if experiment_arg a \<in> {''e3-ab'', ''all''} \<and> \<not> h_exists h ''build/bls'' then [MissingScheduler] else [])
     @ (if h_exists h ''build/genproj/Makefile'' then [] else [MissingWorkload])
     @ (if h_exists h ''/dev/cpu/0/msr'' then [] else [NoMsr])
     @ (let driver = map_option strip (h_driver h) in
        if driver = Some ''intel_pstate'' then [] else [WrongDriver driver])
     @ (case map_option strip (h_scx_state h) of
          Some s \<Rightarrow> if scx_loaded (Some s) then [SchedulerLoaded s] else []
        | None \<Rightarrow> [])
     @ (if on_ac (h_supplies h) = Some False \<and> \<not> allow_battery a then [OnBattery] else [])"

text \<open>A session from the checks on: \<open>bench_main\<close> with the outcome of the preflight.\<close>

definition session :: "machine \<Rightarrow> host \<Rightarrow> bench_args \<Rightarrow> int step" where
  "session m h a = bench_main m a (preflight h a \<noteq> [])"

subsection \<open>Properties\<close>

lemma preflight_clean:
  "preflight h a = [] \<longleftrightarrow>
     h_root h \<and> h_exists h ''build/energy'' \<and> h_exists h ''build/pinger'' \<and> h_exists h ''build/spin''
     \<and> (experiment_arg a \<in> {''e3-ab'', ''all''} \<longrightarrow> h_exists h ''build/bls'')
     \<and> h_exists h ''build/genproj/Makefile'' \<and> h_exists h ''/dev/cpu/0/msr''
     \<and> map_option strip (h_driver h) = Some ''intel_pstate''
     \<and> \<not> scx_loaded (map_option strip (h_scx_state h))
     \<and> \<not> (on_ac (h_supplies h) = Some False \<and> \<not> allow_battery a)"
  by (auto simp: preflight_def Let_def scx_loaded_def split: option.splits if_splits)

lemma go_problems:
  "\<not> plan_only (b_args b) \<Longrightarrow> go m b True w = (Inr 1, w)"
  by (simp add: go_def)


definition demo_host :: host where
  "demo_host = \<lparr>h_root = True, h_exists = \<lambda>_. True, h_driver = Some ''intel_pstate'', h_scx_state = Some ''disabled'',
     h_supplies = [Some ''1'']\<rparr>"

lemma demo_host_clean: "preflight demo_host a = []"
  by (simp add: preflight_clean demo_host_def scx_loaded_def strip_def is_space_def code_of_def)


end
