(* ===== verification/SessionText.thy ===== *)
theory SessionText
  imports Preflight Fmt
begin

text \<open>
  What \<open>scripts/bench.py\<close> writes: the messages of the preflight, the description of the machine (\<open>env\<close>), the record of a
  run as JSON and as \<open>analyze.py\<close> reads it back, the status line of a run, and the plan with the lines before it. The
  session model keeps of a record what the runs decide; \<open>env\<close> and the time stamp are added here. Paths of tools are
  relative to the root of the repository.
\<close>

subsection \<open>The preflight\<close>

fun problem_text :: "problem \<Rightarrow> string" where
  "problem_text NotRoot = ''must run as root (RAPL energy_uj and MSRs are privileged)''"
| "problem_text (MissingTool t) = ''missing '' @ t @ '': run `make`''"
| "problem_text MissingScheduler = ''missing build/bls: run `make` (needs bpftool + libbpf)''"
| "problem_text MissingWorkload = ''missing workload: run `python3 scripts/workload.py`''"
| "problem_text NoMsr = ''no /dev/cpu/0/msr: run `modprobe msr`''"
| "problem_text (WrongDriver d) =
     ''scaling_driver is '' @ (case d of None \<Rightarrow> ''None'' | Some s \<Rightarrow> repr_str s)
     @ '', expected intel_pstate (EPP is only settable in intel_pstate active mode)''"
| "problem_text (SchedulerLoaded s) = ''a sched_ext scheduler is already loaded (state='' @ s @ '')''"
| "problem_text OnBattery =
     ''running on battery: package power and turbo budget differ from AC. Pass --allow-battery to override, but do not mix AC and battery runs in one dataset.''"

definition problem_lines :: "bench_args \<Rightarrow> problem list \<Rightarrow> string list" where
  "problem_lines a ps =
     map (\<lambda>p. (if plan_only a then ''warning'' else ''preflight'') @ '': '' @ problem_text p) ps"

subsection \<open>The machine\<close>

text \<open>\<open>_read\<close> and \<open>current_scx\<close>: the stripped content of a file, \<open>None\<close> when it cannot be opened.\<close>

definition read_stripped :: "string option \<Rightarrow> string option" where
  "read_stripped c = map_option strip c"

text \<open>\<open>line.split(":", 1)[1]\<close>\<close>

fun after_colon :: "string \<Rightarrow> string option" where
  "after_colon [] = None"
| "after_colon (c # cs) = (if c = CHR '':'' then Some cs else after_colon cs)"

fun model_name :: "string list \<Rightarrow> py_error + string option" where
  "model_name [] = Inr None"
| "model_name (l # ls) =
     (if take 10 l = ''model name'' then
        (case after_colon l of None \<Rightarrow> Inl IndexError | Some s \<Rightarrow> Inr (Some (strip s)))
      else model_name ls)"

definition cpu_model :: "string option \<Rightarrow> py_error + string option" where
  "cpu_model cpuinfo = (case cpuinfo of None \<Rightarrow> Inr None | Some t \<Rightarrow> model_name (split_lines t))"

text \<open>What else the description names: the kernel release, \<open>/proc/cpuinfo\<close> and the governor file.\<close>

record machine_files =
  mf_release :: string
  mf_cpuinfo :: "string option"
  mf_governor :: "string option"

definition opt_json :: "('a \<Rightarrow> json) \<Rightarrow> 'a option \<Rightarrow> json" where
  "opt_json f v = (case v of None \<Rightarrow> JNull | Some x \<Rightarrow> f x)"

definition nats_json :: "nat list \<Rightarrow> json" where
  "nats_json ns = JArr (map (\<lambda>n. JInt (int n)) ns)"

definition env_start :: "machine \<Rightarrow> bench \<Rightarrow> host \<Rightarrow> machine_files \<Rightarrow> py_error + (string \<times> json) list" where
  "env_start m b h mf =
     err_bind (cpu_model (mf_cpuinfo mf)) (\<lambda>model. Inr
       [(''kernel'', JStr (mf_release mf)), (''cpu_model'', opt_json JStr model), (''nr_cpus'', JInt (int (nr_cpus m))),
        (''big_cpus'', nats_json (b_big b)), (''little_cpus'', nats_json (b_little b)),
        (''scaling_driver'', opt_json JStr (read_stripped (h_driver h))),
        (''governor'', opt_json JStr (read_stripped (mf_governor mf))),
        (''on_ac'', opt_json JBool (on_ac (h_supplies h))),
        (''epp_at_start'', JObj (map (\<lambda>(c, v). (nat_str c, JStr v)) (b_saved b)))])"

text \<open>The entries \<open>go\<close> adds once the idle floor is known.\<close>

definition env_entries :: "bench \<Rightarrow> (string \<times> json) list" where
  "env_entries b =
     [(''idle_floor_c'', opt_json (\<lambda>t. JFloat (Fin t)) (b_floor b)), (''cool_target_c'', JFloat (Fin (cool_target b)))]"

subsection \<open>The record of a run\<close>

definition record_json :: "(string \<times> json) list \<Rightarrow> string \<Rightarrow> run_record \<Rightarrow> json" where
  "record_json env timestamp rec =
     (let sl = rr_slots rec in
      JObj [(''experiment'', JStr (rr_experiment rec)), (''arm'', JStr (rr_arm rec)), (''factors'', JObj (rr_factors rec)),
        (''rep'', JInt (int (rr_rep rec))), (''timestamp'', JStr timestamp), (''ok'', JBool (rr_ok rec)),
        (''env'', JObj (env @ [(''start_temp_c'', opt_json (\<lambda>t. JFloat (Fin t)) (rr_start_temp rec))])),
        (''energy'', opt_json id (sl_energy sl)), (''pinger'', opt_json id (sl_pinger sl)), (''spin'', opt_json id (sl_spin sl)),
        (''bls'', opt_json id (sl_bls sl)), (''partition'', opt_json id (sl_partition sl)), (''notes'', JStr (rr_notes rec))])"

text \<open>What \<open>json.load\<close> in \<open>analyze.py\<close> makes of what \<open>json.dump\<close> wrote: the tokens \<open>NaN\<close> and \<open>Infinity\<close> become null.\<close>

fun reread :: "json \<Rightarrow> json" where
  "reread (JObj kvs) = JObj (map (\<lambda>(k, v). (k, reread v)) kvs)"
| "reread (JArr xs) = JArr (map reread xs)"
| "reread (JFloat v) = (if is_finite v then JFloat v else JNull)"
| "reread v = v"

subsection \<open>The status line\<close>

text \<open>An energy value under \<open>.2f\<close> or \<open>.1f\<close>, nan when the tool printed none; what raises is in \<open>float_format_error\<close>.\<close>

fun status_number :: "nat \<Rightarrow> json option \<Rightarrow> string" where
  "status_number n (Some (JInt k)) = fixed n (of_int k)"
| "status_number n (Some (JBool x)) = fixed n (if x then 1 else 0)"
| "status_number n (Some (JFloat v)) = fixed_float n v"
| "status_number n _ = ''nan''"

definition temp_str :: "(real \<Rightarrow> string) \<Rightarrow> real option \<Rightarrow> string" where
  "temp_str fr t = (case t of None \<Rightarrow> ''None'' | Some x \<Rightarrow> fr x)"

definition status_line :: "(real \<Rightarrow> string) \<Rightarrow> run_record \<Rightarrow> py_error + string" where
  "status_line fr rec =
     (let e = (case sl_energy (rr_slots rec) of Some obj \<Rightarrow> obj | None \<Rightarrow> JObj []) in
      case status_error (rr_slots rec) of
        Some err \<Rightarrow> Inl err
      | None \<Rightarrow> Inr (''  ['' @ (if rr_ok rec then ''ok '' else ''FAIL'') @ ''] '' @ rr_experiment rec @ ''/'' @ rr_arm rec
          @ '' rep'' @ nat_str (rr_rep rec) @ '' wall='' @ status_number 2 (jfind e ''wall_s'') @ ''s pkg=''
          @ status_number 1 (jfind e ''pkg_j'') @ ''J start='' @ temp_str fr (rr_start_temp rec) @ ''C''))"

subsection \<open>The plan and the lines before it\<close>

definition minutes :: "real \<Rightarrow> string" where
  "minutes secs = rjust 5 (fixed 1 (secs / 60))"

definition plan_row :: "bench \<Rightarrow> string \<times> nat \<times> real \<Rightarrow> string" where
  "plan_row b = (\<lambda>(name, arms, secs).
     let runs = arms * reps (b_args b); lo = secs + settle (b_args b); hi = lo + cool_max (b_args b) in
     ''  '' @ ljust 12 name @ '' '' @ nat_str arms @ '' arms x '' @ nat_str (reps (b_args b)) @ '' reps = ''
       @ rjust 3 (nat_str runs) @ '' runs   '' @ minutes (real runs * lo) @ ''-'' @ minutes (real runs * hi) @ '' min'')"

definition plan_lines :: "bench \<Rightarrow> string list" where
  "plan_lines b =
     (let (runs, lo, hi) = plan_totals b in
      [[], ''plan:''] @ map (plan_row b) (plan b) @
      [''  '' @ ljust 12 ''total'' @ '' '' @ replicate 16 CHR '' '' @ '' '' @ rjust 3 (nat_str runs) @ '' runs   ''
         @ minutes lo @ ''-'' @ minutes hi @ '' min'', []])"

definition session_head :: "(real \<Rightarrow> string) \<Rightarrow> bench \<Rightarrow> string option \<Rightarrow> string \<Rightarrow> string list" where
  "session_head fr b model release =
     [''machine : '' @ (case model of None \<Rightarrow> ''None'' | Some s \<Rightarrow> s), ''kernel  : '' @ release,
      ''big     : '' @ cpulist (b_big b) @ ''  (EPP '' @ EPP_BIG @ '')'',
      ''little  : '' @ cpulist (b_little b) @ ''  (EPP '' @ EPP_LITTLE @ '')'',
      ''flat    : all CPUs EPP '' @ EPP_FLAT,
      ''reps    : '' @ nat_str (reps (b_args b)),
      ''probing idle temperature floor for '' @ fixed 0 (floor_probe (b_args b)) @ ''s ...'',
      ''idle floor : '' @ temp_str fr (b_floor b) @ '' C'',
      ''cool to    : '' @ fixed 1 (cool_target b) @ '' C (max '' @ fixed 0 (cool_max (b_args b)) @ ''s per run)'']"

text \<open>What \<open>go\<close> prints up to the plan, and, unless it only plans, around the status lines of the runs.\<close>

definition session_lines :: "(real \<Rightarrow> string) \<Rightarrow> bench \<Rightarrow> string option \<Rightarrow> string \<Rightarrow> string list \<Rightarrow> string list" where
  "session_lines fr b model release statuses =
     session_head fr b model release @ plan_lines b
     @ (if plan_only (b_args b) then []
        else [''warmup: building the workload once to fill page cache''] @ statuses
          @ [[], ''EPP restored to the values found at startup.''])"

subsection \<open>Reading a record back\<close>

lemma jget_reread: "jget (reread v) k = reread (jget v k)"
proof (cases v)
  case (JObj kvs)
  have "map_of (map (\<lambda>(k, v). (k, reread v)) kvs) k = map_option reread (map_of kvs k)" by (induction kvs) auto
  then show ?thesis using JObj by (simp split: option.split)
next
  case (JFloat x)
  then show ?thesis by (cases "is_finite x") auto
qed auto

lemma err_map_error: "err_map f xs = Inl e \<Longrightarrow> \<exists>x \<in> set xs. f x = Inl e"
  by (induction f xs rule: err_map.induct) (auto simp: err_bind_def split: sum.splits)

lemma err_bind_Inl: "err_bind s f = Inl e \<longleftrightarrow> s = Inl e \<or> (\<exists>a. s = Inr a \<and> f a = Inl e)"
  by (cases s) (auto simp: err_bind_def)

end
