(* ===== verification/Statistics.thy ===== *)
theory Statistics
  imports Json "HOL-Library.Multiset"
begin

text \<open>
  The numeric primitives of \<open>scripts/analyze.py\<close>: the coercion \<open>num\<close>, mean, median, standard
  deviation, ranks with ties, Pearson and Spearman correlation, quantiles of a sorted list. An absent
  value is \<open>None\<close>, as in the source.
\<close>

subsection \<open>Values that may be missing\<close>

text \<open>\<open>num\<close>; converting an integer beyond the range of floats raises, and the source does not catch that.\<close>

fun num_of :: "json \<Rightarrow> py_error + real option" where
  "num_of (JInt n) = (if \<bar>n\<bar> \<ge> 2 ^ 1024 - 2 ^ 970 then Inl OverflowError else Inr (Some (of_int n)))"
| "num_of (JFloat (Fin v)) = Inr (Some v)"
| "num_of (JStr s) = Inr (case py_float s of Some (Fin v) \<Rightarrow> Some v | _ \<Rightarrow> None)"
| "num_of _ = Inr None"

definition clean :: "real option list \<Rightarrow> real list" where
  "clean xs = List.map_filter (\<lambda>x. x) xs"

subsection \<open>Location and spread\<close>

definition mean :: "real list \<Rightarrow> real option" where
  "mean xs = (if xs = [] then None else Some (sum_list xs / real (length xs)))"

definition median :: "real list \<Rightarrow> real option" where
  "median xs =
     (if xs = [] then None
      else let s = sort xs; n = length s; mid = n div 2
           in Some (if n mod 2 = 1 then s ! mid else (s ! (mid - 1) + s ! mid) / 2))"

definition sd :: "real list \<Rightarrow> real option" where
  "sd xs =
     (let n = length xs in
      if n < 2 then None
      else let m = sum_list xs / real n
           in Some (sqrt (sum_list (map (\<lambda>x. (x - m)\<^sup>2) xs) / (real n - 1))))"

definition pooled_sd :: "real list \<Rightarrow> real list \<Rightarrow> real option" where
  "pooled_sd a b =
     (case (sd a, sd b) of
        (Some sa, Some sb) \<Rightarrow>
          Some (sqrt (((real (length a) - 1) * sa * sa + (real (length b) - 1) * sb * sb)
                      / (real (length a) + real (length b) - 2)))
      | _ \<Rightarrow> None)"

lemma mean_bounds: "mean xs = Some m \<Longrightarrow> list_min xs \<le> m \<and> m \<le> list_max xs"
proof -
  assume m: "mean xs = Some m"
  then have ne: "xs \<noteq> []" by (auto simp: mean_def split: if_splits)
  have "real (length xs) * list_min xs \<le> sum_list xs" "sum_list xs \<le> real (length xs) * list_max xs"
    using sum_list_mono [of xs "\<lambda>_. list_min xs" "\<lambda>x. x"] sum_list_mono [of xs "\<lambda>x. x" "\<lambda>_. list_max xs"]
    by (simp_all add: list_min_le list_max_ge sum_list_triv)
  then show ?thesis using m ne by (auto simp: mean_def field_simps)
qed

lemma mean_between:
  "xs \<noteq> [] \<Longrightarrow> (\<And>x. x \<in> set xs \<Longrightarrow> lo \<le> x \<and> x \<le> hi) \<Longrightarrow>
     lo \<le> sum_list xs / real (length xs) \<and> sum_list xs / real (length xs) \<le> hi"
  using mean_bounds [of xs "sum_list xs / real (length xs)"] list_min_in [of xs] list_max_in [of xs]
  by (force simp: mean_def)

lemma sd_nonneg: "sd xs = Some s \<Longrightarrow> 0 \<le> s"
  by (auto simp: sd_def Let_def split: if_splits intro!: real_sqrt_ge_zero divide_nonneg_nonneg sum_list_nonneg)

lemma pooled_sd_nonneg: "pooled_sd a b = Some s \<Longrightarrow> 0 \<le> s"
proof -
  assume s: "pooled_sd a b = Some s"
  then obtain sa sb where "sd a = Some sa" "sd b = Some sb" by (auto simp: pooled_sd_def split: option.splits)
  moreover have "2 \<le> length a" "2 \<le> length b" using calculation by (auto simp: sd_def Let_def split: if_splits)
  ultimately show ?thesis
    using s by (auto simp: pooled_sd_def mult.assoc intro!: real_sqrt_ge_zero divide_nonneg_nonneg add_nonneg_nonneg)
qed

subsection \<open>Correlation\<close>

definition pearson :: "real list \<Rightarrow> real list \<Rightarrow> real option" where
  "pearson xs ys =
     (let n = length xs in
      if n < 3 then None
      else let mx = sum_list xs / real n; my = sum_list ys / real n;
               sxy = sum_list (map (\<lambda>(a, b). (a - mx) * (b - my)) (zip xs ys));
               sxx = sum_list (map (\<lambda>a. (a - mx)\<^sup>2) xs);
               syy = sum_list (map (\<lambda>b. (b - my)\<^sup>2) ys)
           in if sxx \<le> 0 \<or> syy \<le> 0 then None else Some (sxy / sqrt (sxx * syy)))"

lemma cauchy_schwarz_list:
  fixes f g :: "'a \<Rightarrow> real"
  defines "A \<equiv> \<lambda>zs. sum_list (map (\<lambda>z. (f z)\<^sup>2) zs)" and "B \<equiv> \<lambda>zs. sum_list (map (\<lambda>z. (g z)\<^sup>2) zs)"
    and "S \<equiv> \<lambda>zs. sum_list (map (\<lambda>z. f z * g z) zs)"
  shows "(S zs)\<^sup>2 \<le> A zs * B zs"
proof -
  have expand: "sum_list (map (\<lambda>z. (u * f z - v * g z)\<^sup>2) ws) = u\<^sup>2 * A ws - 2 * u * v * S ws + v\<^sup>2 * B ws" for u v ws
    by (induction ws) (auto simp: A_def B_def S_def algebra_simps power2_eq_square)
  have pos: "0 \<le> u\<^sup>2 * A zs - 2 * u * v * S zs + v\<^sup>2 * B zs" for u v
    unfolding expand [symmetric] by (rule sum_list_nonneg) auto
  have B0: "0 \<le> B zs" by (auto simp: B_def intro!: sum_list_nonneg)
  show ?thesis
  proof (cases "B zs = 0")
    case True
    have "2 * (S zs)\<^sup>2 * v \<le> A zs * (S zs)\<^sup>2" if "0 < v" for v
      using pos [of "S zs" "v * S zs / S zs"] True by (cases "S zs = 0") (auto simp: power2_eq_square algebra_simps)
    then have "S zs = 0"
      using pos [of 1 "(A zs + 1) / (2 * S zs)"] True by (cases "S zs = 0") auto
    then show ?thesis using True by simp
  next
    case False
    with B0 have Bp: "0 < B zs" by simp
    have "0 \<le> B zs * (A zs * B zs - (S zs)\<^sup>2)"
      using pos [of "B zs" "S zs"] by (simp add: power2_eq_square algebra_simps)
    then show ?thesis using Bp by (simp add: zero_le_mult_iff)
  qed
qed

lemma sum_zip_le:
  fixes f :: "'a \<Rightarrow> real"
  assumes "\<And>x. 0 \<le> f x"
  shows "sum_list (map (\<lambda>z. f (fst z)) (zip xs ys)) \<le> sum_list (map f xs)"
proof (induction xs arbitrary: ys)
  case (Cons x xs)
  then show ?case using assms by (cases ys) (auto intro!: add_nonneg_nonneg sum_list_nonneg)
qed simp

lemma sum_zip_le2:
  fixes f :: "'b \<Rightarrow> real"
  assumes "\<And>x. 0 \<le> f x"
  shows "sum_list (map (\<lambda>z. f (snd z)) (zip xs ys)) \<le> sum_list (map f ys)"
proof (induction ys arbitrary: xs)
  case (Cons y ys)
  then show ?case using assms by (cases xs) (auto intro!: add_nonneg_nonneg sum_list_nonneg)
qed simp

lemma pearson_range: "pearson xs ys = Some r \<Longrightarrow> \<bar>r\<bar> \<le> 1"
proof -
  assume r: "pearson xs ys = Some r"
  define mx my where "mx = sum_list xs / real (length xs)" and "my = sum_list ys / real (length xs)"
  define sxy sxx syy where "sxy = sum_list (map (\<lambda>(a, b). (a - mx) * (b - my)) (zip xs ys))"
    and "sxx = sum_list (map (\<lambda>a. (a - mx)\<^sup>2) xs)" and "syy = sum_list (map (\<lambda>b. (b - my)\<^sup>2) ys)"
  have pos: "0 < sxx" "0 < syy" and req: "r = sxy / sqrt (sxx * syy)"
    using r by (auto simp: pearson_def Let_def mx_def my_def sxy_def sxx_def syy_def split: if_splits)
  have "sxy\<^sup>2 \<le> sum_list (map (\<lambda>z. (fst z - mx)\<^sup>2) (zip xs ys)) * sum_list (map (\<lambda>z. (snd z - my)\<^sup>2) (zip xs ys))"
    using cauchy_schwarz_list [of "\<lambda>z. fst z - mx" "\<lambda>z. snd z - my" "zip xs ys"]
    by (simp add: sxy_def case_prod_beta' del: map_zip_map map_zip_map2)
  also have "\<dots> \<le> sxx * syy"
    unfolding sxx_def syy_def
    using sum_zip_le [of "\<lambda>a. (a - mx)\<^sup>2" xs ys] sum_zip_le2 [of "\<lambda>b. (b - my)\<^sup>2" xs ys]
    by (intro mult_mono) (auto intro!: sum_list_nonneg)
  finally have "sxy\<^sup>2 \<le> sxx * syy" .
  then have "\<bar>sxy\<bar> \<le> sqrt (sxx * syy)" using real_sqrt_le_mono by fastforce
  moreover have "0 < sqrt (sxx * syy)" using pos by simp
  ultimately show ?thesis by (simp add: req abs_divide)
qed

subsection \<open>Ranks\<close>

text \<open>The inner \<open>while\<close> of \<open>rankdata\<close>: the last index of the run of equal values that starts at \<open>i\<close>.\<close>

function tie_end :: "real list \<Rightarrow> nat list \<Rightarrow> nat \<Rightarrow> nat \<Rightarrow> nat" where
  "tie_end xs order i j =
     (if j + 1 < length xs \<and> xs ! (order ! (j + 1)) = xs ! (order ! i) then tie_end xs order i (j + 1) else j)"
  by pat_completeness auto
termination by (relation "measure (\<lambda>(xs, order, i, j). length xs - j)") auto

declare tie_end.simps [simp del]

lemma tie_end_step:
  "j + 1 < length xs \<and> xs ! (order ! (j + 1)) = xs ! (order ! i) \<Longrightarrow>
     tie_end xs order i j = tie_end xs order i (j + 1)"
  "\<not> (j + 1 < length xs \<and> xs ! (order ! (j + 1)) = xs ! (order ! i)) \<Longrightarrow> tie_end xs order i j = j"
  by (subst tie_end.simps, simp)+

lemma tie_end_ge: "j \<le> tie_end xs order i j"
proof (induction xs order i j rule: tie_end.induct)
  case (1 xs order i j)
  show ?case
  proof (cases "j + 1 < length xs \<and> xs ! (order ! (j + 1)) = xs ! (order ! i)")
    case True
    then show ?thesis using 1 [OF True] unfolding tie_end_step(1) [OF True] by linarith
  next
    case False
    then show ?thesis unfolding tie_end_step(2) [OF False] by simp
  qed
qed

function rank_loop :: "real list \<Rightarrow> nat list \<Rightarrow> nat \<Rightarrow> real list \<Rightarrow> real list" where
  "rank_loop xs order i ranks =
     (if i < length xs then
        let j = tie_end xs order i i; avg = real (i + j) / 2 + 1
        in rank_loop xs order (j + 1) (fold (\<lambda>k r. r[order ! k := avg]) [i..<j + 1] ranks)
      else ranks)"
  by pat_completeness auto
termination
  by (relation "measure (\<lambda>(xs, order, i, ranks). length xs - i)") (auto simp: tie_end_ge less_Suc_eq_le diff_less_mono2)

declare rank_loop.simps [simp del]

definition rankdata :: "real list \<Rightarrow> real list" where
  "rankdata xs =
     rank_loop xs (sort_key (\<lambda>i. xs ! i) [0..<length xs]) 0 (replicate (length xs) 0)"

definition complete_pairs :: "real option list \<Rightarrow> real option list \<Rightarrow> (real \<times> real) list" where
  "complete_pairs xs ys = [(a, b). (Some a, Some b) \<leftarrow> zip xs ys]"

definition spearman :: "real option list \<Rightarrow> real option list \<Rightarrow> real option" where
  "spearman xs ys =
     (let pairs = complete_pairs xs ys
      in if length pairs < 3 then None else pearson (rankdata (map fst pairs)) (rankdata (map snd pairs)))"

lemma concat_short: "(\<And>z. length (f z) \<le> 1) \<Longrightarrow> length (concat (map f zs)) \<le> length zs"
proof (induction zs)
  case (Cons z zs)
  then have "length (f z) \<le> 1" "length (concat (map f zs)) \<le> length zs" by blast+
  then show ?case by simp
qed simp

lemma spearman_short: "length xs < 3 \<Longrightarrow> spearman xs ys = None"
proof -
  assume "length xs < 3"
  moreover have "length (complete_pairs xs ys) \<le> length (zip xs ys)"
    unfolding complete_pairs_def by (rule concat_short) (simp split: option.split prod.split)
  ultimately show ?thesis by (simp add: spearman_def Let_def)
qed

text \<open>The rank a value has by definition: the number of smaller values, and the middle of its ties.\<close>

definition midrank :: "real list \<Rightarrow> real \<Rightarrow> real" where
  "midrank xs v =
     real (length (filter (\<lambda>x. x < v) xs)) + (real (length (filter (\<lambda>x. x = v) xs)) + 1) / 2"

lemma tie_end_run:
  assumes "i \<le> j" "\<forall>k. i \<le> k \<and> k \<le> j \<longrightarrow> xs ! (order ! k) = xs ! (order ! i)" "j < length xs"
  defines "e \<equiv> tie_end xs order i j"
  shows "e < length xs \<and> (\<forall>k. i \<le> k \<and> k \<le> e \<longrightarrow> xs ! (order ! k) = xs ! (order ! i))
    \<and> (e + 1 < length xs \<longrightarrow> xs ! (order ! (e + 1)) \<noteq> xs ! (order ! i))"
  unfolding e_def using assms(1-3)
proof (induction xs order i j rule: tie_end.induct)
  case (1 xs order i j)
  show ?case
  proof (cases "j + 1 < length xs \<and> xs ! (order ! (j + 1)) = xs ! (order ! i)")
    case True
    have all: "\<forall>k. i \<le> k \<and> k \<le> j + 1 \<longrightarrow> xs ! (order ! k) = xs ! (order ! i)"
      using 1(3) True by (metis Suc_eq_plus1 le_Suc_eq)
    have "i \<le> j + 1" using 1(2) by linarith
    from 1(1) [OF True this all conjunct1 [OF True]] show ?thesis unfolding tie_end_step(1) [OF True] .
  next
    case False
    have "j + 1 < length xs \<longrightarrow> xs ! (order ! (j + 1)) \<noteq> xs ! (order ! i)" using False by blast
    then show ?thesis unfolding tie_end_step(2) [OF False] using 1(3,4) by blast
  qed
qed

lemma fold_update_length [simp]: "length (fold (\<lambda>k r. r[f k := a]) ks r) = length r"
  by (induction ks arbitrary: r) auto

lemma fold_update_nth:
  "p < length r \<Longrightarrow> fold (\<lambda>k r. r[f k := a]) ks r ! p = (if p \<in> f ` set ks then a else r ! p)"
  by (induction ks arbitrary: r) (auto simp: nth_list_update)

lemma midrank_of_sorted:
  assumes "mset ws = mset xs" "sorted ws" "i \<le> e" "e < length ws"
    and "\<forall>k. i \<le> k \<and> k \<le> e \<longrightarrow> ws ! k = v" "0 < i \<longrightarrow> ws ! (i - 1) < v" "e + 1 < length ws \<longrightarrow> ws ! (e + 1) \<noteq> v"
  shows "midrank xs v = real (i + e) / 2 + 1"
proof -
  have count: "length (filter P xs) = card {k. k < length ws \<and> P (ws ! k)}" for P
  proof -
    have "length (filter P xs) = size (filter_mset P (mset xs))" by (simp add: size_mset [symmetric] del: size_mset)
    also have "\<dots> = length (filter P ws)" using assms(1) by (metis mset_filter size_mset)
    finally show ?thesis by (simp add: length_filter_conv_card)
  qed
  have before: "ws ! k < v" if "k < i" for k
    using that assms(2,4,6) sorted_nth_mono [OF assms(2), of k "i - 1"] assms(3) by fastforce
  have after: "v < ws ! k" if "e < k" "k < length ws" for k
  proof -
    have "v \<le> ws ! (e + 1)" using sorted_nth_mono [OF assms(2), of e "e + 1"] assms(3,5) that by simp
    moreover have "ws ! (e + 1) \<le> ws ! k" using that by (intro sorted_nth_mono [OF assms(2)]) auto
    ultimately show ?thesis using assms(7) that by fastforce
  qed
  have at: "ws ! k = v" if "i \<le> k" "k \<le> e" for k using assms(5) that by blast
  have "{k. k < length ws \<and> ws ! k < v} = {..<i}"
  proof (intro set_eqI iffI)
    fix k assume "k \<in> {k. k < length ws \<and> ws ! k < v}"
    then show "k \<in> {..<i}" using at [of k] after [of k] by (cases "k < i"; cases "k \<le> e") auto
  qed (use before assms(3,4) in auto)
  moreover have "{k. k < length ws \<and> ws ! k = v} = {i..e}"
  proof (intro set_eqI iffI)
    fix k assume "k \<in> {k. k < length ws \<and> ws ! k = v}"
    then show "k \<in> {i..e}" using before [of k] after [of k] by (cases "k < i"; cases "k \<le> e") auto
  qed (use at assms(4) in auto)
  ultimately have "length (filter (\<lambda>x. x < v) xs) = i" "length (filter (\<lambda>x. x = v) xs) = Suc e - i"
    unfolding count by simp_all
  then show ?thesis using assms(3) by (simp add: midrank_def of_nat_diff field_simps)
qed

lemma rank_loop_correct:
  assumes "distinct order" "set order = {..<length xs}" "mset (map ((!) xs) order) = mset xs"
    and "sorted (map ((!) xs) order)" "length ranks = length xs"
    and "\<forall>k < length xs. k < i \<longrightarrow> ranks ! (order ! k) = midrank xs (xs ! (order ! k))"
    and "i < length xs \<and> 0 < i \<longrightarrow> xs ! (order ! (i - 1)) < xs ! (order ! i)"
  shows "rank_loop xs order i ranks = map (midrank xs) xs"
  using assms
proof (induction xs order i ranks rule: rank_loop.induct)
  case (1 xs order i ranks)
  note order = 1(2-5) and inv = 1(6-8)
  have len: "length order = length xs" using order(3) by (metis length_map size_mset)
  show ?case
  proof (cases "i < length xs")
    case False
    have "ranks ! p = midrank xs (xs ! p)" if "p < length xs" for p
    proof -
      have "p \<in> set order" using that order(2) by simp
      then obtain k where "k < length order" "order ! k = p" by (metis in_set_conv_nth)
      then show ?thesis using inv(2) False len by auto
    qed
    then have "ranks = map (midrank xs) xs" using inv(1) by (intro nth_equalityI) auto
    then show ?thesis using False by (subst rank_loop.simps) simp
  next
    case True
    define e where "e = tie_end xs order i i"
    define avg where "avg = real (i + e) / 2 + 1"
    define ranks' where "ranks' = fold (\<lambda>k r. r[order ! k := avg]) [i..<e + 1] ranks"
    have ie: "i \<le> e" unfolding e_def by (rule tie_end_ge)
    have "\<forall>k. i \<le> k \<and> k \<le> i \<longrightarrow> xs ! (order ! k) = xs ! (order ! i)" using order_antisym by blast
    note tie = tie_end_run [OF order_refl this True, folded e_def]
    have run: "e < length xs" "\<forall>k. i \<le> k \<and> k \<le> e \<longrightarrow> xs ! (order ! k) = xs ! (order ! i)"
      "e + 1 < length xs \<longrightarrow> xs ! (order ! (e + 1)) \<noteq> xs ! (order ! i)"
      using tie by blast+
    have same: "xs ! (order ! k) = xs ! (order ! i)" if "i \<le> k" "k \<le> e" for k using run(2) that by blast
    have avg: "midrank xs (xs ! (order ! i)) = avg"
      unfolding avg_def
    proof (rule midrank_of_sorted [OF order(3,4) ie])
      show "e < length (map ((!) xs) order)" using run(1) len by simp
      show "\<forall>k. i \<le> k \<and> k \<le> e \<longrightarrow> map ((!) xs) order ! k = xs ! (order ! i)"
        using same run(1) len by (metis le_less_trans nth_map)
      show "0 < i \<longrightarrow> map ((!) xs) order ! (i - 1) < xs ! (order ! i)" using inv(3) True len by simp
      show "e + 1 < length (map ((!) xs) order) \<longrightarrow> map ((!) xs) order ! (e + 1) \<noteq> xs ! (order ! i)"
        using run(3) len by (metis length_map nth_map)
    qed
    have "ranks' ! (order ! k) = midrank xs (xs ! (order ! k))" if k: "k < length xs" "k < e + 1" for k
    proof -
      have bound: "order ! k < length ranks"
        using order(2) inv(1) k(1) len nth_mem [of k order] by (metis lessThan_iff)
      have mem: "order ! k \<in> (!) order ` set [i..<e + 1] \<longleftrightarrow> i \<le> k"
      proof
        assume "order ! k \<in> (!) order ` set [i..<e + 1]"
        then obtain k' where "order ! k = order ! k'" "i \<le> k'" "k' < e + 1"
          by (elim imageE) (simp only: set_upt atLeastLessThan_iff)
        moreover have "k < length order" "k' < length order" using k(1) run(1) \<open>k' < e + 1\<close> len by linarith+
        ultimately have "k = k'" using order(1) by (simp only: nth_eq_iff_index_eq)
        then show "i \<le> k" using \<open>i \<le> k'\<close> by (simp only:)
      next
        assume "i \<le> k"
        then have "k \<in> set [i..<e + 1]" using k(2) by (simp only: set_upt atLeastLessThan_iff)
        then show "order ! k \<in> (!) order ` set [i..<e + 1]" by (rule imageI)
      qed
      have upd: "ranks' ! (order ! k) = (if i \<le> k then avg else ranks ! (order ! k))"
        unfolding ranks'_def fold_update_nth [OF bound] mem ..
      show ?thesis
      proof (cases "i \<le> k")
        case True
        have "k \<le> e" using k(2) by simp
        from same [OF True this] show ?thesis unfolding upd avg [symmetric] if_P [OF True] by (rule arg_cong [OF sym])
      next
        case False
        then show ?thesis using upd inv(2) k(1) by (metis not_less)
      qed
    qed
    moreover have "xs ! (order ! e) < xs ! (order ! (e + 1))" if "e + 1 < length xs"
    proof -
      have "xs ! (order ! e) \<le> xs ! (order ! (e + 1))"
        using sorted_nth_mono [OF order(4), of e "e + 1"] that len by simp
      then show ?thesis using same [OF ie order_refl] run(3) that by (metis order_le_imp_less_or_eq)
    qed
    ultimately have "rank_loop xs order (e + 1) ranks' = map (midrank xs) xs"
      using 1(1) [OF True e_def avg_def] order inv(1) by (simp add: ranks'_def)
    then show ?thesis using True by (subst rank_loop.simps) (simp add: Let_def e_def avg_def ranks'_def)
  qed
qed

lemma rankdata_midrank: "rankdata xs = map (midrank xs) xs"
  unfolding rankdata_def
proof (rule rank_loop_correct)
  let ?o = "sort_key ((!) xs) [0..<length xs]"
  show "distinct ?o" "set ?o = {..<length xs}" by auto
  show "sorted (map ((!) xs) ?o)" by (rule sorted_sort_key)
  have "mset (map ((!) xs) ?o) = mset (map ((!) xs) [0..<length xs])" by (simp add: mset_map)
  then show "mset (map ((!) xs) ?o) = mset xs" by (simp add: map_nth)
qed auto

subsection \<open>Properties\<close>

text \<open>C24: Spearman's rho is the Pearson correlation of the midranks of the pairs that are complete, where
  the midrank of a value is the number of smaller values plus the middle of its ties; it is absent for
  fewer than three complete pairs, and it never leaves the interval from -1 to 1.\<close>

theorem spearman_midranks:
  "spearman xs ys =
     (let ps = complete_pairs xs ys; us = map fst ps; vs = map snd ps
      in if length ps < 3 then None else pearson (map (midrank us) us) (map (midrank vs) vs))
   \<and> pred_option (\<lambda>rho. \<bar>rho\<bar> \<le> 1) (spearman xs ys)"
  using pearson_range by (auto simp: spearman_def rankdata_midrank Let_def option.pred_set split: if_splits)

end
