(* ===== verification/Runs.thy ===== *)
theory Runs
  imports Statistics "HOL-Library.List_Lexorder" "HOL-Library.Char_ord" "HOL-Library.Product_Lexorder"
begin

text \<open>
  How \<open>scripts/analyze.py\<close> turns the stored run files into rows and groups them: \<open>load_runs\<close>,
  \<open>flatten_run\<close> with \<open>split_domains\<close>, \<open>group_runs\<close> and \<open>pick_control\<close>. A row is the dictionary of the
  source as a record; its numeric columns are the association list \<open>r_nums\<close>.
\<close>

definition N_CPUS :: nat where "N_CPUS = 8"
definition SMT_STRIDE :: nat where "SMT_STRIDE = 4"
definition EPP_BIG_MAX :: int where "EPP_BIG_MAX = 128"

subsection \<open>Loading\<close>

text \<open>The content of a file, \<open>None\<close> when it cannot be read or parsed.\<close>

definition is_obj :: "json \<Rightarrow> bool" where
  "is_obj v = (case v of JObj _ \<Rightarrow> True | _ \<Rightarrow> False)"

definition load_runs :: "(string \<times> json option) list \<Rightarrow> (string \<times> json) list \<times> string list" where
  "load_runs files =
     ([(path, v). (path, Some v) \<leftarrow> files, is_obj v],
      map fst (filter (\<lambda>(path, c). case c of None \<Rightarrow> True | Some v \<Rightarrow> \<not> is_obj v) files))"

subsection \<open>Domains\<close>

definition trunc_int :: "real \<Rightarrow> int" where
  "trunc_int v = (if 0 \<le> v then \<lfloor>v\<rfloor> else \<lceil>v\<rceil>)"

text \<open>\<open>_arr\<close>: a per-CPU array, cut or padded to the number of CPUs.\<close>

definition arr :: "json \<Rightarrow> string \<Rightarrow> py_error + real option list" where
  "arr d key =
     (case jget d key of
        JArr v \<Rightarrow> err_bind (err_map num_of (take N_CPUS v))
                    (\<lambda>out. Inr (out @ replicate (N_CPUS - length out) None))
      | _ \<Rightarrow> Inr (replicate N_CPUS None))"

definition epp_vals :: "real option list \<Rightarrow> (nat \<times> int) list" where
  "epp_vals epp = [(i, trunc_int e). (i, Some e) \<leftarrow> zip [0..<length epp] epp]"

definition split_domains :: "real option list \<Rightarrow> nat list \<times> nat list \<times> bool" where
  "split_domains epp =
     (let vals = epp_vals epp in
      if vals = [] then ([0..<N_CPUS], [], False)
      else if card (snd ` set vals) \<le> 1 then (map fst vals, [], False)
      else (map fst (filter (\<lambda>(i, e). e < EPP_BIG_MAX) vals),
            map fst (filter (\<lambda>(i, e). e \<ge> EPP_BIG_MAX) vals), True))"

text \<open>The loop over SMT siblings that counts the pairs split across the domains.\<close>

definition smt_pairs_split :: "real option list \<Rightarrow> nat" where
  "smt_pairs_split epp =
     length (filter (\<lambda>i. case (epp ! i, epp ! (i + SMT_STRIDE)) of
         (Some a, Some b) \<Rightarrow> (a < of_int EPP_BIG_MAX) \<noteq> (b < of_int EPP_BIG_MAX) | _ \<Rightarrow> False) [0..<SMT_STRIDE])"

subsection \<open>Rows\<close>

record row =
  r_file :: string
  r_experiment :: string
  r_arm :: string
  r_sched :: json
  r_epp_mode :: json
  r_strict :: json
  r_timestamp :: json
  r_ok :: json
  r_on_ac :: json
  r_exit_code :: "int option"
  r_info :: "(string \<times> json) list"
  r_nums :: "(string \<times> real option) list"
  r_partitioned_epp :: bool
  r_big_cpus :: "nat list"
  r_little_cpus :: "nat list"
  r_smt_pairs_split :: nat
  r_pinger_present :: bool
  r_spin_present :: bool
  r_bls_present :: bool
  r_spin_threads :: nat
  r_bls_extra :: "(string \<times> real option) list"

definition col :: "row \<Rightarrow> string \<Rightarrow> real option" where
  "col r k = (case map_of (r_nums r) k of Some v \<Rightarrow> v | None \<Rightarrow> None)"

definition values_of :: "row list \<Rightarrow> string \<Rightarrow> real list" where
  "values_of rows metric = clean (map (\<lambda>r. col r metric) rows)"

definition obj_or_empty :: "json \<Rightarrow> json" where
  "obj_or_empty v = (if is_obj v then v else JObj [])"

text \<open>\<open>v or default\<close> for a name; names that are true values but no texts are rejected.\<close>

fun text_or :: "json \<Rightarrow> string \<Rightarrow> py_error + string" where
  "text_or (JStr s) d = Inr (if s = [] then d else s)"
| "text_or JNull d = Inr d"
| "text_or (JBool b) d = (if b then Inl TypeError else Inr d)"
| "text_or (JInt n) d = (if n = 0 then Inr d else Inl TypeError)"
| "text_or (JFloat v) d = (if v = Fin 0 then Inr d else Inl TypeError)"
| "text_or (JArr xs) d = (if xs = [] then Inr d else Inl TypeError)"
| "text_or (JObj xs) d = (if xs = [] then Inr d else Inl TypeError)"

fun exit_of :: "json \<Rightarrow> py_error + int option" where
  "exit_of (JInt n) = Inr (Some n)"
| "exit_of (JFloat (Fin v)) = Inr (Some (trunc_int v))"
| "exit_of (JFloat NaN) = Inl ValueError"
| "exit_of (JFloat _) = Inl OverflowError"
| "exit_of _ = Inr None"

text \<open>\<open>a / b\<close> where both are present and the divisor is not zero, and the share of a part in a total.\<close>

fun ratio_of :: "real option \<Rightarrow> real option \<Rightarrow> real option" where
  "ratio_of (Some a) (Some b) = (if b = 0 then None else Some (a / b))"
| "ratio_of _ _ = None"

definition share_of :: "real option \<Rightarrow> real option \<Rightarrow> real option" where
  "share_of a b =
     (let tot = (case a of None \<Rightarrow> 0 | Some x \<Rightarrow> x) + (case b of None \<Rightarrow> 0 | Some x \<Rightarrow> x)
      in case a of None \<Rightarrow> None | Some x \<Rightarrow> if tot > 0 then Some (x / tot) else None)"

definition energy_keys :: "string list" where
  "energy_keys = [''wall_s'', ''pkg_j'', ''core_j'', ''uncore_j'', ''dram_j'', ''psys_j'', ''rest_j'',
     ''avg_pkg_w'', ''pkg_c_mean'', ''pkg_c_max'']"

definition pinger_keys :: "string list" where
  "pinger_keys = [''wake_us_p50'', ''wake_us_p99'', ''wake_us_p999'', ''wake_us_mean'',
     ''work_us_p50'', ''work_us_p99'', ''work_us_mean'', ''target_work_us'']"

definition bls_keys :: "string list" where
  "bls_keys = [''enqueue'', ''dsq_big'', ''dsq_little'', ''cross_domain'', ''run_big_ms'', ''run_little_ms'']"

definition nums_of :: "json \<Rightarrow> string list \<Rightarrow> py_error + (string \<times> real option) list" where
  "nums_of d keys = err_map (\<lambda>k. err_bind (num_of (jget d k)) (\<lambda>v. Inr (k, v))) keys"

definition at_key :: "(string \<times> real option) list \<Rightarrow> string \<Rightarrow> real option" where
  "at_key kvs k = (case map_of kvs k of Some v \<Rightarrow> v | None \<Rightarrow> None)"

text \<open>The metrics derived from the energy counters.\<close>

definition energy_derived :: "(string \<times> real option) list \<Rightarrow> (string \<times> real option) list" where
  "energy_derived e =
     (let pkg = at_key e ''pkg_j''; wall = at_key e ''wall_s''; rest = at_key e ''rest_j'' in
      [(''energy_to_solution_j'', pkg),
       (''edp_js'', case (pkg, wall) of (Some p, Some w) \<Rightarrow> Some (p * w) | _ \<Rightarrow> None),
       (''pkg_j_per_s'', ratio_of pkg wall),
       (''rest_frac'', ratio_of rest pkg)])"

definition domain_mean :: "real option list \<Rightarrow> nat list \<Rightarrow> real option" where
  "domain_mean xs cpus = mean (clean (map (\<lambda>i. xs ! i) cpus))"

definition domain_derived :: "real option list \<Rightarrow> nat list \<Rightarrow> nat list \<Rightarrow> (string \<times> real option) list" where
  "domain_derived bzy big little =
     (let b = domain_mean bzy big; l = domain_mean bzy little in
      [(''bzy_mhz_big_mean'', b), (''bzy_mhz_little_mean'', l), (''bzy_ratio_little_over_big'', ratio_of l b)])"

definition cpu_col :: "nat \<Rightarrow> string \<Rightarrow> string" where
  "cpu_col i s = ''cpu'' @ nat_str i @ CHR ''_'' # s"

definition per_cpu_cols :: "string \<Rightarrow> real option list \<Rightarrow> (string \<times> real option) list" where
  "per_cpu_cols s xs = map (\<lambda>i. (cpu_col i s, xs ! i)) [0..<N_CPUS]"

definition bls_derived :: "(string \<times> real option) list \<Rightarrow> (string \<times> real option) list" where
  "bls_derived b =
     [(''bls_cross_frac'', ratio_of (at_key b ''cross_domain'') (at_key b ''enqueue'')),
      (''bls_run_big_frac'', share_of (at_key b ''run_big_ms'') (at_key b ''run_little_ms'')),
      (''bls_run_little_frac'', share_of (at_key b ''run_little_ms'') (at_key b ''run_big_ms'')),
      (''bls_dsq_big_frac'', share_of (at_key b ''dsq_big'') (at_key b ''dsq_little''))]"

fun items_of :: "json \<Rightarrow> (string \<times> json) list" where
  "items_of (JObj kvs) = kvs"
| "items_of _ = []"

fun list_of :: "json \<Rightarrow> json list" where
  "list_of (JArr xs) = xs"
| "list_of _ = []"

definition flatten_run :: "string \<Rightarrow> json \<Rightarrow> py_error + row" where
  "flatten_run file run =
     (let energy = obj_or_empty (jget run ''energy''); pinger = obj_or_empty (jget run ''pinger'');
          spin = obj_or_empty (jget run ''spin''); bls = obj_or_empty (jget run ''bls'');
          factors = obj_or_empty (jget run ''factors''); env = obj_or_empty (jget run ''env'');
          threads = list_of (jget spin ''threads'')
      in err_bind (text_or (jget run ''experiment'') ''(unknown)'') (\<lambda>experiment.
         err_bind (text_or (jget run ''arm'') ''(unknown)'') (\<lambda>arm.
         err_bind (num_of (jget run ''rep'')) (\<lambda>rep.
         err_bind (num_of (jget env ''start_temp_c'')) (\<lambda>temp.
         err_bind (nums_of energy energy_keys) (\<lambda>en.
         err_bind (exit_of (jget energy ''exit_code'')) (\<lambda>exit_code.
         err_bind (arr energy ''cpu_avg_mhz'') (\<lambda>avg_mhz.
         err_bind (arr energy ''cpu_bzy_mhz'') (\<lambda>bzy_mhz.
         err_bind (arr energy ''cpu_busy'') (\<lambda>busy.
         err_bind (arr energy ''epp'') (\<lambda>epp.
         err_bind (num_of (jget pinger ''n'')) (\<lambda>pinger_n.
         err_bind (nums_of pinger pinger_keys) (\<lambda>ping.
         err_bind (err_map (\<lambda>t. num_of (jget t ''miters_per_busy_s'')) (filter is_obj threads)) (\<lambda>rates0.
         err_bind (nums_of bls bls_keys) (\<lambda>bl.
         err_bind (err_map (\<lambda>(k, v). err_bind (num_of v) (\<lambda>x. Inr (k, x)))
                    (filter (\<lambda>(k, v). k \<notin> set bls_keys) (items_of bls))) (\<lambda>extra.
         let (big, little, partitioned) = split_domains epp; rates = clean rates0 in
         Inr \<lparr>r_file = file, r_experiment = experiment, r_arm = arm,
              r_sched = jget factors ''sched'', r_epp_mode = jget factors ''epp'', r_strict = jget factors ''strict'',
              r_timestamp = jget run ''timestamp'', r_ok = jget run ''ok'', r_on_ac = jget env ''on_ac'',
              r_exit_code = exit_code,
              r_info = [(''notes'', jget run ''notes''), (''kernel'', jget env ''kernel''),
                        (''governor'', jget env ''governor'')],
              r_nums = [(''rep'', rep), (''start_temp_c'', temp)] @ en @ energy_derived en
                @ domain_derived bzy_mhz big little
                @ per_cpu_cols ''avg_mhz'' avg_mhz @ per_cpu_cols ''bzy_mhz'' bzy_mhz
                @ per_cpu_cols ''busy'' busy @ per_cpu_cols ''epp'' epp
                @ (''pinger_n'', pinger_n) # ping
                @ [(''spin_miters_total'', if rates = [] then None else Some (sum_list rates)),
                   (''spin_miters_mean'', mean rates)]
                @ map (\<lambda>(k, v). (''bls_'' @ k, v)) bl @ bls_derived bl,
              r_partitioned_epp = partitioned, r_big_cpus = big, r_little_cpus = little,
              r_smt_pairs_split = smt_pairs_split epp,
              r_pinger_present = is_obj (jget run ''pinger''), r_spin_present = is_obj (jget run ''spin''),
              r_bls_present = is_obj (jget run ''bls''), r_spin_threads = length threads,
              r_bls_extra = extra\<rparr>))))))))))))))))"

subsection \<open>Grouping\<close>

text \<open>\<open>setdefault(k, []).append(x)\<close> over a list: the groups in the order their keys first appear.\<close>

fun put_group :: "'k \<Rightarrow> 'v \<Rightarrow> ('k \<times> 'v list) list \<Rightarrow> ('k \<times> 'v list) list" where
  "put_group k v [] = [(k, [v])]"
| "put_group k v ((k', vs) # gs) = (if k = k' then (k', vs @ [v]) # gs else (k', vs) # put_group k v gs)"

definition group_by :: "('v \<Rightarrow> 'k) \<Rightarrow> 'v list \<Rightarrow> ('k \<times> 'v list) list" where
  "group_by key xs = fold (\<lambda>x. put_group (key x) x) xs []"

text \<open>The sort key of the rows of an arm: repetition, time stamp, file.\<close>

definition row_key :: "row \<Rightarrow> real \<times> string \<times> string" where
  "row_key r =
     (case col r ''rep'' of None \<Rightarrow> 0 | Some n \<Rightarrow> n,
      case r_timestamp r of JStr s \<Rightarrow> s | _ \<Rightarrow> [],
      r_file r)"

type_synonym arms = "(string \<times> row list) list"

definition group_runs :: "row list \<Rightarrow> (string \<times> arms) list" where
  "group_runs rows =
     map (\<lambda>(exp, rs). (exp, map (\<lambda>(arm, ars). (arm, sort_key row_key ars)) (group_by r_arm rs)))
       (group_by r_experiment rows)"

definition arm_rows :: "arms \<Rightarrow> string \<Rightarrow> row list" where
  "arm_rows arms a = (case map_of arms a of None \<Rightarrow> [] | Some rs \<Rightarrow> rs)"

definition sorted_arms :: "arms \<Rightarrow> string list" where
  "sorted_arms arms = sort (map fst arms)"

definition is_flat_eevdf :: "row list \<Rightarrow> bool" where
  "is_flat_eevdf rs \<longleftrightarrow> rs \<noteq> [] \<and> r_sched (hd rs) = JStr ''eevdf'' \<and> r_epp_mode (hd rs) = JStr ''flat''"

definition pick_control :: "arms \<Rightarrow> string option" where
  "pick_control arms =
     (let named = sorted_arms arms in
      case find (\<lambda>a. is_flat_eevdf (arm_rows arms a)) named of
        Some a \<Rightarrow> Some a
      | None \<Rightarrow>
          (case find (\<lambda>a. lower a = ''control'') named of
             Some a \<Rightarrow> Some a
           | None \<Rightarrow> (case named of [] \<Rightarrow> None | a # _ \<Rightarrow> Some a)))"

lemma put_group_keys: "set (map fst (put_group k v gs)) = insert k (set (map fst gs))"
  by (induction k v gs rule: put_group.induct) auto

lemma put_group_distinct: "distinct (map fst gs) \<Longrightarrow> distinct (map fst (put_group k v gs))"
proof (induction k v gs rule: put_group.induct)
  case (2 k v k' vs gs)
  have "k' \<notin> set (map fst (put_group k v gs))" if "k \<noteq> k'" using 2(2) that by (simp only: put_group_keys) simp
  then show ?case using 2 by simp
qed simp

lemma put_group_lookup:
  "map_of (put_group k v gs) k'' =
     (if k'' = k then Some ((case map_of gs k of None \<Rightarrow> [] | Some vs \<Rightarrow> vs) @ [v]) else map_of gs k'')"
  by (induction k v gs rule: put_group.induct) auto

lemma group_by_fold:
  "distinct (map fst gs) \<Longrightarrow>
     distinct (map fst (fold (\<lambda>x. put_group (key x) x) xs gs))
     \<and> set (map fst (fold (\<lambda>x. put_group (key x) x) xs gs)) = set (map fst gs) \<union> key ` set xs
     \<and> map_of (fold (\<lambda>x. put_group (key x) x) xs gs) k =
        (if filter (\<lambda>x. key x = k) xs = [] then map_of gs k
         else Some ((case map_of gs k of None \<Rightarrow> [] | Some vs \<Rightarrow> vs) @ filter (\<lambda>x. key x = k) xs))"
proof (induction xs arbitrary: gs)
  case (Cons x xs)
  have "distinct (map fst (put_group (key x) x gs))" using Cons.prems by (rule put_group_distinct)
  from Cons.IH [OF this] show ?case
    by (auto simp: put_group_keys [unfolded set_map] put_group_lookup split: if_splits option.splits)
qed simp

lemma group_by_spec:
  "distinct (map fst (group_by key xs))" "set (map fst (group_by key xs)) = key ` set xs"
  "map_of (group_by key xs) k =
     (if filter (\<lambda>x. key x = k) xs = [] then None else Some (filter (\<lambda>x. key x = k) xs))"
  using group_by_fold [of "[]" key xs k] by (auto simp: group_by_def)

lemma map_of_map_snd: "map_of (map (\<lambda>(k, v). (k, f v)) kvs) k = map_option f (map_of kvs k)"
  by (induction kvs) auto

subsection \<open>Domains of a row\<close>

lemma trunc_below: "trunc_int v < EPP_BIG_MAX \<longleftrightarrow> v < of_int EPP_BIG_MAX"
  by (auto simp: trunc_int_def EPP_BIG_MAX_def floor_less_iff ceiling_less_iff)

lemma arr_length: "arr d key = Inr xs \<Longrightarrow> length xs = N_CPUS"
  by (auto simp: arr_def err_bind_Inr split: json.splits dest!: err_map_length)

lemma epp_vals_set: "(i, e) \<in> set (epp_vals epp) \<longleftrightarrow> i < length epp \<and> (\<exists>v. epp ! i = Some v \<and> e = trunc_int v)"
  unfolding epp_vals_def by (force simp: set_zip split: option.splits)

lemma epp_vals_fst: "map fst (filter P (epp_vals epp)) =
    filter (\<lambda>i. case epp ! i of None \<Rightarrow> False | Some v \<Rightarrow> P (i, trunc_int v)) [0..<length epp]"
proof -
  have "map fst (filter P [(i, trunc_int e). (i, Some e) \<leftarrow> zip [k..<k + length xs] xs]) =
      filter (\<lambda>i. case xs ! (i - k) of None \<Rightarrow> False | Some v \<Rightarrow> P (i, trunc_int v)) [k..<k + length xs]" for k xs
  proof (induction xs arbitrary: k)
    case (Cons x xs)
    have "filter (\<lambda>i. case (x # xs) ! (i - k) of None \<Rightarrow> False | Some v \<Rightarrow> P (i, trunc_int v)) [Suc k..<Suc k + length xs]
        = filter (\<lambda>i. case xs ! (i - Suc k) of None \<Rightarrow> False | Some v \<Rightarrow> P (i, trunc_int v)) [Suc k..<Suc k + length xs]"
      by (rule filter_cong) (auto simp: nth_Cons')
    moreover have "[k..<k + length (x # xs)] = k # [Suc k..<Suc k + length xs]"
      using upt_conv_Cons [of k "k + length (x # xs)"] by (simp del: upt_Suc)
    ultimately show ?case using Cons.IH [of "Suc k"] by (simp del: upt_Suc upt.simps split: option.split)
  qed simp
  from this [of 0 epp] show ?thesis by (simp add: epp_vals_def)
qed

lemma split_domains_cases:
  assumes "split_domains epp = (big, little, p)" "length epp = N_CPUS"
  shows "distinct (big @ little)
    \<and> (if p then big = filter (\<lambda>i. case epp ! i of None \<Rightarrow> False | Some v \<Rightarrow> v < of_int EPP_BIG_MAX) [0..<N_CPUS]
          \<and> little = filter (\<lambda>i. case epp ! i of None \<Rightarrow> False | Some v \<Rightarrow> of_int EPP_BIG_MAX \<le> v) [0..<N_CPUS]
        else little = [])
    \<and> (p \<longleftrightarrow> (\<exists>i j v w. i < N_CPUS \<and> j < N_CPUS \<and> epp ! i = Some v \<and> epp ! j = Some w \<and> trunc_int v \<noteq> trunc_int w))"
proof -
  let ?S = "snd ` set (epp_vals epp)"
  have small: "card ?S \<le> 1 \<longleftrightarrow> (\<forall>x \<in> ?S. \<forall>y \<in> ?S. x = y)" by (auto simp: card_le_Suc0_iff_eq)
  have S: "x \<in> ?S \<longleftrightarrow> (\<exists>i v. i < N_CPUS \<and> epp ! i = Some v \<and> x = trunc_int v)" for x
  proof -
    have "x \<in> ?S \<longleftrightarrow> (\<exists>i. (i, x) \<in> set (epp_vals epp))" by (auto intro: rev_image_eqI)
    then show ?thesis by (simp only: epp_vals_set assms(2)) blast
  qed
  have p: "p \<longleftrightarrow> \<not> card ?S \<le> 1" using assms(1) by (auto simp: split_domains_def Let_def split: if_splits)
  have dist: "distinct (map fst (epp_vals epp))" using epp_vals_fst [of "\<lambda>_. True" epp] by simp
  have above: "EPP_BIG_MAX \<le> trunc_int v \<longleftrightarrow> of_int EPP_BIG_MAX \<le> v" for v using trunc_below [of v] by linarith
  have small_case: "little = [] \<and> distinct big" if "\<not> p"
    using that assms(1) dist by (auto simp: split_domains_def Let_def split: if_splits)
  have big: "big = filter (\<lambda>i. case epp ! i of None \<Rightarrow> False | Some v \<Rightarrow> v < of_int EPP_BIG_MAX) [0..<N_CPUS]"
    and little: "little = filter (\<lambda>i. case epp ! i of None \<Rightarrow> False | Some v \<Rightarrow> of_int EPP_BIG_MAX \<le> v) [0..<N_CPUS]" if p
  proof -
    have "big = map fst (filter (\<lambda>(i, e). e < EPP_BIG_MAX) (epp_vals epp))"
      "little = map fst (filter (\<lambda>(i, e). e \<ge> EPP_BIG_MAX) (epp_vals epp))"
      using that assms(1) by (auto simp: split_domains_def Let_def split: if_splits)
    then show "big = filter (\<lambda>i. case epp ! i of None \<Rightarrow> False | Some v \<Rightarrow> v < of_int EPP_BIG_MAX) [0..<N_CPUS]"
      "little = filter (\<lambda>i. case epp ! i of None \<Rightarrow> False | Some v \<Rightarrow> of_int EPP_BIG_MAX \<le> v) [0..<N_CPUS]"
      by (simp_all only: epp_vals_fst prod.case trunc_below above assms(2))
  qed
  have "distinct (big @ little)"
  proof (cases p)
    case True
    show ?thesis unfolding big [OF True] little [OF True] by (auto split: option.splits)
  qed (use small_case in auto)
  then have A: "distinct (big @ little) \<and>
    (if p then big = filter (\<lambda>i. case epp ! i of None \<Rightarrow> False | Some v \<Rightarrow> v < of_int EPP_BIG_MAX) [0..<N_CPUS]
          \<and> little = filter (\<lambda>i. case epp ! i of None \<Rightarrow> False | Some v \<Rightarrow> of_int EPP_BIG_MAX \<le> v) [0..<N_CPUS]
        else little = [])"
    using big little small_case by (cases p) (simp_all only: if_True if_False simp_thms)
  have B: "p \<longleftrightarrow> (\<exists>x y. x \<in> ?S \<and> y \<in> ?S \<and> x \<noteq> y)" using p small by blast
  have C: "(\<exists>x y. x \<in> ?S \<and> y \<in> ?S \<and> x \<noteq> y) \<longleftrightarrow>
      (\<exists>i j v w. i < N_CPUS \<and> j < N_CPUS \<and> epp ! i = Some v \<and> epp ! j = Some w \<and> trunc_int v \<noteq> trunc_int w)"
    unfolding S by blast
  from conjI [OF A [THEN conjunct1] conjI [OF A [THEN conjunct2] trans [OF B C]]] show ?thesis .
qed

lemma smt_pairs_count:
  assumes "split_domains epp = (big, little, p)" "length epp = N_CPUS"
  shows "smt_pairs_split epp =
    length (filter (\<lambda>i. (i \<in> set big \<and> i + SMT_STRIDE \<in> set little) \<or> (i \<in> set little \<and> i + SMT_STRIDE \<in> set big))
      [0..<SMT_STRIDE])"
  unfolding smt_pairs_split_def
proof (intro arg_cong [where f = length] filter_cong refl)
  fix i
  assume "i \<in> set [0..<SMT_STRIDE]"
  then have i: "i < N_CPUS" "i + SMT_STRIDE < N_CPUS" by (simp_all add: SMT_STRIDE_def N_CPUS_def)
  note facts = split_domains_cases [OF assms]
  show "(case (epp ! i, epp ! (i + SMT_STRIDE)) of
        (Some a, Some b) \<Rightarrow> (a < of_int EPP_BIG_MAX) \<noteq> (b < of_int EPP_BIG_MAX) | _ \<Rightarrow> False) \<longleftrightarrow>
      (i \<in> set big \<and> i + SMT_STRIDE \<in> set little) \<or> (i \<in> set little \<and> i + SMT_STRIDE \<in> set big)"
  proof (cases p)
    case True
    then have "j \<in> set big \<longleftrightarrow> (case epp ! j of None \<Rightarrow> False | Some v \<Rightarrow> v < of_int EPP_BIG_MAX)"
      "j \<in> set little \<longleftrightarrow> (case epp ! j of None \<Rightarrow> False | Some v \<Rightarrow> of_int EPP_BIG_MAX \<le> v)" if "j < N_CPUS" for j
      using facts that by simp_all
    from this [OF i(1)] this [OF i(2)] show ?thesis by (auto split: option.split)
  next
    case False
    then have "(a < of_int EPP_BIG_MAX) = (b < of_int EPP_BIG_MAX)"
      if "epp ! i = Some a" "epp ! (i + SMT_STRIDE) = Some b" for a b
      using facts i that trunc_below [of a] trunc_below [of b] by metis
    then show ?thesis using facts False by (auto split: option.split)
  qed
qed

lemma keys_map: "map fst (map (\<lambda>(k, v). (k, f v)) kvs) = map fst kvs"
  by (simp add: case_prod_beta)

definition arms_of :: "row list \<Rightarrow> arms" where
  "arms_of rs = map (\<lambda>(arm, ars). (arm, sort_key row_key ars)) (group_by r_arm rs)"

lemma arms_of_spec:
  "distinct (map fst (arms_of rs))" "set (map fst (arms_of rs)) = r_arm ` set rs"
  "arm_rows (arms_of rs) a = sort_key row_key (filter (\<lambda>r. r_arm r = a) rs)"
  unfolding arms_of_def keys_map arm_rows_def map_of_map_snd group_by_spec(3)
  by (simp_all only: group_by_spec(1,2)) simp

subsection \<open>Properties\<close>

text \<open>Grouping loses and repeats no run: the experiments are those of the rows, each listed once, and
  the rows of an arm are exactly the rows with that experiment and arm, in the order of repetition,
  time stamp and file.\<close>

theorem group_runs_spec:
  "distinct (map fst (group_runs rows)) \<and> set (map fst (group_runs rows)) = r_experiment ` set rows
   \<and> (case map_of (group_runs rows) e of
        None \<Rightarrow> filter (\<lambda>r. r_experiment r = e) rows = []
      | Some arms \<Rightarrow>
          distinct (map fst arms) \<and> set (map fst arms) = r_arm ` set (filter (\<lambda>r. r_experiment r = e) rows)
          \<and> arm_rows arms a = sort_key row_key (filter (\<lambda>r. r_arm r = a \<and> r_experiment r = e) rows))"
proof -
  let ?F = "filter (\<lambda>r. r_experiment r = e) rows"
  have keys: "map fst (group_runs rows) = map fst (group_by r_experiment rows)"
    by (simp only: group_runs_def keys_map)
  have look: "map_of (group_runs rows) e = (if ?F = [] then None else Some (arms_of ?F))"
    by (simp only: group_runs_def map_of_map_snd group_by_spec(3) arms_of_def [symmetric]) simp
  have flt: "filter (\<lambda>r. r_arm r = a) ?F = filter (\<lambda>r. r_arm r = a \<and> r_experiment r = e) rows"
    by (simp add: conj_commute)
  show ?thesis
    unfolding keys look using group_by_spec(1,2) [of r_experiment rows] arms_of_spec [of ?F] flt by auto
qed


definition demo_run :: json where
  "demo_run = JObj [(''experiment'', JStr ''e3-ab''), (''arm'', JStr ''scx-partitioned''),
     (''energy'', JObj [(''pkg_j'', JInt 40), (''wall_s'', JInt 4),
        (''epp'', JArr [JInt 0, JInt 0, JInt 0, JInt 0, JInt 255, JInt 255, JInt 255, JInt 255])])]"

lemma demo_run_flattens: "\<exists>r. flatten_run ''a.json'' demo_run = Inr r
    \<and> r_big_cpus r = [0, 1, 2, 3] \<and> r_little_cpus r = [4, 5, 6, 7] \<and> col r ''edp_js'' = Some 160"
proof -
  have epp: "arr (obj_or_empty (jget demo_run ''energy'')) ''epp'' =
      Inr (map Some [0, 0, 0, 0, 255, 255, 255, 255])"
    by (simp add: arr_def demo_run_def obj_or_empty_def is_obj_def N_CPUS_def)
  have dom: "split_domains (map Some [0, 0, 0, 0, 255, 255, 255, 255]) = ([0, 1, 2, 3], [4, 5, 6, 7], True)"
    by (simp add: split_domains_def epp_vals_def trunc_int_def EPP_BIG_MAX_def upt_rec)
  show ?thesis
    unfolding flatten_run_def Let_def epp err_bind_simps dom prod.case
    by (simp add: demo_run_def obj_or_empty_def is_obj_def arr_def nums_of_def energy_keys_def pinger_keys_def
        bls_keys_def energy_derived_def at_key_def col_def)
qed


end
