(* ===== verification/Quantiles.thy ===== *)
theory Quantiles
  imports PyFormat
begin

text \<open>
  The distribution functions of \<open>scripts/analyze.py\<close>: the normal quantile by rational approximation and
  one refinement step, the incomplete beta function by its continued fraction, and the Student quantile
  by bisection. The error function and the logarithm of the gamma function come from Python's
  \<open>math\<close> and are fields of \<open>numerics\<close>, as are the draws of the seeded generator.
\<close>

record numerics =
  erf_fn :: "real \<Rightarrow> real"
  lgamma_fn :: "real \<Rightarrow> real"
  choice_draw :: "nat \<Rightarrow> nat \<Rightarrow> nat"
  shuffle_draw :: "nat \<Rightarrow> nat \<Rightarrow> nat"
  float_repr :: "real \<Rightarrow> string"

definition ALPHA :: real where "ALPHA = 5 / 100"
definition POWER :: real where "POWER = 8 / 10"

subsection \<open>The normal distribution\<close>

definition norm_cdf :: "numerics \<Rightarrow> real \<Rightarrow> real" where
  "norm_cdf nm z = 1 / 2 * (1 + erf_fn nm (z / sqrt 2))"

text \<open>A polynomial in Horner form, the highest coefficient first.\<close>

definition horner :: "real list \<Rightarrow> real \<Rightarrow> real" where
  "horner cs x = fold (\<lambda>c acc. acc * x + c) cs 0"

definition ppf_a :: "real list" where
  "ppf_a = [- 39.69683028665376, 220.9460984245205, - 275.9285104469687,
            138.3577518672690, - 30.66479806614716, 2.506628277459239]"

definition ppf_b :: "real list" where
  "ppf_b = [- 54.47609879822406, 161.5858368580409, - 155.6989798598866,
            66.80131188771972, - 13.28068155288572]"

definition ppf_c :: "real list" where
  "ppf_c = [- 0.007784894002430293, - 0.3223964580411365, - 2.400758277161838,
            - 2.549732539343734, 4.374664141464968, 2.938163982698783]"

definition ppf_d :: "real list" where
  "ppf_d = [0.007784695709041462, 0.3224671290700398, 2.445134137142996, 3.754408661907416]"

definition ppf_start :: "real \<Rightarrow> real" where
  "ppf_start p =
     (let plow = 0.02425; phigh = 1 - 0.02425 in
      if p < plow then
        let q = sqrt (- 2 * ln p) in horner ppf_c q / horner (ppf_d @ [1]) q
      else if p > phigh then
        let q = sqrt (- 2 * ln (1 - p)) in - horner ppf_c q / horner (ppf_d @ [1]) q
      else let q = p - 1 / 2; r = q * q in horner ppf_a r * q / horner (ppf_b @ [1]) r)"

definition norm_ppf :: "numerics \<Rightarrow> real \<Rightarrow> pyfloat" where
  "norm_ppf nm p =
     (if p \<le> 0 then NInf
      else if p \<ge> 1 then PInf
      else let x = ppf_start p;
               e = norm_cdf nm x - p;
               u = e * sqrt (2 * pi) * exp (x * x / 2)
           in Fin (x - u / (1 + x * u / 2)))"

subsection \<open>The incomplete beta function\<close>

definition FPMIN :: real where "FPMIN = 1 / 10 ^ 300"

definition away_from_zero :: "real \<Rightarrow> real" where
  "away_from_zero v = (if \<bar>v\<bar> < FPMIN then FPMIN else v)"

text \<open>One half step of the loop of \<open>_betacf\<close>, on the variables \<open>c\<close>, \<open>d\<close> and \<open>h\<close>; the last component is the factor.\<close>

definition betacf_half :: "real \<Rightarrow> real \<times> real \<times> real \<Rightarrow> (real \<times> real \<times> real) \<times> real" where
  "betacf_half aa = (\<lambda>(c, d, h).
     let d' = 1 / away_from_zero (1 + aa * d);
         c' = away_from_zero (1 + aa / c)
     in ((c', d', h * (d' * c')), d' * c'))"

definition betacf_even :: "real \<Rightarrow> real \<Rightarrow> real \<Rightarrow> nat \<Rightarrow> real" where
  "betacf_even a b x m =
     (let m' = real m in m' * (b - m') * x / ((a - 1 + 2 * m') * (a + 2 * m')))"

definition betacf_odd :: "real \<Rightarrow> real \<Rightarrow> real \<Rightarrow> nat \<Rightarrow> real" where
  "betacf_odd a b x m =
     (let m' = real m in - (a + m') * (a + b + m') * x / ((a + 2 * m') * (a + 1 + 2 * m')))"

fun betacf_loop :: "real \<Rightarrow> real \<Rightarrow> real \<Rightarrow> nat list \<Rightarrow> real \<times> real \<times> real \<Rightarrow> real" where
  "betacf_loop a b x [] (c, d, h) = h"
| "betacf_loop a b x (m # ms) s =
     (let (s1, _) = betacf_half (betacf_even a b x m) s;
          ((c, d, h), de) = betacf_half (betacf_odd a b x m) s1
      in if \<bar>de - 1\<bar> < 3 / 10 ^ 16 then h else betacf_loop a b x ms (c, d, h))"

definition betacf :: "real \<Rightarrow> real \<Rightarrow> real \<Rightarrow> real" where
  "betacf a b x =
     (let d = 1 / away_from_zero (1 - (a + b) * x / (a + 1)) in betacf_loop a b x [1..<301] (1, d, d))"

definition betainc :: "numerics \<Rightarrow> real \<Rightarrow> real \<Rightarrow> real \<Rightarrow> real" where
  "betainc nm a b x =
     (if x \<le> 0 then 0
      else if x \<ge> 1 then 1
      else let lbeta = lgamma_fn nm (a + b) - lgamma_fn nm a - lgamma_fn nm b + a * ln x + b * ln (1 - x)
           in if x < (a + 1) / (a + b + 2) then exp lbeta * betacf a b x / a
              else 1 - exp lbeta * betacf b a (1 - x) / b)"

subsection \<open>The Student distribution\<close>

definition t_cdf :: "numerics \<Rightarrow> real \<Rightarrow> real \<Rightarrow> pyfloat" where
  "t_cdf nm t df =
     (if df \<le> 0 then NaN
      else let p = 1 / 2 * betainc nm (df / 2) (1 / 2) (df / (df + t * t))
           in Fin (if t \<le> 0 then p else 1 - p))"

text \<open>\<open>v < p\<close> of a float that may be special.\<close>

fun float_less :: "pyfloat \<Rightarrow> real \<Rightarrow> bool" where
  "float_less (Fin v) p = (v < p)"
| "float_less NInf p = True"
| "float_less _ p = False"

text \<open>The bisection of \<open>t_ppf\<close>, for any cumulative distribution, with the rounds left.\<close>

fun bisect :: "(real \<Rightarrow> pyfloat) \<Rightarrow> real \<Rightarrow> nat \<Rightarrow> real \<Rightarrow> real \<Rightarrow> real \<times> real" where
  "bisect cdf p 0 lo hi = (lo, hi)"
| "bisect cdf p (Suc n) lo hi =
     (let mid = (lo + hi) / 2;
          (lo', hi') = (if float_less (cdf mid) p then (mid, hi) else (lo, mid))
      in if hi' - lo' < 1 / 10 ^ 10 then (lo', hi') else bisect cdf p n lo' hi')"

definition t_ppf :: "numerics \<Rightarrow> real \<Rightarrow> real \<Rightarrow> pyfloat" where
  "t_ppf nm p df =
     (if df \<le> 0 then NaN
      else let (lo, hi) = bisect (\<lambda>t. t_cdf nm t df) p 200 (- 1000) 1000 in Fin ((lo + hi) / 2))"

definition float_reaches :: "pyfloat \<Rightarrow> real \<Rightarrow> bool" where
  "float_reaches v p = (\<not> float_less v p)"

lemma bisect_Suc:
  assumes "m = (lo + hi) / 2"
  shows "bisect cdf p (Suc n) lo hi =
    (if float_less (cdf m) p then (if hi - m < 1 / 10 ^ 10 then (m, hi) else bisect cdf p n m hi)
     else (if m - lo < 1 / 10 ^ 10 then (lo, m) else bisect cdf p n lo m))"
  by (simp add: assms Let_def)

lemma bisect_bracket:
  assumes "lo < hi" "bisect cdf p n lo hi = (lo', hi')"
  shows "lo \<le> lo' \<and> lo' < hi' \<and> hi' \<le> hi
    \<and> (lo' = lo \<or> float_less (cdf lo') p) \<and> (hi' = hi \<or> float_reaches (cdf hi') p)"
  using assms
proof (induction n arbitrary: lo hi)
  case (Suc n)
  define m where "m = (lo + hi) / 2"
  have m: "lo < m" "m < hi" using Suc.prems(1) by (simp_all add: m_def)
  show ?case
    using Suc.IH [of m hi] Suc.IH [of lo m] Suc.prems(2) m unfolding bisect_Suc [OF m_def]
    by (auto simp: float_reaches_def split: if_splits)
qed simp

lemma bisect_width:
  "bisect cdf p n lo hi = (lo', hi') \<Longrightarrow> lo < hi \<Longrightarrow> hi - lo < 2 ^ n / 10 ^ 10 \<Longrightarrow> hi' - lo' < 1 / 10 ^ 10"
proof (induction n arbitrary: lo hi)
  case (Suc n)
  define m where "m = (lo + hi) / 2"
  have "hi - m = (hi - lo) / 2" "m - lo = (hi - lo) / 2" by (simp_all add: m_def field_simps)
  then have m: "lo < m" "m < hi" "hi - m < 2 ^ n / 10 ^ 10" "m - lo < 2 ^ n / 10 ^ 10"
    using Suc.prems(2,3) by simp_all
  show ?case
    using Suc.IH [of m hi] Suc.IH [of lo m] Suc.prems(1) m unfolding bisect_Suc [OF m_def]
    by (cases "float_less (cdf m) p") (simp_all split: if_splits)
qed simp

subsection \<open>Properties\<close>

text \<open>C38: for a positive number of degrees of freedom the quantile is the middle of an interval narrower
  than 1e-10, inside [-1000, 1000], at whose left end the distribution is still below the requested
  probability and at whose right end it is not, unless that end is the bound of the search itself; so
  the 200 rounds are never used up.\<close>

theorem t_ppf_brackets:
  "if df \<le> 0 then t_ppf nm p df = NaN
   else \<exists>lo hi. t_ppf nm p df = Fin ((lo + hi) / 2) \<and> - 1000 \<le> lo \<and> lo < hi \<and> hi \<le> 1000
      \<and> hi - lo < 1 / 10 ^ 10
      \<and> (lo = - 1000 \<or> float_less (t_cdf nm lo df) p) \<and> (hi = 1000 \<or> float_reaches (t_cdf nm hi df) p)"
proof (cases "df \<le> 0")
  case True
  then show ?thesis by (simp add: t_ppf_def)
next
  case False
  obtain lo hi where b: "bisect (\<lambda>t. t_cdf nm t df) p 200 (- 1000) 1000 = (lo, hi)" by (rule prod.exhaust)
  have "hi - lo < 1 / 10 ^ 10" by (rule bisect_width [OF b]) simp_all
  moreover have "t_ppf nm p df = Fin ((lo + hi) / 2)" using False b by (simp add: t_ppf_def)
  ultimately show ?thesis using bisect_bracket [OF _ b] False by auto
qed

end
