(* ===== verification/Resampling.thy ===== *)
theory Resampling
  imports Statistics Quantiles Sampling
begin

text \<open>
  The resampling and testing part of \<open>scripts/analyze.py\<close>: quantiles of a sorted list, the BCa bootstrap
  with its labelled percentile fallback, the permutation test, Hedges' g and the minimum detectable
  effect. A statistic returns \<open>None\<close> where the source catches its exception.
\<close>

definition N_BOOT :: nat where "N_BOOT = 10000"
definition N_PERM :: nat where "N_PERM = 10000"

subsection \<open>Quantiles of a sorted list\<close>

definition percentile_of_sorted :: "real list \<Rightarrow> real \<Rightarrow> real option" where
  "percentile_of_sorted s q =
     (if s = [] then None
      else if length s = 1 then Some (s ! 0)
      else let idx = q * (real (length s) - 1);
               lo = nat \<lfloor>idx\<rfloor>;
               hi = min (lo + 1) (length s - 1);
               frac = idx - real lo
           in Some (s ! lo * (1 - frac) + s ! hi * frac))"

subsection \<open>The bootstrap\<close>

record ci =
  ci_point :: "real option"
  ci_lo :: "real option"
  ci_hi :: "real option"
  ci_method :: "string option"

definition no_ci :: "real option \<Rightarrow> ci" where
  "no_ci theta = \<lparr>ci_point = theta, ci_lo = None, ci_hi = None, ci_method = None\<rparr>"

type_synonym statistic = "real list list \<Rightarrow> real option"

fun boot_reps :: "(nat \<Rightarrow> nat \<Rightarrow> nat) \<Rightarrow> statistic \<Rightarrow> real list list \<Rightarrow> nat \<Rightarrow> nat \<Rightarrow> real list" where
  "boot_reps dr stat groups k 0 = []"
| "boot_reps dr stat groups k (Suc n) =
     (let (rs, k') = resample dr k groups; rest = boot_reps dr stat groups k' n
      in case stat rs of None \<Rightarrow> rest | Some v \<Rightarrow> v # rest)"

definition below_share :: "real list \<Rightarrow> real \<Rightarrow> real" where
  "below_share reps theta =
     (real (length (filter (\<lambda>r. r < theta) reps)) + 1 / 2 * real (length (filter (\<lambda>r. r = theta) reps)))
       / real (length reps)"

text \<open>The leave-one-out values, \<open>None\<close> where the source clears \<open>ok\<close>.\<close>

definition jack_group :: "statistic \<Rightarrow> real list list \<Rightarrow> nat \<Rightarrow> real option list" where
  "jack_group stat groups gi =
     (let g = groups ! gi in
      if length g < 3 then [None]
      else map (\<lambda>i. stat (groups[gi := take i g @ drop (i + 1) g])) [0..<length g])"

definition jackknife :: "statistic \<Rightarrow> real list list \<Rightarrow> real list option" where
  "jackknife stat groups = those (concat (map (jack_group stat groups) [0..<length groups]))"

definition acceleration :: "real list \<Rightarrow> real option" where
  "acceleration jack =
     (if length jack < 3 then None
      else let jm = sum_list jack / real (length jack);
               d2 = sum_list (map (\<lambda>v. (jm - v) ^ 2) jack);
               d3 = sum_list (map (\<lambda>v. (jm - v) ^ 3) jack)
           in if d2 > 0 then Some (d3 / (6 * d2 powr (3 / 2))) else None)"

text \<open>The two quantile levels of the BCa interval, \<open>None\<close> where the source falls back to the percentiles.\<close>

definition bca_levels :: "numerics \<Rightarrow> real \<Rightarrow> real \<Rightarrow> real \<Rightarrow> (real \<times> real) option" where
  "bca_levels nm alpha prop accel =
     (case (norm_ppf nm prop, norm_ppf nm (alpha / 2), norm_ppf nm (1 - alpha / 2)) of
        (Fin z0, Fin za_lo, Fin za_hi) \<Rightarrow>
          let denom_lo = 1 - accel * (z0 + za_lo); denom_hi = 1 - accel * (z0 + za_hi) in
          if denom_lo \<noteq> 0 \<and> denom_hi \<noteq> 0 then
            let a1 = norm_cdf nm (z0 + (z0 + za_lo) / denom_lo);
                a2 = norm_cdf nm (z0 + (z0 + za_hi) / denom_hi)
            in if 0 < a1 \<and> a1 < a2 \<and> a2 < 1 then Some (a1, a2) else None
          else None
      | _ \<Rightarrow> None)"

definition bca_of :: "numerics \<Rightarrow> real \<Rightarrow> statistic \<Rightarrow> real list list \<Rightarrow> real list \<Rightarrow> real \<Rightarrow> (real \<times> real) option" where
  "bca_of nm alpha stat groups reps theta =
     (let prop = below_share reps theta in
      if 0 < prop \<and> prop < 1 then
        case Option.bind (jackknife stat groups) acceleration of
          None \<Rightarrow> None
        | Some accel \<Rightarrow> bca_levels nm alpha prop accel
      else None)"

definition bootstrap_ci :: "numerics \<Rightarrow> nat \<Rightarrow> real \<Rightarrow> real list list \<Rightarrow> statistic \<Rightarrow> ci" where
  "bootstrap_ci nm n_boot alpha groups stat =
     (if list_ex (\<lambda>g. length g < 2) groups \<or> groups = [] then no_ci None
      else case stat groups of
        None \<Rightarrow> no_ci None
      | Some theta \<Rightarrow>
          let reps = sort (boot_reps (choice_draw nm) stat groups 0 n_boot) in
          if length reps < 100 then no_ci (Some theta)
          else case bca_of nm alpha stat groups reps theta of
            Some (a1, a2) \<Rightarrow>
              \<lparr>ci_point = Some theta, ci_lo = percentile_of_sorted reps a1,
               ci_hi = percentile_of_sorted reps a2, ci_method = Some ''BCa''\<rparr>
          | None \<Rightarrow>
              \<lparr>ci_point = Some theta, ci_lo = percentile_of_sorted reps (alpha / 2),
               ci_hi = percentile_of_sorted reps (1 - alpha / 2), ci_method = Some ''percentile''\<rparr>)"

definition mean_stat :: statistic where
  "mean_stat g = mean (g ! 0)"

definition diff_stat :: statistic where
  "diff_stat g = (case (mean (g ! 1), mean (g ! 0)) of (Some b, Some a) \<Rightarrow> Some (b - a) | _ \<Rightarrow> None)"

definition mean_ci :: "numerics \<Rightarrow> real list \<Rightarrow> ci" where
  "mean_ci nm xs = bootstrap_ci nm N_BOOT ALPHA [xs] mean_stat"

definition diff_ci :: "numerics \<Rightarrow> real list \<Rightarrow> real list \<Rightarrow> ci" where
  "diff_ci nm control arm = bootstrap_ci nm N_BOOT ALPHA [control, arm] diff_stat"

subsection \<open>Two-sample tests and effect sizes\<close>

definition mean_gap :: "real list \<Rightarrow> real list \<Rightarrow> real" where
  "mean_gap a b = \<bar>sum_list b / real (length b) - sum_list a / real (length a)\<bar>"

fun perm_hits :: "(nat \<Rightarrow> nat \<Rightarrow> nat) \<Rightarrow> nat \<Rightarrow> real \<Rightarrow> nat \<Rightarrow> real list \<Rightarrow> nat \<Rightarrow> nat" where
  "perm_hits dr n0 obs k pooled 0 = 0"
| "perm_hits dr n0 obs k pooled (Suc n) =
     (let p = shuffle_list dr k pooled;
          hit = (if mean_gap (take n0 p) (drop n0 p) \<ge> obs - 1 / 10 ^ 15 then 1 else 0)
      in hit + perm_hits dr n0 obs (k + (length pooled - 1)) p n)"

definition permutation_p :: "numerics \<Rightarrow> nat \<Rightarrow> real list \<Rightarrow> real list \<Rightarrow> real option" where
  "permutation_p nm n_perm control arm =
     (if length control < 2 \<or> length arm < 2 then None
      else let hits = perm_hits (shuffle_draw nm) (length control) (mean_gap control arm) 0 (control @ arm) n_perm
           in Some ((1 + real hits) / (real n_perm + 1)))"

definition hedges_g :: "real list \<Rightarrow> real list \<Rightarrow> real option" where
  "hedges_g control arm =
     (case pooled_sd control arm of
        None \<Rightarrow> None
      | Some sp \<Rightarrow>
          if sp = 0 then None
          else let d = (sum_list arm / real (length arm) - sum_list control / real (length control)) / sp;
                   n = real (length control) + real (length arm);
                   j = 1 - 3 / (4 * n - 9)
               in Some (j * d))"

text \<open>The sum of the two quantiles is a NaN only without degrees of freedom, which the first test rules out.\<close>

definition mde :: "numerics \<Rightarrow> real list \<Rightarrow> real list \<Rightarrow> real option" where
  "mde nm control arm =
     (if length control < 2 \<or> length arm < 2 then None
      else case pooled_sd control arm of
        None \<Rightarrow> None
      | Some sp \<Rightarrow>
          let df = real (length control) + real (length arm) - 2 in
          (case (t_ppf nm (1 - ALPHA / 2) df, t_ppf nm POWER df) of
             (Fin tcrit, Fin tpow) \<Rightarrow>
               Some ((tcrit + tpow) * sp * sqrt (1 / real (length control) + 1 / real (length arm)))
           | _ \<Rightarrow> None))"

subsection \<open>Quantiles are ordered and inside the data\<close>

lemma interpolate_between:
  fixes x y f :: real
  assumes "x \<le> y" "0 \<le> f" "f \<le> 1"
  shows "x \<le> x * (1 - f) + y * f" "x * (1 - f) + y * f \<le> y"
proof -
  have "x * (1 - f) + y * f - x = f * (y - x)" by (simp add: algebra_simps)
  then have "0 \<le> x * (1 - f) + y * f - x" using assms by simp
  then show "x \<le> x * (1 - f) + y * f" by simp
  have "y - (x * (1 - f) + y * f) = (1 - f) * (y - x)" by (simp add: algebra_simps)
  then have "0 \<le> y - (x * (1 - f) + y * f)" using assms by simp
  then show "x * (1 - f) + y * f \<le> y" by simp
qed

lemma interpolate_mono:
  fixes x y f g :: real
  assumes "x \<le> y" "f \<le> g"
  shows "x * (1 - f) + y * f \<le> x * (1 - g) + y * g"
proof -
  have "(x * (1 - g) + y * g) - (x * (1 - f) + y * f) = (g - f) * (y - x)" by (simp add: algebra_simps)
  moreover have "0 \<le> (g - f) * (y - x)" using assms by simp
  ultimately show ?thesis by linarith
qed

text \<open>Where a level falls: the index below it, the fraction above that, and the value.\<close>

lemma percentile_position:
  assumes "2 \<le> length s" "0 \<le> q" "q \<le> 1"
  obtains l h f where "l < length s" "h = min (l + 1) (length s - 1)" "0 \<le> f" "f < 1"
    "q * (real (length s) - 1) = real l + f" "percentile_of_sorted s q = Some (s ! l * (1 - f) + s ! h * f)"
proof -
  let ?idx = "q * (real (length s) - 1)"
  define l where "l = nat \<lfloor>?idx\<rfloor>"
  have i0: "0 \<le> ?idx" using assms by simp
  have i1: "?idx \<le> real (length s) - 1" using assms mult_right_mono [of q 1 "real (length s) - 1"] by simp
  have l: "real l \<le> ?idx" "?idx < real l + 1" using i0 unfolding l_def by linarith+
  show ?thesis
  proof
    show "l < length s" using l(1) i1 assms(1) by linarith
    show "percentile_of_sorted s q =
        Some (s ! l * (1 - (?idx - real l)) + s ! (min (l + 1) (length s - 1)) * (?idx - real l))"
      using assms(1) unfolding percentile_of_sorted_def l_def Let_def by (auto split: if_splits)
  qed (use l in auto)
qed

lemma step_up:
  fixes s :: "real list"
  assumes "sorted s" "l < length s"
  shows "s ! l \<le> s ! min (l + 1) (length s - 1)"
proof (rule sorted_nth_mono [OF assms(1)])
  show "l \<le> min (l + 1) (length s - 1)" "min (l + 1) (length s - 1) < length s" using assms(2) by linarith+
qed

lemma percentile_mono:
  assumes "sorted s" "s \<noteq> []" "0 \<le> q" "q \<le> q'" "q' \<le> 1"
  obtains v v' where "percentile_of_sorted s q = Some v" "percentile_of_sorted s q' = Some v'" "v \<le> v'"
proof (cases "length s = 1")
  case True
  then show ?thesis using that assms(2) by (auto simp: percentile_of_sorted_def)
next
  case False
  then have n: "2 \<le> length s" using assms(2) by (cases s) (auto simp: Suc_le_eq)
  obtain l h f where p: "l < length s" "h = min (l + 1) (length s - 1)" "0 \<le> f" "f < 1"
    "q * (real (length s) - 1) = real l + f" "percentile_of_sorted s q = Some (s ! l * (1 - f) + s ! h * f)"
    by (rule percentile_position [OF n assms(3) order_trans [OF assms(4,5)]])
  obtain l' h' f' where p': "l' < length s" "h' = min (l' + 1) (length s - 1)" "0 \<le> f'" "f' < 1"
    "q' * (real (length s) - 1) = real l' + f'" "percentile_of_sorted s q' = Some (s ! l' * (1 - f') + s ! h' * f')"
    by (rule percentile_position [OF n order_trans [OF assms(3,4)] assms(5)])
  have order: "real l + f \<le> real l' + f'"
    using mult_right_mono [OF assms(4), of "real (length s) - 1"] n p(5) p'(5) by simp
  have hs: "s ! l \<le> s ! h" "s ! l' \<le> s ! h'"
    using p(1,2) p'(1,2) by (simp_all only: step_up [OF assms(1)])
  have "s ! l * (1 - f) + s ! h * f \<le> s ! l' * (1 - f') + s ! h' * f'"
  proof (cases "l = l'")
    case True
    then show ?thesis using interpolate_mono [OF hs(1), of f f'] order p(2) p'(2) by simp
  next
    case False
    then have "l < l'" using order p(3,4) p'(3,4) by linarith
    then have "s ! h \<le> s ! l'" using p(2) p'(1) by (auto intro!: sorted_nth_mono [OF assms(1)])
    moreover have "s ! l * (1 - f) + s ! h * f \<le> s ! h" using interpolate_between [OF hs(1)] p(3,4) by simp
    moreover have "s ! l' \<le> s ! l' * (1 - f') + s ! h' * f'" using interpolate_between [OF hs(2)] p'(3,4) by simp
    ultimately show ?thesis by linarith
  qed
  then show ?thesis using that p(6) p'(6) by blast
qed

lemma percentile_within:
  assumes "percentile_of_sorted s q = Some v" "0 \<le> q" "q \<le> 1" "sorted s" "\<And>x. x \<in> set s \<Longrightarrow> lo \<le> x \<and> x \<le> hi"
  shows "lo \<le> v \<and> v \<le> hi"
proof (cases "length s \<le> 1")
  case True
  then show ?thesis using assms(1,5) by (cases s) (auto simp: percentile_of_sorted_def)
next
  case False
  then have n: "2 \<le> length s" by simp
  obtain l h f where p: "l < length s" "h = min (l + 1) (length s - 1)" "0 \<le> f" "f < 1"
    "percentile_of_sorted s q = Some (s ! l * (1 - f) + s ! h * f)"
    by (rule percentile_position [OF n assms(2,3)])
  then have v: "v = s ! l * (1 - f) + s ! h * f" using assms(1) by simp
  have "h < length s" using p(1,2) by simp
  moreover have "s ! l \<le> s ! h" using step_up [OF assms(4) p(1)] by (simp only: p(2))
  ultimately show ?thesis
    using interpolate_between [of "s ! l" "s ! h" f] p(1,3,4) v assms(5) [of "s ! l"] assms(5) [of "s ! h"] by simp
qed

subsection \<open>Intervals are ordered and inside the range of the statistic\<close>

definition sample_of_groups :: "'a list list \<Rightarrow> 'a list list \<Rightarrow> bool" where
  "sample_of_groups rs groups = list_all2 (\<lambda>r g. length r = length g \<and> set r \<subseteq> set g) rs groups"

definition confined :: "statistic \<Rightarrow> real list list \<Rightarrow> real \<Rightarrow> real \<Rightarrow> bool" where
  "confined stat groups lo hi \<longleftrightarrow>
     (\<forall>rs. sample_of_groups rs groups \<longrightarrow> (\<exists>v. stat rs = Some v \<and> lo \<le> v \<and> v \<le> hi))"

lemma boot_reps_confined:
  assumes "draws_ok dr" "confined stat groups lo hi"
  shows "length (boot_reps dr stat groups k n) = n
    \<and> (\<forall>v \<in> set (boot_reps dr stat groups k n). lo \<le> v \<and> v \<le> hi)"
proof (induction n arbitrary: k)
  case (Suc n)
  obtain rs k' where r: "resample dr k groups = (rs, k')" by (rule prod.exhaust)
  have "sample_of_groups rs groups"
    using resample_groups [OF assms(1), of k groups] r by (simp add: sample_of_groups_def)
  then obtain v where "stat rs = Some v" "lo \<le> v" "v \<le> hi" using assms(2) unfolding confined_def by blast
  then show ?case using Suc.IH [of k'] r by simp
qed simp

lemma bca_levels_range: "bca_levels nm alpha prop accel = Some (a1, a2) \<Longrightarrow> 0 < a1 \<and> a1 < a2 \<and> a2 < 1"
  by (auto simp: bca_levels_def Let_def split: pyfloat.splits if_splits)

lemma bca_of_range: "bca_of nm alpha stat groups reps theta = Some (a1, a2) \<Longrightarrow> 0 < a1 \<and> a1 < a2 \<and> a2 < 1"
  by (auto simp: bca_of_def Let_def split: option.splits if_splits dest: bca_levels_range)

definition interval_in :: "ci \<Rightarrow> real \<Rightarrow> real \<Rightarrow> bool" where
  "interval_in c lo hi \<longleftrightarrow>
     (case (ci_lo c, ci_hi c) of (Some l, Some h) \<Rightarrow> lo \<le> l \<and> l \<le> h \<and> h \<le> hi | _ \<Rightarrow> False)"

lemma interval_of_levels:
  assumes "reps \<noteq> []" "\<forall>v \<in> set reps. lo \<le> v \<and> v \<le> hi" "0 \<le> a1" "a1 \<le> a2" "a2 \<le> 1"
  shows "interval_in \<lparr>ci_point = theta, ci_lo = percentile_of_sorted (sort reps) a1,
      ci_hi = percentile_of_sorted (sort reps) a2, ci_method = meth\<rparr> lo hi"
proof -
  have ne: "sort reps \<noteq> []" using assms(1) by (metis length_0_conv length_sort)
  obtain v v' where v: "percentile_of_sorted (sort reps) a1 = Some v" "percentile_of_sorted (sort reps) a2 = Some v'"
      "v \<le> v'"
    by (rule percentile_mono [OF sorted_sort ne assms(3,4,5)])
  have range: "lo \<le> x \<and> x \<le> hi" if "x \<in> set (sort reps)" for x using assms(2) that by simp
  have "lo \<le> v" "v' \<le> hi"
    using percentile_within [OF v(1) assms(3) order_trans [OF assms(4,5)] sorted_sort range]
      percentile_within [OF v(2) order_trans [OF assms(3,4)] assms(5) sorted_sort range] by simp_all
  then show ?thesis using v by (simp add: interval_in_def)
qed

lemma bootstrap_confined:
  assumes "draws_ok (choice_draw nm)" "confined stat groups lo hi" "groups \<noteq> []" "list_all (\<lambda>g. 2 \<le> length g) groups"
    and "100 \<le> n_boot" "0 \<le> alpha" "alpha \<le> 1"
  shows "interval_in (bootstrap_ci nm n_boot alpha groups stat) lo hi
    \<and> ci_method (bootstrap_ci nm n_boot alpha groups stat) \<in> {Some ''BCa'', Some ''percentile''}"
proof -
  let ?reps = "boot_reps (choice_draw nm) stat groups 0 n_boot"
  have reps: "length ?reps = n_boot" "\<forall>v \<in> set ?reps. lo \<le> v \<and> v \<le> hi"
    using boot_reps_confined [OF assms(1,2), of 0 n_boot] by blast+
  then have ne: "?reps \<noteq> []" using assms(5) by auto
  have "sample_of_groups groups groups" by (simp add: sample_of_groups_def list_all2_refl)
  then obtain theta where theta: "stat groups = Some theta" using assms(2) unfolding confined_def by blast
  have small: "\<not> list_ex (\<lambda>g. length g < 2) groups" using assms(4) by (auto simp: list_ex_iff list_all_iff)
  have fallback: "0 \<le> alpha / 2" "alpha / 2 \<le> 1 - alpha / 2" "1 - alpha / 2 \<le> 1" using assms(6,7) by simp_all
  show ?thesis
    using interval_of_levels [OF ne reps(2) fallback]
      interval_of_levels [OF ne reps(2)] bca_of_range [of nm alpha stat groups "sort ?reps" theta]
    using assms(3,5) reps(1) small theta
    by (auto simp: bootstrap_ci_def Let_def split: option.splits)
qed

lemma mean_confined: "xs \<noteq> [] \<Longrightarrow> confined mean_stat [xs] (list_min xs) (list_max xs)"
proof -
  assume ne: "xs \<noteq> []"
  have "\<exists>v. mean r = Some v \<and> list_min xs \<le> v \<and> v \<le> list_max xs" if "length r = length xs" "set r \<subseteq> set xs" for r
  proof -
    have "r \<noteq> []" using that(1) ne by auto
    moreover have "list_min xs \<le> x \<and> x \<le> list_max xs" if "x \<in> set r" for x
      using that \<open>set r \<subseteq> set xs\<close> list_min_le list_max_ge by blast
    ultimately show ?thesis using mean_between [of r "list_min xs" "list_max xs"] by (auto simp: mean_def)
  qed
  then show ?thesis
    by (auto simp: confined_def mean_stat_def sample_of_groups_def list_all2_Cons2)
qed

lemma diff_confined:
  assumes "a \<noteq> []" "b \<noteq> []"
  shows "confined diff_stat [a, b] (list_min b - list_max a) (list_max b - list_min a)"
  unfolding confined_def
proof (intro allI impI)
  fix rs
  assume "sample_of_groups rs [a, b]"
  then obtain r r' where rs: "rs = [r, r']" "sample_of_groups [r] [a]" "sample_of_groups [r'] [b]"
    by (auto simp: sample_of_groups_def list_all2_Cons2)
  obtain u v where "mean_stat [r] = Some u" "list_min a \<le> u" "u \<le> list_max a"
      "mean_stat [r'] = Some v" "list_min b \<le> v" "v \<le> list_max b"
    using mean_confined [OF assms(1)] mean_confined [OF assms(2)] rs(2,3) unfolding confined_def by meson
  then show "\<exists>v. diff_stat rs = Some v \<and> list_min b - list_max a \<le> v \<and> v \<le> list_max b - list_min a"
    by (auto simp: diff_stat_def mean_stat_def rs(1))
qed

lemma alpha_range: "0 \<le> ALPHA" "ALPHA \<le> 1"
  by (simp_all add: ALPHA_def)

lemma diff_ci_interval:
  assumes "draws_ok (choice_draw nm)" "2 \<le> length a" "2 \<le> length b"
  shows "interval_in (diff_ci nm a b) (list_min b - list_max a) (list_max b - list_min a)
    \<and> ci_method (diff_ci nm a b) \<in> {Some ''BCa'', Some ''percentile''}"
proof -
  have ne: "a \<noteq> []" "b \<noteq> []" using assms(2,3) by auto
  show ?thesis
    unfolding diff_ci_def
    by (rule bootstrap_confined [OF assms(1) diff_confined [OF ne]]) (use assms alpha_range in \<open>simp_all add: N_BOOT_def\<close>)
qed

lemma perm_hits_le: "perm_hits dr n0 obs k pooled n \<le> n"
proof (induction n arbitrary: k pooled)
  case (Suc n)
  have "perm_hits dr n0 obs (k + (length pooled - 1)) (shuffle_list dr k pooled) n \<le> n" by (rule Suc.IH)
  then show ?case by (simp add: Let_def)
qed simp

subsection \<open>Properties\<close>


definition demo_numerics :: numerics where
  "demo_numerics = \<lparr>erf_fn = \<lambda>z. z / (1 + \<bar>z\<bar>), lgamma_fn = \<lambda>_. 0,
     choice_draw = \<lambda>k n. k mod n, shuffle_draw = \<lambda>k n. (3 * k) mod n, float_repr = general 17\<rparr>"

lemma demo_draws: "draws_ok (choice_draw demo_numerics)" "draws_ok (shuffle_draw demo_numerics)"
  by (simp_all add: demo_numerics_def draws_ok_def)


text \<open>The permutation p-value exists exactly when both samples have two values; it is never zero, at
  least one over the number of permutations plus one, and never above one.\<close>

theorem permutation_p_range:
  "case permutation_p nm n control arm of
     None \<Rightarrow> length control < 2 \<or> length arm < 2
   | Some p \<Rightarrow> 2 \<le> length control \<and> 2 \<le> length arm \<and> 1 / (real n + 1) \<le> p \<and> p \<le> 1"
  using perm_hits_le [of "shuffle_draw nm" "length control" "mean_gap control arm" 0 "control @ arm" n]
  by (auto simp: permutation_p_def Let_def field_simps split: option.splits if_splits)

end
