(* ===== verification/Contrasts.thy ===== *)
theory Contrasts
  imports Runs Resampling
begin

text \<open>
  The metrics of \<open>scripts/analyze.py\<close>, the summary of an arm and the contrast of an arm with the
  control: effect, interval, tests and the verdict. Of the sentence printed with a contrast the model
  keeps which of the four forms it has.
\<close>

subsection \<open>Metrics\<close>

text \<open>Column, unit, and whether a lower value is better, \<open>None\<close> for a diagnostic.\<close>

definition METRICS :: "(string \<times> string \<times> bool option) list" where
  "METRICS =
     [(''energy_to_solution_j'', ''J'', Some True), (''edp_js'', ''J*s'', Some True),
      (''pkg_j_per_s'', ''W'', Some True), (''wall_s'', ''s'', Some True), (''core_j'', ''J'', Some True),
      (''rest_frac'', ''-'', None), (''wake_us_p99'', ''us'', Some True), (''wake_us_p50'', ''us'', Some True),
      (''bzy_mhz_big_mean'', ''MHz'', None), (''bzy_mhz_little_mean'', ''MHz'', None)]"

definition metric_unit :: "string \<Rightarrow> string" where
  "metric_unit m = (case map_of METRICS m of None \<Rightarrow> [] | Some (u, _) \<Rightarrow> u)"

definition metric_lower_better :: "string \<Rightarrow> bool option" where
  "metric_lower_better m = (case map_of METRICS m of None \<Rightarrow> None | Some (_, b) \<Rightarrow> b)"

definition HEADLINE_METRIC :: string where "HEADLINE_METRIC = ''energy_to_solution_j''"

definition available_metrics :: "row list \<Rightarrow> string list" where
  "available_metrics rows =
     filter (\<lambda>m. list_ex (\<lambda>r. col r m \<noteq> None) rows) (map fst METRICS)"

subsection \<open>Summary of an arm\<close>

record summary =
  s_arm :: string
  s_metric :: string
  s_unit :: string
  s_n :: nat
  s_n_runs :: nat
  s_n_missing :: nat
  s_mean :: "real option"
  s_median :: "real option"
  s_sd :: "real option"
  s_min :: "real option"
  s_max :: "real option"
  s_ci :: ci

definition summarize_arm :: "numerics \<Rightarrow> string \<Rightarrow> row list \<Rightarrow> string \<Rightarrow> summary" where
  "summarize_arm nm arm rows metric =
     (let xs = values_of rows metric in
      \<lparr>s_arm = arm, s_metric = metric, s_unit = metric_unit metric, s_n = length xs, s_n_runs = length rows,
       s_n_missing = length rows - length xs, s_mean = mean xs, s_median = median xs, s_sd = sd xs,
       s_min = (if xs = [] then None else Some (list_min xs)),
       s_max = (if xs = [] then None else Some (list_max xs)),
       s_ci = (if length xs \<ge> 2 then (mean_ci nm xs)\<lparr>ci_point := None\<rparr> else no_ci None)\<rparr>)"

subsection \<open>Contrast with the control\<close>

datatype sentence = SInsufficient | SBelowMde | SIncludesZero | SExcludesZero

record contrast =
  ct_arm :: string
  ct_metric :: string
  ct_unit :: string
  ct_n_control :: nat
  ct_n_arm :: nat
  ct_mean_control :: "real option"
  ct_mean_arm :: "real option"
  ct_diff :: "real option"
  ct_ci_lo :: "real option"
  ct_ci_hi :: "real option"
  ct_ci_method :: "string option"
  ct_pct_change :: "real option"
  ct_hedges_g :: "real option"
  ct_p_perm :: "real option"
  ct_mde_abs :: "real option"
  ct_mde_pct :: "real option"
  ct_detectable :: "bool option"
  ct_verdict :: string
  ct_sentence :: sentence

text \<open>\<open>straddles\<close>: no interval, or one that contains zero.\<close>

definition straddles :: "real option \<Rightarrow> real option \<Rightarrow> bool" where
  "straddles lo hi = (case (lo, hi) of (Some l, Some h) \<Rightarrow> l \<le> 0 \<and> 0 \<le> h | _ \<Rightarrow> True)"

definition direction_verdict :: "string \<Rightarrow> real \<Rightarrow> string" where
  "direction_verdict metric d =
     (let direction = (if d < 0 then ''lower'' else ''higher'') in
      case metric_lower_better metric of
        None \<Rightarrow> direction @ '' (diagnostic)''
      | Some lb \<Rightarrow> if (d < 0) = lb then direction @ '' (better)'' else direction @ '' (worse)'')"

definition pct_of :: "real \<Rightarrow> real \<Rightarrow> real option" where
  "pct_of d base = (if base = 0 then None else Some (100 * d / base))"

definition contrast_of :: "numerics \<Rightarrow> string \<Rightarrow> row list \<Rightarrow> row list \<Rightarrow> string \<Rightarrow> contrast" where
  "contrast_of nm arm control_rows arm_rs metric =
     (let a = values_of control_rows metric; b = values_of arm_rs metric;
          base = \<lparr>ct_arm = arm, ct_metric = metric, ct_unit = metric_unit metric,
            ct_n_control = length a, ct_n_arm = length b, ct_mean_control = mean a, ct_mean_arm = mean b,
            ct_diff = None, ct_ci_lo = None, ct_ci_hi = None, ct_ci_method = None, ct_pct_change = None,
            ct_hedges_g = None, ct_p_perm = None, ct_mde_abs = None, ct_mde_pct = None,
            ct_detectable = None, ct_verdict = ''insufficient data'', ct_sentence = SInsufficient\<rparr>
      in case (mean a, mean b) of
        (Some mc, Some ma) \<Rightarrow>
          if length a < 2 \<or> length b < 2 then base
          else
            let d = ma - mc; c = diff_ci nm a b; m = mde nm a b; str = straddles (ci_lo c) (ci_hi c) in
            base\<lparr>ct_diff := Some d, ct_ci_lo := ci_lo c, ct_ci_hi := ci_hi c, ct_ci_method := ci_method c,
              ct_pct_change := pct_of d mc, ct_hedges_g := hedges_g a b,
              ct_p_perm := permutation_p nm N_PERM a b, ct_mde_abs := m,
              ct_mde_pct := (case m of None \<Rightarrow> None | Some v \<Rightarrow> pct_of v \<bar>mc\<bar>),
              ct_detectable := Some (\<not> str),
              ct_verdict := (if str then ''no detectable difference'' else direction_verdict metric d),
              ct_sentence := (if str then (case m of Some v \<Rightarrow> if \<bar>d\<bar> < v then SBelowMde else SIncludesZero
                                           | None \<Rightarrow> SIncludesZero)
                              else SExcludesZero)\<rparr>
      | _ \<Rightarrow> base)"

subsection \<open>Facts about contrasts\<close>

lemma mean_some: "2 \<le> length xs \<Longrightarrow> mean xs = Some (sum_list xs / real (length xs))"
  by (auto simp: mean_def)

lemma contrast_short:
  "length (values_of crs metric) < 2 \<or> length (values_of ars metric) < 2 \<Longrightarrow>
     ct_diff (contrast_of nm arm crs ars metric) = None
     \<and> ct_detectable (contrast_of nm arm crs ars metric) = None
     \<and> ct_verdict (contrast_of nm arm crs ars metric) = ''insufficient data''
     \<and> ct_sentence (contrast_of nm arm crs ars metric) = SInsufficient"
  by (auto simp: contrast_of_def Let_def split: option.split)

lemma contrast_long:
  fixes nm :: numerics
  assumes "2 \<le> length a" "2 \<le> length b" "a = values_of crs metric" "b = values_of ars metric"
  defines "d \<equiv> sum_list b / real (length b) - sum_list a / real (length a)"
    and "str \<equiv> straddles (ci_lo (diff_ci nm a b)) (ci_hi (diff_ci nm a b))"
  shows "ct_diff (contrast_of nm arm crs ars metric) = Some d"
    "ct_ci_lo (contrast_of nm arm crs ars metric) = ci_lo (diff_ci nm a b)"
    "ct_ci_hi (contrast_of nm arm crs ars metric) = ci_hi (diff_ci nm a b)"
    "ct_detectable (contrast_of nm arm crs ars metric) = Some (\<not> str)"
    "ct_verdict (contrast_of nm arm crs ars metric) =
       (if str then ''no detectable difference'' else direction_verdict metric d)"
  using assms(1,2) unfolding d_def str_def assms(3,4)
  by (simp_all add: contrast_of_def Let_def mean_some)

lemma separated_interval:
  fixes a b :: "real list"
  assumes "interval_in c (list_min b - list_max a) (list_max b - list_min a)" "list_max b < list_min a"
  shows "\<not> straddles (ci_lo c) (ci_hi c)"
  using assms by (auto simp: interval_in_def straddles_def split: option.splits)

lemma contrast_separated_above:
  assumes "draws_ok (choice_draw nm)"
    and "2 \<le> length (values_of crs metric)" and "2 \<le> length (values_of ars metric)"
    and "list_max (values_of crs metric) < list_min (values_of ars metric)"
  shows "ct_detectable (contrast_of nm arm crs ars metric) = Some True
    \<and> (\<exists>d. ct_diff (contrast_of nm arm crs ars metric) = Some d \<and> 0 < d)"
proof -
  let ?a = "values_of crs metric" and ?b = "values_of ars metric"
  note facts = contrast_long [OF assms(2,3) refl refl, of nm arm]
  have str: "\<not> straddles (ci_lo (diff_ci nm ?a ?b)) (ci_hi (diff_ci nm ?a ?b))"
    using diff_ci_interval [OF assms(1-3)] assms(4) by (auto simp: interval_in_def straddles_def split: option.splits)
  have "sum_list ?a / real (length ?a) < sum_list ?b / real (length ?b)"
    using mean_bounds [OF mean_some [OF assms(2)]] mean_bounds [OF mean_some [OF assms(3)]] assms(4) by linarith
  then show ?thesis using facts str by simp
qed

lemma contrast_separated_facts:
  assumes "draws_ok (choice_draw nm)" and "metric_lower_better metric = Some True"
    and "2 \<le> length (values_of crs metric)" and "2 \<le> length (values_of ars metric)"
    and "list_max (values_of ars metric) < list_min (values_of crs metric)"
  shows "ct_detectable (contrast_of nm arm crs ars metric) = Some True
    \<and> ct_verdict (contrast_of nm arm crs ars metric) = ''lower (better)''
    \<and> (\<exists>d. ct_diff (contrast_of nm arm crs ars metric) = Some d \<and> d < 0)"
proof -
  let ?a = "values_of crs metric" and ?b = "values_of ars metric"
  note facts = contrast_long [OF assms(3,4) refl refl, of nm arm]
  have str: "\<not> straddles (ci_lo (diff_ci nm ?a ?b)) (ci_hi (diff_ci nm ?a ?b))"
    using separated_interval diff_ci_interval [OF assms(1,3,4)] assms(5) by blast
  have "sum_list ?b / real (length ?b) < sum_list ?a / real (length ?a)"
    using mean_bounds [OF mean_some [OF assms(3)]] mean_bounds [OF mean_some [OF assms(4)]] assms(5) by linarith
  then show ?thesis using facts str assms(2) by (simp add: direction_verdict_def Let_def)
qed

subsection \<open>Properties\<close>


text \<open>C28: when every value of the arm is below every value of the control, on a metric where lower is
  better, the contrast is always detectable and reported as lower and better: the bootstrap interval
  cannot reach zero, whichever method produced it.\<close>

theorem contrast_separated:
  assumes "draws_ok (choice_draw nm)" and "metric_lower_better metric = Some True"
    and "2 \<le> length (values_of crs metric)" and "2 \<le> length (values_of ars metric)"
    and "list_max (values_of ars metric) < list_min (values_of crs metric)"
  shows "ct_detectable (contrast_of nm arm crs ars metric) = Some True
    \<and> ct_verdict (contrast_of nm arm crs ars metric) = ''lower (better)''"
  using contrast_separated_facts [OF assms] by blast

definition demo_row :: "string \<Rightarrow> real \<Rightarrow> real \<Rightarrow> row" where
  "demo_row arm rep joules =
     \<lparr>r_file = arm @ ''.json'', r_experiment = ''e3-ab'', r_arm = arm, r_sched = JStr ''eevdf'',
      r_epp_mode = JStr (if arm = ''eevdf-flat'' then ''flat'' else ''partitioned''), r_strict = JBool False,
      r_timestamp = JNull, r_ok = JBool True, r_on_ac = JBool True, r_exit_code = Some 0, r_info = [],
      r_nums = [(''rep'', Some rep), (''energy_to_solution_j'', Some joules)],
      r_partitioned_epp = False, r_big_cpus = [0..<8], r_little_cpus = [], r_smt_pairs_split = 0,
      r_pinger_present = False, r_spin_present = False, r_bls_present = False, r_spin_threads = 0,
      r_bls_extra = []\<rparr>"

definition demo_control :: "row list" where
  "demo_control = [demo_row ''eevdf-flat'' 0 42, demo_row ''eevdf-flat'' 1 44]"

definition demo_arm :: "row list" where
  "demo_arm = [demo_row ''eevdf-partitioned'' 0 40, demo_row ''eevdf-partitioned'' 1 38]"

lemma demo_values:
  "values_of demo_control ''energy_to_solution_j'' = [42, 44]"
  "values_of demo_arm ''energy_to_solution_j'' = [40, 38]"
  by (simp_all add: values_of_def clean_def col_def demo_control_def demo_arm_def demo_row_def List.map_filter_simps)

theorem contrast_separated_witness:
  "ct_verdict (contrast_of demo_numerics ''x'' demo_control demo_arm ''energy_to_solution_j'') = ''lower (better)''"
  using contrast_separated [OF demo_draws(1), of "''energy_to_solution_j''" demo_control demo_arm "''x''"]
  by (simp add: demo_values metric_lower_better_def METRICS_def)

end
