(* ===== verification/Gates.thy ===== *)
theory Gates
  imports Contrasts Fmt
begin

text \<open>
  The data-quality part of \<open>scripts/analyze.py\<close>: \<open>quality_gates\<close>, \<open>placement_sanity\<close>,
  \<open>frequency_divergence\<close> and \<open>coverage\<close>. A gate is its name, status and the text of its numbers; a
  frequency verdict in words is a constructor.
\<close>

definition MAX_START_TEMP_SPREAD_C :: real where "MAX_START_TEMP_SPREAD_C = 5"
definition THROTTLE_MARGIN_C :: real where "THROTTLE_MARGIN_C = 3"
definition TJMAX_C :: real where "TJMAX_C = 100"
definition MAX_CROSS_DOMAIN_FRAC :: real where "MAX_CROSS_DOMAIN_FRAC = 20 / 100"
definition DRIFT_RHO :: real where "DRIFT_RHO = 6 / 10"
definition FREQ_RATIO_REAL :: real where "FREQ_RATIO_REAL = 90 / 100"

datatype status = PASS | FAIL | SKIP | INFO

record gate =
  g_name :: string
  g_status :: status
  g_detail :: string

definition all_rows :: "arms \<Rightarrow> row list" where
  "all_rows arms = concat (map snd arms)"

definition failed :: "gate list \<Rightarrow> bool" where
  "failed gates = list_ex (\<lambda>g. g_status g = FAIL) gates"

subsection \<open>The six gates of an experiment\<close>

definition basename :: "string \<Rightarrow> string" where
  "basename path = last (split_on CHR ''/'' path)"

definition slash :: "nat \<Rightarrow> nat \<Rightarrow> string" where
  "slash a b = nat_str a @ ''/'' @ nat_str b"

definition completion_gate :: "arms \<Rightarrow> gate" where
  "completion_gate arms =
     (let rs = all_rows arms;
          bad_ok = filter (\<lambda>r. r_ok r \<noteq> JBool True) rs;
          bad_exit = filter (\<lambda>r. r_exit_code r \<noteq> Some 0) rs
      in if bad_ok \<noteq> [] \<or> bad_exit \<noteq> [] then
           let files = take 8 (sort (remdups (map (\<lambda>r. basename (r_file r)) (bad_ok @ bad_exit)))) in
           \<lparr>g_name = ''run completion'', g_status = FAIL,
            g_detail = slash (length bad_ok) (length rs) @ '' runs with ok != true, ''
              @ slash (length bad_exit) (length rs) @ '' with exit_code != 0: ''
              @ (if join_str '', '' files = [] then ''-'' else join_str '', '' files)\<rparr>
         else
           \<lparr>g_name = ''run completion'', g_status = PASS,
            g_detail = slash (length rs) (length rs) @ '' runs have ok=true and exit_code=0''\<rparr>)"

text \<open>The mean starting temperature of every arm that has one.\<close>

definition arm_temps :: "arms \<Rightarrow> (string \<times> real) list" where
  "arm_temps arms = List.map_filter (\<lambda>(a, rs). map_option (Pair a) (mean (values_of rs ''start_temp_c''))) arms"

definition temperature_gate :: "arms \<Rightarrow> gate" where
  "temperature_gate arms =
     (let have = arm_temps arms in
      if length have < 2 then
        \<lparr>g_name = ''start temperature spread'', g_status = SKIP,
         g_detail = ''start_temp_c present for '' @ slash (length have) (length arms) @ '' arms''\<rparr>
      else
        let spread = list_max (map snd have) - list_min (map snd have);
            hot = the (max_by snd have); cold = the (min_by snd have)
        in \<lparr>g_name = ''start temperature spread'',
            g_status = (if spread < MAX_START_TEMP_SPREAD_C then PASS else FAIL),
            g_detail = ''max-min of per-arm mean start_temp_c = '' @ fixed 2 spread @ '' C (limit ''
              @ fixed 1 MAX_START_TEMP_SPREAD_C @ ''); hottest '' @ fst hot @ '' '' @ fixed 1 (snd hot)
              @ '' C, coldest '' @ fst cold @ '' '' @ fixed 1 (snd cold) @ '' C''\<rparr>)"

text \<open>The arms of every power state the runs report, the state as \<open>repr\<close> prints it.\<close>

definition ac_states :: "(real \<Rightarrow> string) \<Rightarrow> arms \<Rightarrow> (string \<times> string list) list" where
  "ac_states fr arms =
     map (\<lambda>(k, ars). (k, map fst ars))
       (group_by (\<lambda>(a, r). py_repr fr (r_on_ac r)) (concat (map (\<lambda>(a, rs). map (Pair a) rs) arms)))"

definition ac_gate :: "(real \<Rightarrow> string) \<Rightarrow> arms \<Rightarrow> gate" where
  "ac_gate fr arms =
     (let ac = ac_states fr arms in
      if length ac = 1 then
        \<lparr>g_name = ''on_ac consistent'', g_status = PASS,
         g_detail = ''all '' @ nat_str (length (all_rows arms)) @ '' runs on_ac='' @ fst (hd ac)\<rparr>
      else
        \<lparr>g_name = ''on_ac consistent'', g_status = FAIL,
         g_detail = ''mixed AC state across runs: ''
           @ join_str ''; '' (map (\<lambda>(k, v). k @ '' in arms {'' @ join_str '','' (sort (remdups v)) @ ''}'') (sort ac))\<rparr>)"

definition thermal_gate :: "arms \<Rightarrow> gate" where
  "thermal_gate arms =
     (let cmax = List.map_filter (\<lambda>r. map_option (Pair r) (col r ''pkg_c_max'')) (all_rows arms);
          limit = TJMAX_C - THROTTLE_MARGIN_C;
          near = filter (\<lambda>(r, v). v \<ge> limit) cmax
      in if cmax = [] then
           \<lparr>g_name = ''thermal headroom'', g_status = SKIP, g_detail = ''no pkg_c_max recorded''\<rparr>
         else
           let worst = the (max_by snd cmax) in
           \<lparr>g_name = ''thermal headroom'', g_status = (if near = [] then PASS else FAIL),
            g_detail = ''max pkg_c_max = '' @ fixed 1 (snd worst) @ '' C in arm '' @ r_arm (fst worst)
              @ '' (limit '' @ fixed 1 limit @ '' C = Tjmax-'' @ fixed 0 THROTTLE_MARGIN_C @ ''); ''
              @ slash (length near) (length cmax) @ '' runs at or above the limit''\<rparr>)"

definition balance_gate :: "arms \<Rightarrow> gate" where
  "balance_gate arms =
     \<lparr>g_name = ''balanced reps per arm'',
      g_status = (if length (remdups (map (\<lambda>(a, rs). length rs) arms)) \<le> 1 then PASS else FAIL),
      g_detail = join_str '', '' (map (\<lambda>a. a @ ''='' @ nat_str (length (arm_rows arms a))) (sorted_arms arms))\<rparr>"

record drift =
  d_arm :: string
  d_metric :: string
  d_rho :: real
  d_n :: nat

definition drift_of :: "arms \<Rightarrow> string \<Rightarrow> string \<Rightarrow> drift option" where
  "drift_of arms a m =
     (let rs = arm_rows arms a in
      case spearman (map (\<lambda>r. col r ''rep'') rs) (map (\<lambda>r. col r m) rs) of
        None \<Rightarrow> None
      | Some rho \<Rightarrow>
          if \<bar>rho\<bar> > DRIFT_RHO then Some \<lparr>d_arm = a, d_metric = m, d_rho = rho, d_n = length rs\<rparr> else None)"

definition drifts :: "arms \<Rightarrow> string list \<Rightarrow> drift list" where
  "drifts arms metrics =
     concat (map (\<lambda>a. List.map_filter (drift_of arms a) metrics) (sorted_arms arms))"

text \<open>The warning the drift gate adds when the smallest arm has fewer than eight runs.\<close>

definition drift_caveat :: "arms \<Rightarrow> string" where
  "drift_caveat arms =
     (let min_n = (if arms = [] then 0 else list_min (map (\<lambda>(a, rs). length rs) arms)) in
      if min_n \<ge> 8 then []
      else ''  [n='' @ nat_str min_n @ '' per arm: rho is noisy at this size, treat as a prompt to ''
           @ ''inspect the run order, not as proof of drift]'')"

definition drift_gate :: "arms \<Rightarrow> drift list \<Rightarrow> gate" where
  "drift_gate arms ds =
     (if ds \<noteq> [] then
        \<lparr>g_name = ''run-order drift'', g_status = FAIL,
         g_detail = nat_str (length ds) @ '' arm/metric pairs with |Spearman rho vs rep| > '' @ fixed 1 DRIFT_RHO
           @ '': '' @ join_str ''; '' (map (\<lambda>d. d_arm d @ ''/'' @ d_metric d @ '' rho='' @ signed_fixed 2 (d_rho d))
                                    (take 6 ds)) @ drift_caveat arms\<rparr>
      else
        \<lparr>g_name = ''run-order drift'', g_status = PASS,
         g_detail = ''no arm/metric pair exceeds |Spearman rho vs rep| = '' @ fixed 1 DRIFT_RHO\<rparr>)"

definition quality_gates :: "(real \<Rightarrow> string) \<Rightarrow> arms \<Rightarrow> string list \<Rightarrow> gate list \<times> drift list" where
  "quality_gates fr arms metrics =
     (let ds = drifts arms metrics in
      ([completion_gate arms, temperature_gate arms, ac_gate fr arms, thermal_gate arms, balance_gate arms,
        drift_gate arms ds], ds))"

subsection \<open>Placement\<close>

record placement_arm =
  pl_arm :: string
  pl_n :: nat
  pl_n_with_bls :: nat
  pl_strict :: json
  pl_enqueue_mean :: "real option"
  pl_cross_frac_mean :: "real option"
  pl_cross_frac_max :: "real option"
  pl_run_big_frac_mean :: "real option"
  pl_run_little_frac_mean :: "real option"
  pl_dsq_big_frac_mean :: "real option"

definition with_bls :: "row list \<Rightarrow> row list" where
  "with_bls rs = filter r_bls_present rs"

definition placement_arm_of :: "string \<Rightarrow> row list \<Rightarrow> placement_arm" where
  "placement_arm_of a rs =
     (let wb = with_bls rs; cross = values_of wb ''bls_cross_frac'' in
      if wb = [] then
        \<lparr>pl_arm = a, pl_n = length rs, pl_n_with_bls = 0, pl_strict = JNull, pl_enqueue_mean = None,
         pl_cross_frac_mean = None, pl_cross_frac_max = None, pl_run_big_frac_mean = None,
         pl_run_little_frac_mean = None, pl_dsq_big_frac_mean = None\<rparr>
      else
        \<lparr>pl_arm = a, pl_n = length rs, pl_n_with_bls = length wb, pl_strict = r_strict (hd wb),
         pl_enqueue_mean = mean (values_of wb ''bls_enqueue''),
         pl_cross_frac_mean = mean cross,
         pl_cross_frac_max = (if cross = [] then None else Some (list_max cross)),
         pl_run_big_frac_mean = mean (values_of wb ''bls_run_big_frac''),
         pl_run_little_frac_mean = mean (values_of wb ''bls_run_little_frac''),
         pl_dsq_big_frac_mean = mean (values_of wb ''bls_dsq_big_frac'')\<rparr>)"

definition placement_gate :: "placement_arm \<Rightarrow> gate option" where
  "placement_gate p =
     (case pl_cross_frac_mean p of
        None \<Rightarrow> None
      | Some x \<Rightarrow>
          let over = x > MAX_CROSS_DOMAIN_FRAC;
              shares = ''run time big/LITTLE = '' @ pct (pl_run_big_frac_mean p) @ '' / '' @ pct (pl_run_little_frac_mean p)
          in if pl_strict p = JBool True then
               Some \<lparr>g_name = ''placement: '' @ pl_arm p @ '' (strict)'', g_status = (if over then FAIL else PASS),
                 g_detail = ''cross_domain/enqueue = '' @ fixed 1 (100 * x) @ ''% (max over runs ''
                   @ fixed 1 (100 * (case pl_cross_frac_max p of None \<Rightarrow> 0 | Some m \<Rightarrow> m)) @ ''%), budget ''
                   @ fixed 0 (100 * MAX_CROSS_DOMAIN_FRAC) @ ''%; '' @ shares
                   @ (if over then ''  -- the tasks did NOT stay partitioned, so this arm cannot ''
                        @ ''support any claim about partitioning.'' else [])\<rparr>
             else
               Some \<lparr>g_name = ''placement: '' @ pl_arm p @ '' (non-strict)'', g_status = INFO,
                 g_detail = ''cross_domain/enqueue = '' @ fixed 1 (100 * x) @ ''%; '' @ shares\<rparr>)"

record placement =
  pm_arms :: "placement_arm list"
  pm_gates :: "gate list"
  pm_ok :: bool

definition placement_sanity :: "arms \<Rightarrow> placement" where
  "placement_sanity arms =
     (let ps = map (\<lambda>a. placement_arm_of a (arm_rows arms a)) (sorted_arms arms);
          gates = List.map_filter placement_gate ps
                  @ (if list_ex (\<lambda>p. pl_n_with_bls p \<noteq> 0) ps then []
                     else [\<lparr>g_name = ''placement'', g_status = SKIP,
                              g_detail = ''no arm reported bls scheduler counters''\<rparr>])
      in \<lparr>pm_arms = ps, pm_gates = gates, pm_ok = (\<not> failed gates)\<rparr>)"

subsection \<open>Frequency divergence\<close>

datatype freq_verdict = FlatEpp | NoFrequencyData | NotPhysicallyReal | SplitReal

datatype freq_note = NoSplitRequested | NotRealAnywhere | RealIn real string

record cpu_freq =
  cf_cpu :: nat
  cf_bzy_mhz :: "real option"
  cf_avg_mhz :: "real option"
  cf_busy :: "real option"
  cf_epp :: "real option"

record freq_arm =
  fa_arm :: string
  fa_n :: nat
  fa_partitioned_epp :: bool
  fa_smt_pairs_split :: nat
  fa_per_cpu :: "cpu_freq list"
  fa_big_bzy_mhz :: "real option"
  fa_little_bzy_mhz :: "real option"
  fa_ratio :: "real option"
  fa_ratio_ci :: ci
  fa_verdict :: freq_verdict

definition freq_arm_of :: "numerics \<Rightarrow> string \<Rightarrow> row list \<Rightarrow> freq_arm" where
  "freq_arm_of nm a rs =
     (let ratios = values_of rs ''bzy_ratio_little_over_big'';
          part = list_ex r_partitioned_epp rs;
          rr = mean ratios
      in \<lparr>fa_arm = a, fa_n = length rs, fa_partitioned_epp = part,
          fa_smt_pairs_split = (if rs = [] then 0 else list_max (map r_smt_pairs_split rs)),
          fa_per_cpu = map (\<lambda>i. \<lparr>cf_cpu = i, cf_bzy_mhz = mean (values_of rs (cpu_col i ''bzy_mhz'')),
              cf_avg_mhz = mean (values_of rs (cpu_col i ''avg_mhz'')),
              cf_busy = mean (values_of rs (cpu_col i ''busy'')),
              cf_epp = median (values_of rs (cpu_col i ''epp''))\<rparr>) [0..<N_CPUS],
          fa_big_bzy_mhz = mean (values_of rs ''bzy_mhz_big_mean''),
          fa_little_bzy_mhz = mean (values_of rs ''bzy_mhz_little_mean''),
          fa_ratio = rr,
          fa_ratio_ci = (if length ratios \<ge> 2 then (mean_ci nm ratios)\<lparr>ci_point := None\<rparr> else no_ci None),
          fa_verdict = (if \<not> part then FlatEpp
                        else case rr of None \<Rightarrow> NoFrequencyData
                             | Some x \<Rightarrow> if x \<ge> FREQ_RATIO_REAL then NotPhysicallyReal else SplitReal)\<rparr>)"

record frequency =
  fq_arms :: "freq_arm list"
  fq_note :: freq_note

definition frequency_note :: "freq_arm list \<Rightarrow> freq_note" where
  "frequency_note fas =
     (let real = List.map_filter (\<lambda>f. if fa_partitioned_epp f
                    then map_option (\<lambda>x. (x, fa_arm f)) (fa_ratio f) else None) fas
      in if real = [] then NoSplitRequested
         else if list_all (\<lambda>(x, a). x \<ge> FREQ_RATIO_REAL) real then NotRealAnywhere
         else (case min_by fst real of Some (x, a) \<Rightarrow> RealIn x a | None \<Rightarrow> NoSplitRequested))"

definition frequency_divergence :: "numerics \<Rightarrow> arms \<Rightarrow> frequency" where
  "frequency_divergence nm arms =
     (let fas = map (\<lambda>a. freq_arm_of nm a (arm_rows arms a)) (sorted_arms arms)
      in \<lparr>fq_arms = fas, fq_note = frequency_note fas\<rparr>)"

text \<open>The gate \<open>analyze\<close> adds for every arm that requested a split and has frequencies.\<close>

definition frequency_gate :: "freq_arm \<Rightarrow> gate option" where
  "frequency_gate f =
     (if fa_partitioned_epp f then
        map_option (\<lambda>x. \<lparr>g_name = ''partition is physically real: '' @ fa_arm f,
            g_status = (if x \<ge> FREQ_RATIO_REAL then FAIL else PASS),
            g_detail = ''little/big bzy MHz = '' @ fixed 3 x @ '' ('' @ fmt 3 (fa_little_bzy_mhz f) @ '' MHz / ''
              @ fmt 3 (fa_big_bzy_mhz f) @ '' MHz over '' @ nat_str (fa_n f) @ '' runs); a real split needs < ''
              @ fixed 2 FREQ_RATIO_REAL
              @ (if x \<ge> FREQ_RATIO_REAL then ''  -- EPP did not separate the frequency domains, so no downstream ''
                   @ ''energy difference can be attributed to partitioning.'' else [])\<rparr>) (fa_ratio f)
      else None)"

subsection \<open>Coverage\<close>

record field_coverage =
  fc_field :: string
  fc_present :: nat
  fc_missing :: nat
  fc_pct :: real

definition coverage_checks :: "(string \<times> string) list" where
  "coverage_checks =
     [(''energy.pkg_j'', ''pkg_j''), (''energy.wall_s'', ''wall_s''), (''energy.rest_j'', ''rest_j''),
      (''energy.cpu_bzy_mhz'', ''cpu0_bzy_mhz''), (''energy.epp'', ''cpu0_epp''),
      (''env.start_temp_c'', ''start_temp_c''), (''energy.pkg_c_max'', ''pkg_c_max'')]"

definition field_coverage_of :: "row list \<Rightarrow> string \<Rightarrow> (row \<Rightarrow> bool) \<Rightarrow> field_coverage" where
  "field_coverage_of rows label present =
     (let have = length (filter present rows); n = length rows in
      \<lparr>fc_field = label, fc_present = have, fc_missing = n - have,
       fc_pct = (if n = 0 then 0 else 100 * real have / real n)\<rparr>)"

definition coverage :: "row list \<Rightarrow> field_coverage list" where
  "coverage rows =
     map (\<lambda>(label, c). field_coverage_of rows label (\<lambda>r. col r c \<noteq> None)) coverage_checks
     @ [field_coverage_of rows ''pinger'' r_pinger_present, field_coverage_of rows ''spin'' r_spin_present,
        field_coverage_of rows ''bls'' r_bls_present]"

lemma drifts_empty:
  "drifts arms metrics = [] \<longleftrightarrow>
     (\<forall>a \<in> set (sorted_arms arms). \<forall>m \<in> set metrics. drift_of arms a m = None)"
proof -
  have "List.map_filter f xs = [] \<longleftrightarrow> (\<forall>x \<in> set xs. f x = None)" for f :: "string \<Rightarrow> drift option" and xs
    by (induction xs) (auto simp: List.map_filter_simps split: option.splits)
  then show ?thesis by (simp add: drifts_def)
qed

lemma group_by_length: "length (group_by key xs) = card (key ` set xs)"
  using distinct_card [OF group_by_spec(1) [of key xs]] group_by_spec(2) [of key xs] by (simp only: length_map)

lemma ac_states_length: "length (ac_states fr arms) = card ((\<lambda>r. py_repr fr (r_on_ac r)) ` set (all_rows arms))"
proof -
  have "set (concat (map (\<lambda>(a, rs). map (Pair a) rs) arms)) = {(a, r). \<exists>rs. (a, rs) \<in> set arms \<and> r \<in> set rs}"
    by auto
  then have "(\<lambda>(a, r). py_repr fr (r_on_ac r)) ` set (concat (map (\<lambda>(a, rs). map (Pair a) rs) arms))
      = (\<lambda>r. py_repr fr (r_on_ac r)) ` set (all_rows arms)"
    by (force simp: all_rows_def)
  then show ?thesis by (simp only: ac_states_def length_map group_by_length)
qed

lemma thermal_near:
  "g_status (thermal_gate arms) \<noteq> FAIL \<longleftrightarrow> list_all (\<lambda>v. v < 97) (values_of (all_rows arms) ''pkg_c_max'')"
proof -
  have "filter (\<lambda>(r, v). v \<ge> l) (List.map_filter (\<lambda>r. map_option (Pair r) (col r k)) rs) = []
      \<longleftrightarrow> list_all (\<lambda>v. v < l) (values_of rs k)" for l k rs
    by (induction rs) (auto simp: values_of_def clean_def List.map_filter_simps split: option.split)
  then show ?thesis by (simp add: thermal_gate_def Let_def TJMAX_C_def THROTTLE_MARGIN_C_def List.map_filter_simps) force
qed

lemma quality_gates_facts:
  "(\<not> failed (fst (quality_gates fr arms metrics))) =
     (list_all (\<lambda>r. r_ok r = JBool True \<and> r_exit_code r = Some 0) (all_rows arms)
      \<and> (length (arm_temps arms) < 2 \<or> list_max (map snd (arm_temps arms)) - list_min (map snd (arm_temps arms)) < 5)
      \<and> card ((\<lambda>r. py_repr fr (r_on_ac r)) ` set (all_rows arms)) = 1
      \<and> list_all (\<lambda>v. v < 97) (values_of (all_rows arms) ''pkg_c_max'')
      \<and> card ((\<lambda>(a, rs). length rs) ` set arms) \<le> 1
      \<and> list_all (\<lambda>a. list_all (\<lambda>m. pred_option (\<lambda>rho. \<bar>rho\<bar> \<le> 6 / 10)
          (spearman (map (\<lambda>r. col r ''rep'') (arm_rows arms a)) (map (\<lambda>r. col r m) (arm_rows arms a))))
          metrics) (sorted_arms arms))"
proof -
  have ok: "g_status (completion_gate arms) \<noteq> FAIL \<longleftrightarrow>
      list_all (\<lambda>r. r_ok r = JBool True \<and> r_exit_code r = Some 0) (all_rows arms)"
    by (auto simp: completion_gate_def Let_def list_all_iff filter_empty_conv)
  have temp: "g_status (temperature_gate arms) \<noteq> FAIL \<longleftrightarrow>
      length (arm_temps arms) < 2 \<or> list_max (map snd (arm_temps arms)) - list_min (map snd (arm_temps arms)) < 5"
    by (simp add: temperature_gate_def Let_def MAX_START_TEMP_SPREAD_C_def)
  have ac: "g_status (ac_gate fr arms) \<noteq> FAIL \<longleftrightarrow> card ((\<lambda>r. py_repr fr (r_on_ac r)) ` set (all_rows arms)) = 1"
    by (simp add: ac_gate_def Let_def ac_states_length)
  have bal: "g_status (balance_gate arms) \<noteq> FAIL \<longleftrightarrow> card ((\<lambda>(a, rs). length rs) ` set arms) \<le> 1"
    by (simp add: balance_gate_def length_remdups_card_conv)
  have none: "drift_of arms a m = None \<longleftrightarrow> pred_option (\<lambda>rho. \<bar>rho\<bar> \<le> 6 / 10)
      (spearman (map (\<lambda>r. col r ''rep'') (arm_rows arms a)) (map (\<lambda>r. col r m) (arm_rows arms a)))" for a m
    by (auto simp: drift_of_def Let_def DRIFT_RHO_def not_less split: option.split)
  have drift: "g_status (drift_gate arms (drifts arms metrics)) \<noteq> FAIL \<longleftrightarrow>
      list_all (\<lambda>a. list_all (\<lambda>m. drift_of arms a m = None) metrics) (sorted_arms arms)"
    by (simp add: drift_gate_def drifts_empty list_all_iff)
  show ?thesis
    unfolding ok [symmetric] temp [symmetric] ac [symmetric] thermal_near [symmetric] bal [symmetric] none [symmetric]
      drift [symmetric]
    by (simp add: quality_gates_def Let_def failed_def)
qed

subsection \<open>Properties\<close>

text \<open>C9: an experiment passes its six gates exactly when every run is marked ok and exited with 0, the
  mean starting temperatures of the arms differ by less than 5 degrees where two are known, all runs saw
  the same power source, no run came within 3 degrees of 100 C, the arms have equally many runs, and no
  metric of an arm correlates with the repetition beyond 0.6.\<close>

theorem quality_gates_meaning:
  "(\<not> failed (fst (quality_gates fr arms metrics))) =
     (list_all (\<lambda>r. r_ok r = JBool True \<and> r_exit_code r = Some 0) (all_rows arms)
      \<and> (length (arm_temps arms) < 2 \<or> list_max (map snd (arm_temps arms)) - list_min (map snd (arm_temps arms)) < 5)
      \<and> card ((\<lambda>r. py_repr fr (r_on_ac r)) ` set (all_rows arms)) = 1
      \<and> list_all (\<lambda>v. v < 97) (values_of (all_rows arms) ''pkg_c_max'')
      \<and> card ((\<lambda>(a, rs). length rs) ` set arms) \<le> 1
      \<and> list_all (\<lambda>a. list_all (\<lambda>m. pred_option (\<lambda>rho. \<bar>rho\<bar> \<le> 6 / 10)
          (spearman (map (\<lambda>r. col r ''rep'') (arm_rows arms a)) (map (\<lambda>r. col r m) (arm_rows arms a))))
          metrics) (sorted_arms arms))"
  by (rule quality_gates_facts)

end
