(* ===== verification/Report.thy ===== *)
theory Report
  imports Gates
begin

text \<open>
  The analysis driver of \<open>scripts/analyze.py\<close>: \<open>analyze\<close>, \<open>experiment_verdict\<close> and
  \<open>overall_headline\<close>. The lines of a verdict and of the headline are constructors that carry the arms,
  gates and numbers the text names.
\<close>

definition RAIL_EXPERIMENT :: string where "RAIL_EXPERIMENT = ''e1-rail''"

subsection \<open>The record of an experiment\<close>

datatype control_reason = ByFactors | ByName | FirstAlphabetically

record mde_row =
  m_arm :: string
  m_metric :: string
  m_unit :: string
  m_n_control :: nat
  m_n_arm :: nat
  m_pooled_sd :: "real option"
  m_control_mean :: "real option"
  m_mde_abs :: "real option"
  m_mde_pct :: "real option"

datatype verdict_line =
    VNoEnergyData string
  | VInsufficient string "string option"
  | VNotDetectable contrast "string option"
  | VEffect contrast "string option"
  | VCaution bool "string list"
  | VNote freq_note
  | VFailing "string list"

record erec =
  e_experiment :: string
  e_n_runs :: nat
  e_arms :: "string list"
  e_n_per_arm :: "(string \<times> nat) list"
  e_control :: "string option"
  e_control_selection :: control_reason
  e_metrics :: "string list"
  e_summary :: "summary list"
  e_contrasts :: "contrast list"
  e_mde :: "mde_row list"
  e_gates :: "gate list"
  e_drift :: "drift list"
  e_placement :: placement
  e_coverage :: "field_coverage list"
  e_frequency :: frequency
  e_render_frequency :: bool

definition control_rows :: "arms \<Rightarrow> row list" where
  "control_rows arms = (case pick_control arms of None \<Rightarrow> [] | Some a \<Rightarrow> arm_rows arms a)"

definition control_reason_of :: "arms \<Rightarrow> control_reason" where
  "control_reason_of arms =
     (if control_rows arms \<noteq> [] \<and> \<not> is_flat_eevdf (control_rows arms) then
        (if lower (case pick_control arms of None \<Rightarrow> [] | Some a \<Rightarrow> a) = ''control'' then ByName
         else FirstAlphabetically)
      else ByFactors)"

definition treated_arms :: "arms \<Rightarrow> string list" where
  "treated_arms arms = filter (\<lambda>a. Some a \<noteq> pick_control arms) (sorted_arms arms)"

definition contrasts_of :: "numerics \<Rightarrow> arms \<Rightarrow> string list \<Rightarrow> contrast list" where
  "contrasts_of nm arms metrics =
     concat (map (\<lambda>a. map (contrast_of nm a (control_rows arms) (arm_rows arms a)) metrics) (treated_arms arms))"

definition mde_row_of :: "row list \<Rightarrow> row list \<Rightarrow> contrast \<Rightarrow> mde_row" where
  "mde_row_of crs ars c =
     \<lparr>m_arm = ct_arm c, m_metric = ct_metric c, m_unit = metric_unit (ct_metric c),
      m_n_control = ct_n_control c, m_n_arm = ct_n_arm c,
      m_pooled_sd = pooled_sd (values_of crs (ct_metric c)) (values_of ars (ct_metric c)),
      m_control_mean = ct_mean_control c, m_mde_abs = ct_mde_abs c, m_mde_pct = ct_mde_pct c\<rparr>"

definition experiment_record :: "numerics \<Rightarrow> string \<Rightarrow> arms \<Rightarrow> erec" where
  "experiment_record nm name arms =
     (let rows = all_rows arms; metrics = available_metrics rows;
          (gates, ds) = quality_gates (float_repr nm) arms metrics; freq = frequency_divergence nm arms;
          cs = contrasts_of nm arms metrics
      in \<lparr>e_experiment = name, e_n_runs = length rows, e_arms = sorted_arms arms,
          e_n_per_arm = map (\<lambda>a. (a, length (arm_rows arms a))) (sorted_arms arms),
          e_control = pick_control arms, e_control_selection = control_reason_of arms, e_metrics = metrics,
          e_summary = concat (map (\<lambda>a. map (summarize_arm nm a (arm_rows arms a)) metrics) (sorted_arms arms)),
          e_contrasts = cs,
          e_mde = map (\<lambda>c. mde_row_of (control_rows arms) (arm_rows arms (ct_arm c)) c) cs,
          e_gates = gates @ List.map_filter frequency_gate (fq_arms freq), e_drift = ds,
          e_placement = placement_sanity arms, e_coverage = coverage rows, e_frequency = freq,
          e_render_frequency = (name = RAIL_EXPERIMENT)\<rparr>)"

subsection \<open>The verdict of an experiment\<close>

definition failed_names :: "erec \<Rightarrow> string list" where
  "failed_names e =
     map g_name (filter (\<lambda>g. g_status g = FAIL) (e_gates e @ pm_gates (e_placement e)))"

definition contrast_lines :: "erec \<Rightarrow> contrast \<Rightarrow> verdict_line list" where
  "contrast_lines e c =
     (case ct_diff c of
        None \<Rightarrow> [VInsufficient (ct_arm c) (e_control e)]
      | Some d \<Rightarrow>
          if ct_detectable c \<noteq> Some True then [VNotDetectable c (e_control e)]
          else VEffect c (e_control e)
               # (if failed_names e \<noteq> [] then [VCaution (d < 0) (sort (remdups (failed_names e)))] else []))"

definition experiment_verdict :: "erec \<Rightarrow> verdict_line list" where
  "experiment_verdict e =
     (let head = filter (\<lambda>c. ct_metric c = HEADLINE_METRIC) (e_contrasts e) in
      (if head = [] then [VNoEnergyData (e_experiment e)] else [])
      @ concat (map (contrast_lines e) head)
      @ [VNote (fq_note (e_frequency e))]
      @ (if failed_names e \<noteq> [] then [VFailing (sort (remdups (failed_names e)))] else []))"

subsection \<open>The headline\<close>

type_synonym tagged = "(string \<times> string) \<times> contrast"

datatype headline_line =
    HSavings "((string \<times> string) \<times> real) list"
  | HBeforeBelieving
  | HNotAdmissible "(string \<times> string) list"
  | HNoSaving nat
  | HBounded real real
  | HNoExperiments
  | HNoContrast

definition gate_fail :: "erec \<Rightarrow> bool" where
  "gate_fail e \<longleftrightarrow> failed (e_gates e) \<or> failed (pm_gates (e_placement e))"

definition energy_contrasts :: "erec list \<Rightarrow> (erec \<times> contrast) list" where
  "energy_contrasts es =
     [(e, c). e \<leftarrow> es, c \<leftarrow> e_contrasts e, ct_metric c = HEADLINE_METRIC \<and> ct_diff c \<noteq> None]"

definition apparent_saving :: "contrast \<Rightarrow> bool" where
  "apparent_saving c \<longleftrightarrow> ct_detectable c = Some True \<and> (case ct_diff c of None \<Rightarrow> False | Some d \<Rightarrow> d < 0)"

definition tag_of :: "erec \<times> contrast \<Rightarrow> tagged" where
  "tag_of = (\<lambda>(e, c). ((e_experiment e, ct_arm c), c))"

definition wins :: "erec list \<Rightarrow> tagged list" where
  "wins es = map tag_of (filter (\<lambda>(e, c). apparent_saving c \<and> \<not> gate_fail e) (energy_contrasts es))"

definition blocked :: "erec list \<Rightarrow> tagged list" where
  "blocked es = map tag_of (filter (\<lambda>(e, c). apparent_saving c \<and> gate_fail e) (energy_contrasts es))"

definition nulls :: "erec list \<Rightarrow> tagged list" where
  "nulls es = map tag_of (filter (\<lambda>(e, c). \<not> apparent_saving c \<and> ct_detectable c \<noteq> Some True) (energy_contrasts es))"

definition mde_pcts :: "tagged list \<Rightarrow> real list" where
  "mde_pcts ts = clean (map (\<lambda>(t, c). ct_mde_pct c) ts)"

definition headline_body :: "erec list \<Rightarrow> headline_line list" where
  "headline_body es =
     (let ws = wins es; bs = blocked es; ns = nulls es; ps = mde_pcts ns in
      (if ws = [] then []
       else [HSavings (map (\<lambda>(t, c). (t, case ct_pct_change c of None \<Rightarrow> 0 | Some p \<Rightarrow> p)) ws), HBeforeBelieving])
      @ (if bs = [] then [] else [HNotAdmissible (map fst bs)])
      @ (if ns \<noteq> [] \<and> ws = [] then
           HNoSaving (length ns)
           # (if ps = [] then [] else [HBounded (list_min ps) (list_max ps)])
         else []))"

definition overall_headline :: "erec list \<Rightarrow> headline_line list" where
  "overall_headline es =
     (if es = [] then headline_body es @ [HNoExperiments]
      else if headline_body es = [] then [HNoContrast]
      else headline_body es)"

subsection \<open>The driver\<close>

record analysis =
  an_experiments :: "(erec \<times> verdict_line list) list"
  an_coverage :: "field_coverage list"
  an_n_runs :: nat
  an_headline :: "headline_line list"

definition experiment_records :: "numerics \<Rightarrow> row list \<Rightarrow> erec list" where
  "experiment_records nm rows =
     map (\<lambda>name. experiment_record nm name (case map_of (group_runs rows) name of None \<Rightarrow> [] | Some arms \<Rightarrow> arms))
       (sort (map fst (group_runs rows)))"

definition analyze :: "numerics \<Rightarrow> row list \<Rightarrow> analysis" where
  "analyze nm rows =
     (let es = experiment_records nm rows in
      \<lparr>an_experiments = map (\<lambda>e. (e, experiment_verdict e)) es, an_coverage = coverage rows,
       an_n_runs = length rows, an_headline = overall_headline es\<rparr>)"

subsection \<open>From the headline back to the runs\<close>

lemma energy_contrasts_in:
  "(e, c) \<in> set (energy_contrasts es) \<longleftrightarrow>
     e \<in> set es \<and> c \<in> set (e_contrasts e) \<and> ct_metric c = HEADLINE_METRIC \<and> ct_diff c \<noteq> None"
  by (auto simp: energy_contrasts_def)

lemma wins_in:
  "((x, a), c) \<in> set (wins es) \<longleftrightarrow>
     (\<exists>e \<in> set es. c \<in> set (e_contrasts e) \<and> ct_metric c = HEADLINE_METRIC \<and> apparent_saving c
       \<and> \<not> gate_fail e \<and> x = e_experiment e \<and> a = ct_arm c)"
  by (force simp: wins_def tag_of_def energy_contrasts_in apparent_saving_def split: option.splits)

lemma headline_savings:
  "HSavings ws \<in> set (overall_headline es) \<Longrightarrow> (t, p) \<in> set ws \<Longrightarrow> \<exists>c. (t, c) \<in> set (wins es)"
  by (auto simp: overall_headline_def headline_body_def Let_def split: if_splits)

lemma contrasts_of_in:
  "c \<in> set (contrasts_of nm arms metrics) \<Longrightarrow>
     \<exists>a m. Some a \<noteq> pick_control arms \<and> m \<in> set metrics
       \<and> c = contrast_of nm a (control_rows arms) (arm_rows arms a) m"
  by (auto simp: contrasts_of_def treated_arms_def)

lemma contrast_labels [simp]:
  "ct_arm (contrast_of nm a crs ars m) = a" "ct_metric (contrast_of nm a crs ars m) = m"
  by (simp_all add: contrast_of_def Let_def split: option.split)

lemma group_runs_lookup:
  "map_of (group_runs rows) e =
     (if filter (\<lambda>r. r_experiment r = e) rows = [] then None
      else Some (arms_of (filter (\<lambda>r. r_experiment r = e) rows)))"
  by (simp only: group_runs_def map_of_map_snd group_by_spec(3) arms_of_def [symmetric]) simp

lemma arms_of_all_rows: "set (all_rows (arms_of rs)) = set rs"
proof -
  have "x \<in> set (all_rows (arms_of rs)) \<longleftrightarrow> (\<exists>a. x \<in> set (arm_rows (arms_of rs) a))" for x
  proof
    assume "x \<in> set (all_rows (arms_of rs))"
    then obtain a xs where "(a, xs) \<in> set (arms_of rs)" "x \<in> set xs" by (auto simp: all_rows_def)
    moreover then have "map_of (arms_of rs) a = Some xs" using arms_of_spec(1) by simp
    ultimately show "\<exists>a. x \<in> set (arm_rows (arms_of rs) a)"
      by (intro exI [of _ a]) (simp add: arm_rows_def)
  next
    assume "\<exists>a. x \<in> set (arm_rows (arms_of rs) a)"
    then obtain a where a: "x \<in> set (arm_rows (arms_of rs) a)" ..
    then obtain xs where "map_of (arms_of rs) a = Some xs" "x \<in> set xs"
      by (cases "map_of (arms_of rs) a") (simp_all add: arm_rows_def)
    then have "(a, xs) \<in> set (arms_of rs)" "x \<in> set xs" by (simp_all add: map_of_SomeD)
    then show "x \<in> set (all_rows (arms_of rs))" by (auto simp: all_rows_def intro!: bexI [of _ "(a, xs)"])
  qed
  then show ?thesis by (auto simp: arms_of_spec(3))
qed

lemma experiment_records_in:
  "e \<in> set (experiment_records nm rows) \<Longrightarrow>
     e = experiment_record nm (e_experiment e) (arms_of (filter (\<lambda>r. r_experiment r = e_experiment e) rows))"
proof -
  assume "e \<in> set (experiment_records nm rows)"
  then obtain name where n: "name \<in> fst ` set (group_runs rows)"
    "e = experiment_record nm name (case map_of (group_runs rows) name of None \<Rightarrow> [] | Some arms \<Rightarrow> arms)"
    by (auto simp: experiment_records_def)
  then have "map_of (group_runs rows) name \<noteq> None" by (simp add: map_of_eq_None_iff)
  then have "map_of (group_runs rows) name = Some (arms_of (filter (\<lambda>r. r_experiment r = name) rows))"
    by (simp add: group_runs_lookup split: if_splits)
  moreover have "e_experiment e = name" by (simp add: n(2) experiment_record_def Let_def split: prod.split)
  ultimately show ?thesis using n(2) by simp
qed

lemma experiment_record_parts:
  "e_contrasts (experiment_record nm name arms) = contrasts_of nm arms (available_metrics (all_rows arms))"
  "e_gates (experiment_record nm name arms) =
     fst (quality_gates (float_repr nm) arms (available_metrics (all_rows arms)))
     @ List.map_filter frequency_gate (fq_arms (frequency_divergence nm arms))"
  "e_placement (experiment_record nm name arms) = placement_sanity arms"
  "e_experiment (experiment_record nm name arms) = name"
  by (simp_all add: experiment_record_def Let_def split: prod.split)

lemma win_of_analysis:
  assumes "HSavings ws \<in> set (an_headline (analyze nm rows))" "((x, a), p) \<in> set ws"
  defines "arms \<equiv> arms_of (filter (\<lambda>r. r_experiment r = x) rows)"
  shows "experiment_record nm x arms \<in> set (experiment_records nm rows)"
    and "\<not> gate_fail (experiment_record nm x arms)"
    and "\<exists>ctrl. pick_control arms = Some ctrl \<and> ctrl \<noteq> a
      \<and> apparent_saving (contrast_of nm a (arm_rows arms ctrl) (arm_rows arms a) HEADLINE_METRIC)"
proof -
  have "HSavings ws \<in> set (overall_headline (experiment_records nm rows))"
    using assms(1) by (simp add: analyze_def Let_def)
  from headline_savings [OF this assms(2)] obtain c e where w: "e \<in> set (experiment_records nm rows)"
    "c \<in> set (e_contrasts e)" "ct_metric c = HEADLINE_METRIC" "apparent_saving c" "\<not> gate_fail e"
    "x = e_experiment e" "a = ct_arm c"
    by (auto simp: wins_in)
  have e: "e = experiment_record nm x arms" using experiment_records_in [OF w(1)] by (simp add: arms_def w(6))
  then show "experiment_record nm x arms \<in> set (experiment_records nm rows)"
    "\<not> gate_fail (experiment_record nm x arms)"
    using w(1,5) by simp_all
  from w(2) e have "c \<in> set (contrasts_of nm arms (available_metrics (all_rows arms)))"
    by (simp add: experiment_record_parts)
  from contrasts_of_in [OF this] w(3,7) have c: "Some a \<noteq> pick_control arms"
    "c = contrast_of nm a (control_rows arms) (arm_rows arms a) HEADLINE_METRIC"
    by auto
  have "pick_control arms \<noteq> None"
  proof
    assume "pick_control arms = None"
    then have "ct_diff c = None"
      using contrast_short [of "control_rows arms" HEADLINE_METRIC "arm_rows arms a" nm a] c(2)
      by (simp add: control_rows_def values_of_def clean_def List.map_filter_simps)
    then show False using w(4) by (simp add: apparent_saving_def)
  qed
  then show "\<exists>ctrl. pick_control arms = Some ctrl \<and> ctrl \<noteq> a
      \<and> apparent_saving (contrast_of nm a (arm_rows arms ctrl) (arm_rows arms a) HEADLINE_METRIC)"
    using w(4) c by (auto simp: control_rows_def)
qed

subsection \<open>Properties\<close>

definition rows_of :: "row list \<Rightarrow> string \<Rightarrow> string \<Rightarrow> row list" where
  "rows_of rows x a = sort_key row_key (filter (\<lambda>r. r_arm r = a) (filter (\<lambda>r. r_experiment r = x) rows))"


definition demo_rows :: "row list" where
  "demo_rows = demo_control @ demo_arm"

definition demo_arms :: arms where
  "demo_arms = [(''eevdf-flat'', demo_control), (''eevdf-partitioned'', demo_arm)]"

lemma demo_sorted: "sort_key row_key demo_control = demo_control" "sort_key row_key demo_arm = demo_arm"
  by (simp_all add: demo_control_def demo_arm_def row_key_def col_def demo_row_def)

lemma demo_grouped: "group_runs demo_rows = [(''e3-ab'', demo_arms)]"
proof -
  have "group_by r_experiment demo_rows = [(''e3-ab'', demo_rows)]"
    by (simp add: group_by_def demo_rows_def demo_control_def demo_arm_def demo_row_def)
  moreover have "group_by r_arm demo_rows = demo_arms"
    by (simp add: group_by_def demo_rows_def demo_arms_def demo_control_def demo_arm_def demo_row_def)
  ultimately show ?thesis by (simp add: group_runs_def demo_arms_def demo_sorted)
qed

lemma demo_lookup:
  "arm_rows demo_arms ''eevdf-flat'' = demo_control" "arm_rows demo_arms ''eevdf-partitioned'' = demo_arm"
  "sorted_arms demo_arms = [''eevdf-flat'', ''eevdf-partitioned'']"
  "pick_control demo_arms = Some ''eevdf-flat''" "all_rows demo_arms = demo_rows"
proof -
  show arms: "arm_rows demo_arms ''eevdf-flat'' = demo_control" "arm_rows demo_arms ''eevdf-partitioned'' = demo_arm"
    by (simp_all add: arm_rows_def demo_arms_def)
  show sorted: "sorted_arms demo_arms = [''eevdf-flat'', ''eevdf-partitioned'']"
    unfolding sorted_arms_def demo_arms_def by code_simp
  show "pick_control demo_arms = Some ''eevdf-flat''"
    by (simp add: pick_control_def sorted arms is_flat_eevdf_def) (simp add: demo_control_def demo_row_def)
  show "all_rows demo_arms = demo_rows" by (simp add: all_rows_def demo_arms_def demo_rows_def)
qed

lemma demo_metrics: "available_metrics demo_rows = [''energy_to_solution_j'']"
  by (simp add: available_metrics_def METRICS_def demo_rows_def demo_control_def demo_arm_def col_def demo_row_def)

lemma demo_gates: "\<not> gate_fail (experiment_record nm x demo_arms)"
proof -
  have bls: "with_bls demo_control = []" "with_bls demo_arm = []"
    by (simp_all add: with_bls_def demo_control_def demo_arm_def demo_row_def)
  have flat: "\<not> list_ex r_partitioned_epp demo_control" "\<not> list_ex r_partitioned_epp demo_arm"
    by (simp_all add: demo_control_def demo_arm_def demo_row_def)
  have "\<not> failed (fst (quality_gates (float_repr nm) demo_arms [''energy_to_solution_j'']))"
    unfolding quality_gates_facts demo_lookup
  proof (intro conjI)
    show "list_all (\<lambda>a. list_all (\<lambda>m. pred_option (\<lambda>rho. \<bar>rho\<bar> \<le> 6 / 10)
        (spearman (map (\<lambda>r. col r ''rep'') (arm_rows demo_arms a)) (map (\<lambda>r. col r m) (arm_rows demo_arms a))))
        [''energy_to_solution_j'']) [''eevdf-flat'', ''eevdf-partitioned'']"
      by (simp add: demo_lookup spearman_short demo_control_def demo_arm_def)
  qed (simp_all add: demo_rows_def demo_arms_def demo_control_def demo_arm_def demo_row_def arm_temps_def values_of_def
        clean_def col_def List.map_filter_simps mean_def)
  moreover have "\<not> failed (pm_gates (placement_sanity demo_arms))"
    by (simp add: placement_sanity_def demo_lookup placement_arm_of_def bls Let_def placement_gate_def
        List.map_filter_simps failed_def)
  moreover have "List.map_filter frequency_gate (fq_arms (frequency_divergence nm demo_arms)) = []"
    by (simp add: frequency_divergence_def demo_lookup freq_arm_of_def flat Let_def frequency_gate_def List.map_filter_simps)
  ultimately show ?thesis by (simp add: gate_fail_def experiment_record_parts demo_lookup demo_metrics)
qed

lemma demo_headline:
  "\<exists>p. HSavings [((''e3-ab'', ''eevdf-partitioned''), p)] \<in> set (an_headline (analyze demo_numerics demo_rows))"
proof -
  let ?c = "contrast_of demo_numerics ''eevdf-partitioned'' demo_control demo_arm ''energy_to_solution_j''"
  let ?e = "experiment_record demo_numerics ''e3-ab'' demo_arms"
  have lb: "metric_lower_better ''energy_to_solution_j'' = Some True" by (simp add: metric_lower_better_def METRICS_def)
  have c: "apparent_saving ?c" "ct_diff ?c \<noteq> None"
    using contrast_separated_facts [OF demo_draws(1) lb, of demo_control demo_arm "''eevdf-partitioned''"]
    by (auto simp: demo_values apparent_saving_def)
  have recs: "experiment_records demo_numerics demo_rows = [?e]"
    by (simp add: experiment_records_def demo_grouped)
  have "e_contrasts ?e = [?c]"
    by (simp add: experiment_record_parts demo_lookup demo_metrics contrasts_of_def treated_arms_def control_rows_def)
  then have "wins [?e] = [((''e3-ab'', ''eevdf-partitioned''), ?c)]"
    using c demo_gates by (simp add: wins_def energy_contrasts_def HEADLINE_METRIC_def tag_of_def experiment_record_parts)
  then show ?thesis by (auto simp: analyze_def Let_def recs overall_headline_def headline_body_def)
qed


text \<open>C34: the headline hides a regression. When every energy contrast of the session is detectable and none
  is a saving, the energy having gone up in all of them, the headline says that no usable contrast could be
  computed.\<close>

theorem headline_hides_regression:
  assumes "es \<noteq> []"
    and "list_all (\<lambda>(e, c). ct_detectable c = Some True \<and> (\<exists>d. ct_diff c = Some d \<and> 0 < d)) (energy_contrasts es)"
  shows "overall_headline es = [HNoContrast]"
proof -
  have "\<not> apparent_saving c \<and> ct_detectable c = Some True" if "(e, c) \<in> set (energy_contrasts es)" for e c
    using assms(2) that by (auto simp: list_all_iff apparent_saving_def split: option.splits)
  then have "wins es = []" "blocked es = []" "nulls es = []"
    by (auto simp: wins_def blocked_def nulls_def filter_empty_conv)
  then show ?thesis using assms(1) by (simp add: overall_headline_def headline_body_def)
qed

theorem headline_hides_regression_witness:
  "overall_headline [(experiment_record demo_numerics ''e3-ab'' demo_arms)\<lparr>e_contrasts :=
      [contrast_of demo_numerics ''dearer'' demo_arm demo_control HEADLINE_METRIC]\<rparr>] = [HNoContrast]"
proof (rule headline_hides_regression)
  have "ct_detectable (contrast_of demo_numerics ''dearer'' demo_arm demo_control HEADLINE_METRIC) = Some True
      \<and> (\<exists>d. ct_diff (contrast_of demo_numerics ''dearer'' demo_arm demo_control HEADLINE_METRIC) = Some d \<and> 0 < d)"
    by (rule contrast_separated_above) (simp_all add: demo_draws HEADLINE_METRIC_def demo_values)
  then show "list_all (\<lambda>(e, c). ct_detectable c = Some True \<and> (\<exists>d. ct_diff c = Some d \<and> 0 < d))
      (energy_contrasts [(experiment_record demo_numerics ''e3-ab'' demo_arms)\<lparr>e_contrasts :=
        [contrast_of demo_numerics ''dearer'' demo_arm demo_control HEADLINE_METRIC]\<rparr>])"
    by (auto simp: energy_contrasts_def)
qed simp

end
