(* ===== verification/Wording.thy ===== *)
theory Wording
  imports Report
begin

text \<open>
  The texts of \<open>scripts/analyze.py\<close>: the sentence of a contrast, the frequency verdicts and notes, the lines of an
  experiment's verdict and of the headline. The constructors of \<open>Contrasts\<close>, \<open>Gates\<close> and \<open>Report\<close> say which text
  is printed; the functions here are the format strings.
\<close>

subsection \<open>Metrics and arms\<close>

definition METRIC_DESC :: "(string \<times> string) list" where
  "METRIC_DESC =
     [(''energy_to_solution_j'', ''package energy to complete the workload''),
      (''edp_js'', ''energy-delay product (pkg_j * wall_s)''),
      (''pkg_j_per_s'', ''mean package power''),
      (''wall_s'', ''time to solution''),
      (''core_j'', ''core-domain energy (the part EPP can touch)''),
      (''rest_frac'', ''share of pkg energy EPP cannot touch''),
      (''wake_us_p99'', ''pinger p99 wake latency (QoS cost)''),
      (''wake_us_p50'', ''pinger median wake latency''),
      (''bzy_mhz_big_mean'', ''mean busy MHz of the big domain''),
      (''bzy_mhz_little_mean'', ''mean busy MHz of the LITTLE domain'')]"

definition metric_desc :: "string \<Rightarrow> string" where
  "metric_desc m = (case map_of METRIC_DESC m of None \<Rightarrow> [] | Some d \<Rightarrow> d)"

definition name_str :: "string option \<Rightarrow> string" where
  "name_str a = (case a of None \<Rightarrow> ''None'' | Some s \<Rightarrow> s)"

definition control_reason_text :: "control_reason \<Rightarrow> string" where
  "control_reason_text l =
     (case l of
        ByFactors \<Rightarrow> ''factors sched=eevdf,epp=flat''
      | ByName \<Rightarrow> ''named 'control'' @ [CHR 0x27]
      | FirstAlphabetically \<Rightarrow> ''first arm alphabetically (no eevdf/flat arm present)'')"

definition or_zero :: "real option \<Rightarrow> real" where
  "or_zero x = (case x of None \<Rightarrow> 0 | Some v \<Rightarrow> v)"

definition interval_text :: "real option \<Rightarrow> real option \<Rightarrow> string" where
  "interval_text lo hi = ''['' @ fmt 3 lo @ '', '' @ fmt 3 hi @ '']''"

subsection \<open>The sentence of a contrast\<close>

definition direction :: "real \<Rightarrow> string" where
  "direction d = (if d < 0 then ''lower'' else ''higher'')"

definition mde_share :: "contrast \<Rightarrow> string" where
  "mde_share c = (case ct_mde_pct c of None \<Rightarrow> [] | Some p \<Rightarrow> '' = '' @ fixed 1 p @ ''% of control'')"

definition sentence_text :: "contrast \<Rightarrow> string" where
  "sentence_text c =
     ct_metric c @ '': '' @
     (case ct_sentence c of
        SInsufficient \<Rightarrow> ''insufficient data (n_control='' @ nat_str (ct_n_control c) @ '', n_arm=''
          @ nat_str (ct_n_arm c) @ ''); no contrast computed.''
      | SBelowMde \<Rightarrow> ''no detectable difference (|effect| < MDE = '' @ fmt 3 (ct_mde_abs c) @ '' '' @ ct_unit c
          @ mde_share c @ '').''
      | SIncludesZero \<Rightarrow> ''no detectable difference (95% CI '' @ interval_text (ct_ci_lo c) (ct_ci_hi c) @ '' ''
          @ ct_unit c @ '' includes zero; MDE = '' @ fmt 3 (ct_mde_abs c) @ '' '' @ ct_unit c @ mde_share c
          @ ''). The point estimate is not evidence.''
      | SExcludesZero \<Rightarrow> direction (or_zero (ct_diff c)) @ '' than control by ''
          @ fmt 3 (map_option abs (ct_diff c)) @ '' '' @ ct_unit c @ '' ('' @ signed_pct (ct_pct_change c)
          @ ''), 95% CI '' @ interval_text (ct_ci_lo c) (ct_ci_hi c) @ '' excludes zero; Hedges g = ''
          @ fmt 3 (ct_hedges_g c) @ '', permutation p = '' @ fmt 4 (ct_p_perm c) @ ''; MDE = ''
          @ fmt 3 (ct_mde_abs c) @ '' '' @ ct_unit c @ ''.'')"

subsection \<open>Frequencies\<close>

definition freq_verdict_text :: "freq_arm \<Rightarrow> string" where
  "freq_verdict_text f =
     (case fa_verdict f of
        FlatEpp \<Rightarrow> ''flat EPP: no big/LITTLE split was requested in this arm (all 8 CPUs report the same EPP)''
      | NoFrequencyData \<Rightarrow> ''no per-CPU frequency data''
      | NotPhysicallyReal \<Rightarrow> ''NOT PHYSICALLY REAL: LITTLE cores ran at '' @ fixed 0 (100 * or_zero (fa_ratio f))
          @ ''% of big-core frequency (>= '' @ fixed 0 (100 * FREQ_RATIO_REAL)
          @ ''%). The EPP write did not separate the domains, so nothing downstream of this can be attributed ''
          @ ''to partitioning.''
      | SplitReal \<Rightarrow> ''frequency split is real: LITTLE cores ran at '' @ fixed 0 (100 * or_zero (fa_ratio f))
          @ ''% of big-core frequency'')
     @ (if fa_smt_pairs_split f = 0 then []
        else ''  [WARNING: '' @ nat_str (fa_smt_pairs_split f) @ '' SMT sibling pair(s) split across domains; ''
          @ ''siblings share one clock domain, so one of the two EPP settings is silently ignored]'')"

definition freq_note_text :: "freq_note \<Rightarrow> string" where
  "freq_note_text l =
     (case l of
        NoSplitRequested \<Rightarrow> ''no arm in this experiment requested a big/LITTLE EPP split.''
      | NotRealAnywhere \<Rightarrow>
          ''The partition is NOT physically real in any arm: LITTLE-domain frequency is within ''
          @ fixed 0 (100 * (1 - FREQ_RATIO_REAL)) @ ''% of big-domain frequency. Everything downstream is moot -- ''
          @ ''the energy comparison is a comparison of the machine against itself.''
      | RealIn x a \<Rightarrow>
          ''The frequency split is real (lowest little/big ratio '' @ fixed 2 x @ '' in arm '' @ a
          @ ''), so the energy comparison is testing a genuine partition.'')"

subsection \<open>The verdict of an experiment\<close>

definition power_text :: string where
  "power_text = int_str (trunc_int (POWER * 100)) @ ''%''"

definition verdict_text :: "verdict_line \<Rightarrow> string" where
  "verdict_text l =
     (case l of
        VNoEnergyData experiment \<Rightarrow>
          ''No '' @ HEADLINE_METRIC @ '' data in '' @ experiment @ ''; no energy conclusion can be drawn.''
      | VInsufficient arm ctrl \<Rightarrow>
          arm @ '' vs '' @ name_str ctrl @ '': insufficient data for an energy contrast.''
      | VNotDetectable c ctrl \<Rightarrow>
          ct_arm c @ '' vs '' @ name_str ctrl @ '': no detectable difference in energy-to-solution (|effect| < MDE = ''
          @ fmt 3 (ct_mde_abs c) @ '' J = '' @ pct_points (ct_mde_pct c) @ '' of the control mean, at '' @ power_text
          @ '' power / alpha '' @ fixed 2 ALPHA @ '' with n='' @ nat_str (ct_n_control c) @ '' vs '' @ nat_str (ct_n_arm c)
          @ ''). This design could not have seen a saving smaller than that; it is not evidence that the saving is ''
          @ ''exactly zero.''
      | VEffect c ctrl \<Rightarrow> ct_arm c @ '' vs '' @ name_str ctrl @ '': energy-to-solution is ''
          @ (if or_zero (ct_diff c) < 0 then ''LOWER'' else ''HIGHER'') @ '' by '' @ fmt 3 (map_option abs (ct_diff c))
          @ '' J ('' @ fixed 1 (or_zero (ct_pct_change c)) @ ''%), 95% CI '' @ interval_text (ct_ci_lo c) (ct_ci_hi c)
          @ '' excludes zero (Hedges g = '' @ fmt 3 (ct_hedges_g c) @ '', permutation p = '' @ fmt 4 (ct_p_perm c) @ '').''
      | VCaution better names \<Rightarrow>
          ''   CAUTION: this apparent '' @ (if better then ''saving'' else ''regression'')
          @ '' is not admissible while these gates fail: '' @ join_str '', '' names @ ''.''
      | VNote note \<Rightarrow> freq_note_text note
      | VFailing names \<Rightarrow> ''Failing gates: '' @ join_str '', '' names @ ''.'')"

subsection \<open>The headline\<close>

definition tag_text :: "string \<times> string \<Rightarrow> string" where
  "tag_text t = fst t @ ''/'' @ snd t"

definition headline_text :: "headline_line \<Rightarrow> string" where
  "headline_text l =
     (case l of
        HSavings ws \<Rightarrow> ''A detectable energy saving was found in: ''
          @ join_str '', '' (map (\<lambda>(t, p). tag_text t @ '' ('' @ fixed 1 p @ ''%)'') ws) @ ''.''
      | HBeforeBelieving \<Rightarrow>
          ''Before believing it, confirm the frequency split was real and that placement stayed inside its domain ''
          @ ''-- a saving from an arm that did not actually partition is a saving from something else.''
      | HNotAdmissible tags \<Rightarrow> ''Apparent savings in '' @ join_str '', '' (map tag_text tags)
          @ '' are NOT admissible: quality gates failed for those experiments.''
      | HNoSaving n \<Rightarrow>
          ''No detectable energy saving in any arm ('' @ nat_str n @ '' contrast'' @ (if n = 1 then [] else ''s'')
          @ '' on '' @ HEADLINE_METRIC @ '', all 95% CIs straddle zero).''
      | HBounded best worst \<Rightarrow>
          ''The honest headline is bounded, not zero: with this many reps no effect smaller than '' @ fixed 1 best
          @ ''%-'' @ fixed 1 worst @ ''% of control energy is detectable at '' @ power_text
          @ '' power. A real big.LITTLE-scale saving (tens of percent) would have been visible; it was not.''
      | HNoExperiments \<Rightarrow> ''No experiments to report.''
      | HNoContrast \<Rightarrow>
          ''No usable '' @ HEADLINE_METRIC @ '' contrast could be computed from these runs (every experiment lacked ''
          @ ''either a control arm or the metric itself); see the Coverage tables.'')"


subsection \<open>Properties\<close>

definition same_energy :: "string \<Rightarrow> row list" where
  "same_energy arm = [demo_row arm 0 5, demo_row arm 1 5]"

lemma same_energy_values: "values_of (same_energy arm) HEADLINE_METRIC = [5, 5]"
  by (simp add: values_of_def clean_def col_def same_energy_def demo_row_def HEADLINE_METRIC_def List.map_filter_simps)

lemma same_energy_mde: "mde nm [5, 5] [5, 5] = Some 0"
  by (simp add: mde_def pooled_sd_def sd_def mean_def Let_def t_ppf_def split: prod.split)


end
