(* ===== verification/Markdown.thy ===== *)
theory Markdown
  imports Wording
begin

text \<open>
  The report of \<open>scripts/analyze.py\<close>: \<open>render_markdown\<close>, one definition per section in the order of the code, and the
  console summary \<open>print_console\<close>. A section is its lines, or the exception of a table whose rows do not fit
  its header; the report is the lines joined by line feeds.
\<close>

definition GENERATED_MARKER :: string where
  "GENERATED_MARKER = ''<!-- GENERATED FILE -- DO NOT EDIT BY HAND.''"

type_synonym section_lines = "py_error + string list"

definition md_cat :: "section_lines list \<Rightarrow> section_lines" where
  "md_cat ss = err_bind (err_map (\<lambda>s. s) ss) (\<lambda>ls. Inr (concat ls))"

definition plain :: "string list \<Rightarrow> section_lines" where
  "plain ls = Inr ls"

definition left3 :: "bool list" where
  "left3 = [True, True, True]"

definition code_span :: "string \<Rightarrow> string" where
  "code_span s = CHR 0x60 # s @ [CHR 0x60]"

definition bold :: "string \<Rightarrow> string" where
  "bold s = ''**'' @ s @ ''**''"

definition ns :: "nat \<Rightarrow> string" where
  "ns n = nat_str n"

subsection \<open>Title and headline\<close>

definition title_section :: "analysis \<Rightarrow> string \<Rightarrow> string \<Rightarrow> string \<Rightarrow> string list" where
  "title_section r raw_dir csv_path now =
     [GENERATED_MARKER,
      ''     Produced by scripts/analyze.py from '' @ raw_dir,
      ''     Generated: '' @ now,
      ''     Every number below carries the run count it was computed from.'',
      ''     Edits will be lost on the next `make analyze`; change the script instead. -->'',
      [],
      ''# fake-big-little: measured results'',
      [],
      ''- Generated: '' @ code_span now,
      ''- Raw runs read: '' @ bold (ns (an_n_runs r)) @ '' from '' @ code_span raw_dir,
      ''- Tidy per-run data: '' @ code_span csv_path,
      ''- Resampling: '' @ ns N_BOOT @ '' bootstrap resamples, '' @ ns N_PERM
        @ '' permutations, seed `random.Random(0)` (the report is reproducible byte-for-byte).'',
      ''- CI method is stated per row: `BCa` (bias-corrected and accelerated) where the jackknife acceleration ''
        @ ''is well defined, `percentile` where it degenerates. It is never mislabelled.'',
      []]"

definition headline_section :: "analysis \<Rightarrow> string list" where
  "headline_section r = [''## Headline'', []] @ map (\<lambda>l. ''- '' @ headline_text l) (an_headline r) @ [[]]"

subsection \<open>Experiment\<close>

definition experiment_head :: "erec \<Rightarrow> verdict_line list \<Rightarrow> string list" where
  "experiment_head e verdict =
     [''---'', [], ''# Experiment '' @ code_span (e_experiment e), [],
      ''- Runs: '' @ bold (ns (e_n_runs e)) @ '' across '' @ ns (length (e_arms e)) @ '' arms (''
        @ join_str '', '' (map (\<lambda>(k, v). k @ '' n='' @ ns v) (e_n_per_arm e)) @ '')'',
      ''- Control arm: '' @ bold (code_span (name_str (e_control e))) @ '' ('' @ control_reason_text (e_control_selection e)
        @ '')'',
      [], ''## Verdict'', []]
     @ map (\<lambda>l. ''- '' @ verdict_text l) verdict @ [[]]"

fun status_str :: "status \<Rightarrow> string" where
  "status_str PASS = ''PASS''"
| "status_str FAIL = ''FAIL''"
| "status_str SKIP = ''SKIP''"
| "status_str INFO = ''INFO''"

definition gates_footer :: "gate list \<Rightarrow> string" where
  "gates_footer gates =
     (let nfail = length (filter (\<lambda>g. g_status g = FAIL) gates) in
      if nfail \<noteq> 0 then
        ''**'' @ ns nfail @ '' gate(s) FAILED.** A failed gate means the arms are not comparable; effect sizes below ''
        @ ''are reported for completeness but must not be quoted as results until the gate is fixed.''
      else ''All gates pass: the arms are comparable on completion, thermal state, power source, balance and run order.'')"

definition quality_section :: "erec \<Rightarrow> section_lines" where
  "quality_section e =
     md_cat [plain [''## Data quality'', []],
       md_table [''status'', ''gate'', ''numbers'']
         (map (\<lambda>g. [status_str (g_status g), g_name g, g_detail g]) (e_gates e)) left3,
       plain [[], gates_footer (e_gates e), []]]"

definition placement_row :: "(real \<Rightarrow> string) \<Rightarrow> placement_arm \<Rightarrow> string list" where
  "placement_row fr p =
     [pl_arm p, slash (pl_n_with_bls p) (pl_n p), fmt_json fr 3 (pl_strict p), fmt 3 (pl_enqueue_mean p),
      pct (pl_cross_frac_mean p), pct (pl_run_big_frac_mean p), pct (pl_run_little_frac_mean p),
      pct (pl_dsq_big_frac_mean p)]"

definition gate_line :: "gate \<Rightarrow> string" where
  "gate_line g = ''- '' @ bold (status_str (g_status g)) @ '' -- '' @ g_name g @ '': '' @ g_detail g"

definition placement_section :: "(real \<Rightarrow> string) \<Rightarrow> erec \<Rightarrow> section_lines" where
  "placement_section fr e =
     md_cat [plain [''## Placement sanity'', [],
         ''A partitioning experiment where the tasks did not stay partitioned proves nothing, so this comes ''
         @ ''before the effect sizes.'', []],
       md_table [''arm'', ''runs w/ bls'', ''strict'', ''enqueues (mean)'', ''cross-domain / enqueue'', ''run time in big'',
           ''run time in LITTLE'', ''dispatch to big'']
         (map (placement_row fr) (pm_arms (e_placement e))) (default_aligns 8),
       plain ([] # map gate_line (pm_gates (e_placement e)) @ [[]])]"

subsection \<open>Frequency divergence\<close>

definition domain_text :: "bool \<Rightarrow> real option \<Rightarrow> string" where
  "domain_text partitioned epp =
     (if \<not> partitioned then ''flat''
      else case epp of None \<Rightarrow> ''-'' | Some v \<Rightarrow> if v < of_int EPP_BIG_MAX then ''big'' else ''LITTLE'')"

definition cpu_row :: "bool \<Rightarrow> cpu_freq \<Rightarrow> string list" where
  "cpu_row partitioned c =
     [''cpu'' @ ns (cf_cpu c), domain_text partitioned (cf_epp c),
      (case cf_epp c of None \<Rightarrow> ''n/a'' | Some v \<Rightarrow> int_str (trunc_int v)),
      fmt 3 (cf_bzy_mhz c), fmt 3 (cf_avg_mhz c), busy_fmt (cf_busy c),
      ''cpu'' @ ns ((cf_cpu c + SMT_STRIDE) mod N_CPUS)]"

definition ratio_ci_text :: "ci \<Rightarrow> string" where
  "ratio_ci_text c =
     (if ci_lo c = None then []
      else '' (95% CI '' @ interval_text (ci_lo c) (ci_hi c) @ '', '' @ name_str (ci_method c) @ '')'')"

definition freq_arm_section :: "freq_arm \<Rightarrow> section_lines" where
  "freq_arm_section f =
     md_cat [plain [''### '' @ code_span (fa_arm f) @ '' (n='' @ ns (fa_n f) @ '')'', []],
       md_table [''cpu'', ''domain'', ''epp'', ''bzy MHz'', ''avg MHz'', ''busy'', ''SMT sibling'']
         (map (cpu_row (fa_partitioned_epp f)) (fa_per_cpu f)) (default_aligns 7),
       plain [[],
         ''- big domain bzy: '' @ bold (fmt 3 (fa_big_bzy_mhz f) @ '' MHz'') @ '', LITTLE domain bzy: ''
           @ bold (fmt 3 (fa_little_bzy_mhz f) @ '' MHz''),
         ''- '' @ bold (''little_bzy_mhz / big_bzy_mhz = '' @ fmt 3 (fa_ratio f)) @ ratio_ci_text (fa_ratio_ci f),
         ''- '' @ freq_verdict_text f, []]]"

definition frequency_section :: "erec \<Rightarrow> section_lines" where
  "frequency_section e =
     (if e_render_frequency e then
        md_cat ([plain [''## Frequency divergence'', [],
            ''Per-CPU busy MHz averaged over runs. If little/big is near 1.0 the partition is not physically ''
            @ ''real and everything downstream is moot.'', []]]
          @ map freq_arm_section (fq_arms (e_frequency e))
          @ [plain [bold (freq_note_text (fq_note (e_frequency e))), []]])
      else plain [])"

subsection \<open>Summaries, contrasts and detectable effects\<close>

definition summary_row :: "erec \<Rightarrow> summary \<Rightarrow> string list" where
  "summary_row e s =
     [s_arm s @ (if Some (s_arm s) = e_control e then ''  [control]'' else []),
      ns (s_n s), ns (s_n_missing s), fmt 3 (s_mean s), fmt 3 (s_median s), fmt 3 (s_sd s),
      interval_text (ci_lo (s_ci s)) (ci_hi (s_ci s)),
      (case ci_method (s_ci s) of None \<Rightarrow> ''n/a'' | Some m \<Rightarrow> m)]"

definition metric_section :: "erec \<Rightarrow> string \<Rightarrow> section_lines" where
  "metric_section e m =
     md_cat [plain [''### '' @ code_span m @ '' ('' @ metric_unit m @ '') -- '' @ metric_desc m, []],
       md_table [''arm'', ''n'', ''missing'', ''mean'', ''median'', ''sd'', ''95% CI of mean'', ''CI method'']
         (map (summary_row e) (filter (\<lambda>s. s_metric s = m) (e_summary e))) (default_aligns 8),
       plain [[]]]"

definition summary_section :: "erec \<Rightarrow> section_lines" where
  "summary_section e =
     md_cat (plain [''## Per-arm summary'', [],
         ''Mean with a 95% bootstrap CI ('' @ ns N_BOOT @ '' resamples). `n` is the number of runs that actually ''
         @ ''carried the metric.'', []]
       # map (metric_section e) (e_metrics e))"

definition contrast_row :: "contrast \<Rightarrow> string list" where
  "contrast_row c =
     [ct_metric c, slash (ct_n_control c) (ct_n_arm c), fmt 3 (ct_mean_control c), fmt 3 (ct_mean_arm c),
      fmt 3 (ct_diff c), interval_text (ct_ci_lo c) (ct_ci_hi c), signed_pct (ct_pct_change c), fmt 3 (ct_hedges_g c),
      fmt 4 (ct_p_perm c), fmt 3 (ct_mde_abs c), pct_points (ct_mde_pct c), ct_verdict c]"

definition arm_contrasts_section :: "erec \<Rightarrow> string \<Rightarrow> section_lines" where
  "arm_contrasts_section e arm =
     (let cs = filter (\<lambda>c. ct_arm c = arm) (e_contrasts e) in
      if Some arm = e_control e \<or> cs = [] then plain []
      else
        md_cat [plain [''### '' @ code_span arm @ '' vs '' @ code_span (name_str (e_control e)), []],
          md_table [''metric'', ''n ctl/arm'', ''control mean'', ''arm mean'', ''diff'', ''95% CI of diff'', ''% change'',
              ''Hedges g'', ''p (perm)'', ''MDE (abs)'', ''MDE (%)'', ''result'']
            (map contrast_row cs) (default_aligns 12),
          plain ([] # map (\<lambda>c. ''- '' @ sentence_text c) cs @ [[]])])"

definition contrasts_section :: "erec \<Rightarrow> section_lines" where
  "contrasts_section e =
     md_cat (plain [''## Contrasts vs control ('' @ code_span (name_str (e_control e)) @ '')'', [],
         ''Difference in means (arm - control). A contrast whose CI straddles zero is reported as ''
         @ ''*no detectable difference*, never as a signed saving.'', []]
       # map (arm_contrasts_section e) (e_arms e))"

definition mde_cells :: "mde_row \<Rightarrow> string list" where
  "mde_cells r =
     [m_arm r, m_metric r, m_unit r, slash (m_n_control r) (m_n_arm r), fmt 3 (m_pooled_sd r), fmt 3 (m_control_mean r),
      fmt 3 (m_mde_abs r), pct_points (m_mde_pct r)]"

definition headline_mdes :: "erec \<Rightarrow> (mde_row \<times> real) list" where
  "headline_mdes e =
     List.map_filter (\<lambda>r. if m_metric r = HEADLINE_METRIC then map_option (Pair r) (m_mde_pct r) else None) (e_mde e)"

definition mde_reading :: "erec \<Rightarrow> string list" where
  "mde_reading e =
     (case max_by snd (headline_mdes e) of
        None \<Rightarrow> []
      | Some (r, p) \<Rightarrow>
          [''Reading: on '' @ code_span HEADLINE_METRIC @ '', the weakest arm comparison ('' @ code_span (m_arm r)
            @ '') can only detect effects of '' @ bold (fixed 1 p @ ''% or larger'')
            @ ''. To halve that, quadruple the reps.'', []])"

definition mde_section :: "erec \<Rightarrow> section_lines" where
  "mde_section e =
     md_cat [plain [''## Minimum detectable effect'', [],
         ''At '' @ power_text @ '' power, alpha '' @ fixed 2 ALPHA @ '', two-sided, from the observed pooled sd and n. ''
         @ ''This matters more than any p-value here: it is the smallest true effect this design could have ''
         @ ''caught. Effects below it are invisible to the experiment, not absent from the machine.'', []],
       md_table [''arm'', ''metric'', ''unit'', ''n ctl/arm'', ''pooled sd'', ''control mean'', ''MDE (abs)'',
           ''MDE (% of control)'']
         (map mde_cells (e_mde e)) (default_aligns 8),
       plain ([] # mde_reading e)]"

definition coverage_section :: "erec \<Rightarrow> section_lines" where
  "coverage_section e =
     md_cat [plain [''## Coverage'', []],
       md_table [''field'', ''present'', ''missing'', ''coverage'']
         (map (\<lambda>f. [fc_field f, ns (fc_present f), ns (fc_missing f), fixed 0 (fc_pct f) @ ''%'']) (e_coverage e))
         (default_aligns 4),
       plain [[]]]"

subsection \<open>The report\<close>

definition experiment_section :: "(real \<Rightarrow> string) \<Rightarrow> bool \<Rightarrow> erec \<times> verdict_line list \<Rightarrow> section_lines" where
  "experiment_section fr with_mde = (\<lambda>(e, verdict).
     md_cat ([plain (experiment_head e verdict), quality_section e, placement_section fr e, frequency_section e,
         summary_section e, contrasts_section e]
       @ (if with_mde then [mde_section e] else []) @ [coverage_section e]))"

definition footer_section :: "analysis \<Rightarrow> string \<Rightarrow> string list" where
  "footer_section r now =
     [''---'', [], ''Generated by `scripts/analyze.py` on '' @ now @ ''. '' @ ns (an_n_runs r)
        @ '' runs. Do not edit by hand.'', []]"

definition render_lines ::
  "(real \<Rightarrow> string) \<Rightarrow> bool \<Rightarrow> analysis \<Rightarrow> string \<Rightarrow> string \<Rightarrow> string \<Rightarrow> section_lines" where
  "render_lines fr with_mde r raw_dir csv_path now =
     md_cat ([plain (title_section r raw_dir csv_path now), plain (headline_section r)]
       @ map (experiment_section fr with_mde) (an_experiments r) @ [plain (footer_section r now)])"

definition render_markdown ::
  "(real \<Rightarrow> string) \<Rightarrow> bool \<Rightarrow> analysis \<Rightarrow> string \<Rightarrow> string \<Rightarrow> string \<Rightarrow> py_error + string" where
  "render_markdown fr with_mde r raw_dir csv_path now =
     err_bind (render_lines fr with_mde r raw_dir csv_path now) (\<lambda>ls. Inr (join_with CHR 0x0A ls))"


subsection \<open>The console\<close>

definition mde_console :: "mde_row \<times> real \<Rightarrow> string" where
  "mde_console = (\<lambda>(r, p).
     ''  MDE '' @ m_arm r @ '' vs control on '' @ m_metric r @ '': '' @ fmt 3 (m_mde_abs r) @ '' '' @ m_unit r @ '' (''
     @ fixed 1 p @ ''% of control), n='' @ slash (m_n_control r) (m_n_arm r))"

definition experiment_console :: "bool \<Rightarrow> erec \<times> verdict_line list \<Rightarrow> string list" where
  "experiment_console with_mde = (\<lambda>(e, verdict).
     [[], e_experiment e @ ''  ('' @ ns (e_n_runs e) @ '' runs, control='' @ name_str (e_control e) @ '')'']
     @ map (\<lambda>g. ''  [FAIL] '' @ g_name g @ '': '' @ g_detail g)
         (filter (\<lambda>g. g_status g = FAIL) (e_gates e @ pm_gates (e_placement e)))
     @ map (\<lambda>l. ''  '' @ verdict_text l) verdict
     @ (if with_mde then map mde_console (headline_mdes e) else []))"

definition print_console :: "bool \<Rightarrow> analysis \<Rightarrow> string \<Rightarrow> string \<Rightarrow> string list" where
  "print_console with_mde r csv_path md_path =
     [replicate 92 CHR ''='', ''fake-big-little analysis -- '' @ ns (an_n_runs r) @ '' runs'', replicate 92 CHR ''='']
     @ concat (map (experiment_console with_mde) (an_experiments r))
     @ [[], ''HEADLINE''] @ map (\<lambda>l. ''  '' @ headline_text l) (an_headline r)
     @ [[], ''wrote '' @ csv_path, ''wrote '' @ md_path]"

subsection \<open>Every section has its lines\<close>

definition good :: "section_lines \<Rightarrow> bool" where
  "good s \<longleftrightarrow> (\<exists>ls. s = Inr ls)"

named_theorems good_intros \<open>sections that raise nothing\<close>

lemma good_plain [good_intros]: "good (plain ls)"
  by (simp add: good_def plain_def)

lemma good_table [good_intros]: "list_all (\<lambda>r. length r = length headers) rows \<Longrightarrow> good (md_table headers rows aligns)"
  by (simp add: good_def md_table_def Let_def)

lemma err_map_good: "list_all good ss \<Longrightarrow> \<exists>ls. err_map (\<lambda>s. s) ss = Inr ls \<and> map Inr ls = ss"
  by (induction ss) (auto simp: good_def)

lemma md_cat_good [good_intros]: "list_all good ss \<Longrightarrow> good (md_cat ss)"
  using err_map_good [of ss] by (auto simp: md_cat_def good_def)

lemma md_cat_in:
  assumes "md_cat ss = Inr ls" "Inr part \<in> set ss"
  shows "set part \<subseteq> set ls"
proof -
  from assms(1) obtain parts where p: "err_map (\<lambda>s. s) ss = Inr parts" "ls = concat parts"
    by (auto simp: md_cat_def err_bind_Inr)
  have "part \<in> set parts" if "err_map (\<lambda>s. s) ss = Inr parts" "Inr part \<in> set ss" for parts
    using that by (induction ss arbitrary: parts) (auto simp: err_bind_Inr)
  with p assms(2) show ?thesis by auto
qed

lemma good_sections [good_intros]:
  "good (quality_section e)" "good (placement_section fr e)" "good (freq_arm_section f)" "good (frequency_section e)"
  "good (metric_section e m)" "good (summary_section e)" "good (arm_contrasts_section e a)" "good (contrasts_section e)"
  "good (mde_section e)" "good (coverage_section e)"
proof -
  show "good (quality_section e)" "good (placement_section fr e)" "good (mde_section e)" "good (coverage_section e)"
    "good (metric_section e m)" for e fr m
    by (auto simp: quality_section_def placement_section_def mde_section_def coverage_section_def metric_section_def
        list_all_iff placement_row_def mde_cells_def summary_row_def intro!: good_intros)
  moreover show "good (freq_arm_section f)" for f
    by (auto simp: freq_arm_section_def list_all_iff cpu_row_def intro!: good_intros)
  moreover show "good (arm_contrasts_section e a)" for a
    by (auto simp: arm_contrasts_section_def Let_def list_all_iff contrast_row_def intro!: good_intros)
  ultimately show "good (frequency_section e)" "good (summary_section e)" "good (contrasts_section e)"
    by (auto simp: frequency_section_def summary_section_def contrasts_section_def list_all_iff intro!: good_intros)
qed

lemma good_experiment [good_intros]: "good (experiment_section fr with_mde ev)"
  by (cases ev) (auto simp: experiment_section_def intro!: good_intros simp: good_sections)

lemma good_report: "good (render_lines fr with_mde r raw_dir csv_path now)"
  by (auto simp: render_lines_def list_all_iff intro!: good_intros)


subsection \<open>What the report shows\<close>

lemma render_contains:
  assumes "render_lines fr with_mde r raw csv now = Inr ls" "ev \<in> set (an_experiments r)"
    and "experiment_section fr with_mde ev = Inr part"
  shows "set part \<subseteq> set ls"
proof (rule md_cat_in [OF assms(1) [unfolded render_lines_def]])
  have "Inr part \<in> experiment_section fr with_mde ` set (an_experiments r)"
    using assms(2,3) by (metis imageI)
  then show "Inr part \<in> set ([plain (title_section r raw csv now), plain (headline_section r)]
      @ map (experiment_section fr with_mde) (an_experiments r) @ [plain (footer_section r now)])"
    by simp
qed

lemma experiment_contains:
  assumes "experiment_section fr with_mde (e, v) = Inr ls"
  shows "set (experiment_head e v) \<subseteq> set ls" and "quality_section e = Inr part \<Longrightarrow> set part \<subseteq> set ls"
proof -
  note parts = md_cat_in [OF assms [unfolded experiment_section_def prod.case]]
  show "set (experiment_head e v) \<subseteq> set ls" by (rule parts) (simp add: plain_def)
  show "set part \<subseteq> set ls" if "quality_section e = Inr part" by (rule parts) (simp add: that)
qed

lemma quality_contains:
  assumes "quality_section e = Inr ls" "g \<in> set (e_gates e)"
    and "list_all (\<lambda>g. no_backslash (g_name g) \<and> no_backslash (g_detail g)) (e_gates e)"
  shows "gates_footer (e_gates e) \<in> set ls"
    and "list_ex (\<lambda>line. read_row line = map strip [status_str (g_status g), g_name g, g_detail g]) ls"
proof -
  let ?rows = "map (\<lambda>g. [status_str (g_status g), g_name g, g_detail g]) (e_gates e)"
  obtain table where t: "md_table [''status'', ''gate'', ''numbers''] ?rows left3 = Inr table"
    by (simp add: md_table_def Let_def list_all_iff)
  note parts = md_cat_in [OF assms(1) [unfolded quality_section_def]]
  show "gates_footer (e_gates e) \<in> set ls"
    using parts [of "[[], gates_footer (e_gates e), []]"] by (simp add: plain_def)
  have "set table \<subseteq> set ls" using parts [of table] by (simp add: t)
  have "no_backslash (status_str s)" for s by (cases s) (simp_all add: no_backslash_def)
  then have "list_all (list_all no_backslash) ([''status'', ''gate'', ''numbers''] # ?rows)"
    using assms(3) by (auto simp: list_all_iff no_backslash_def)
  then have "map read_row (hd table # drop 2 table) = map (map strip) ([''status'', ''gate'', ''numbers''] # ?rows)"
    by (intro md_table_read [OF t]) (simp_all add: left3_def)
  then have "map read_row (drop 2 table) = map (map strip) ?rows" by simp
  then have "set (map read_row (drop 2 table)) = set (map (map strip) ?rows)" by simp
  moreover have "map strip [status_str (g_status g), g_name g, g_detail g] \<in> set (map (map strip) ?rows)"
    using assms(2) by force
  ultimately have "map strip [status_str (g_status g), g_name g, g_detail g] \<in> read_row ` set (drop 2 table)" by simp
  then obtain line where "line \<in> set (drop 2 table)"
    "read_row line = map strip [status_str (g_status g), g_name g, g_detail g]"
    by (metis imageE)
  moreover have "set (drop 2 table) \<subseteq> set ls" using \<open>set table \<subseteq> set ls\<close> set_drop_subset by fast
  ultimately show "list_ex (\<lambda>line. read_row line = map strip [status_str (g_status g), g_name g, g_detail g]) ls"
    unfolding list_ex_iff by blast
qed

subsection \<open>Properties\<close>


definition demo_failing :: gate where
  "demo_failing = \<lparr>g_name = ''on_ac consistent'', g_status = FAIL, g_detail = ''mixed AC state across runs: False in arms {a}; True in arms {b}''\<rparr>"

definition demo_erec :: erec where
  "demo_erec = (experiment_record demo_numerics ''e3-ab'' demo_arms)\<lparr>e_gates := [demo_failing]\<rparr>"


end
