(* ===== verification/AnalysisJson.thy ===== *)
theory AnalysisJson
  imports Markdown
begin

text \<open>
  What \<open>scripts/analyze.py --json\<close> prints: the whole result as a JSON value, key by key in the order of the source, and
  \<open>sanitize\<close>, which it goes through.
\<close>

subsection \<open>Sanitising\<close>

text \<open>No private keys, NaN or infinities.\<close>

definition private_key :: "string \<Rightarrow> bool" where
  "private_key k \<longleftrightarrow> k \<noteq> [] \<and> hd k = CHR ''_''"

fun sanitize :: "json \<Rightarrow> json" where
  "sanitize (JObj kvs) = JObj (concat (map (\<lambda>(k, v). if private_key k then [] else [(k, sanitize v)]) kvs))"
| "sanitize (JArr xs) = JArr (map sanitize xs)"
| "sanitize (JFloat v) = (if is_finite v then JFloat v else JNull)"
| "sanitize v = v"

fun public :: "json \<Rightarrow> bool" where
  "public (JObj kvs) = list_all (\<lambda>(k, v). \<not> private_key k \<and> public v) kvs"
| "public (JArr xs) = list_all public xs"
| "public (JFloat v) = is_finite v"
| "public v = True"

subsection \<open>The result\<close>

definition opt_float :: "real option \<Rightarrow> json" where
  "opt_float x = (case x of None \<Rightarrow> JNull | Some v \<Rightarrow> JFloat (Fin v))"

definition opt_str :: "string option \<Rightarrow> json" where
  "opt_str x = (case x of None \<Rightarrow> JNull | Some s \<Rightarrow> JStr s)"

definition nat_json :: "nat \<Rightarrow> json" where
  "nat_json n = JInt (int n)"

definition strs_json :: "string list \<Rightarrow> json" where
  "strs_json xs = JArr (map JStr xs)"

definition gate_json :: "gate \<Rightarrow> json" where
  "gate_json g = JObj [(''name'', JStr (g_name g)), (''status'', JStr (status_str (g_status g))), (''detail'', JStr (g_detail g))]"

definition drift_json :: "drift \<Rightarrow> json" where
  "drift_json d =
     JObj [(''arm'', JStr (d_arm d)), (''metric'', JStr (d_metric d)), (''rho'', JFloat (Fin (d_rho d))), (''n'', nat_json (d_n d))]"

definition summary_json :: "summary \<Rightarrow> json" where
  "summary_json s =
     JObj [(''metric'', JStr (s_metric s)), (''unit'', JStr (s_unit s)), (''n'', nat_json (s_n s)), (''n_runs'', nat_json (s_n_runs s)),
       (''n_missing'', nat_json (s_n_missing s)), (''mean'', opt_float (s_mean s)), (''median'', opt_float (s_median s)),
       (''sd'', opt_float (s_sd s)), (''min'', opt_float (s_min s)), (''max'', opt_float (s_max s)),
       (''ci_lo'', opt_float (ci_lo (s_ci s))), (''ci_hi'', opt_float (ci_hi (s_ci s))),
       (''ci_method'', opt_str (ci_method (s_ci s))), (''arm'', JStr (s_arm s))]"

definition contrast_json :: "string option \<Rightarrow> contrast \<Rightarrow> json" where
  "contrast_json control c =
     JObj [(''metric'', JStr (ct_metric c)), (''unit'', JStr (ct_unit c)), (''n_control'', nat_json (ct_n_control c)),
       (''n_arm'', nat_json (ct_n_arm c)), (''mean_control'', opt_float (ct_mean_control c)), (''mean_arm'', opt_float (ct_mean_arm c)),
       (''diff'', opt_float (ct_diff c)), (''ci_lo'', opt_float (ct_ci_lo c)), (''ci_hi'', opt_float (ct_ci_hi c)),
       (''ci_method'', opt_str (ct_ci_method c)), (''pct_change'', opt_float (ct_pct_change c)),
       (''hedges_g'', opt_float (ct_hedges_g c)), (''p_perm'', opt_float (ct_p_perm c)), (''mde_abs'', opt_float (ct_mde_abs c)),
       (''mde_pct'', opt_float (ct_mde_pct c)),
       (''detectable'', case ct_detectable c of None \<Rightarrow> JNull | Some d \<Rightarrow> JBool d),
       (''verdict'', JStr (ct_verdict c)), (''sentence'', JStr (sentence_text c)),
       (''arm'', JStr (ct_arm c)), (''control_arm'', opt_str control)]"

definition mde_json :: "mde_row \<Rightarrow> json" where
  "mde_json r =
     JObj [(''arm'', JStr (m_arm r)), (''metric'', JStr (m_metric r)), (''unit'', JStr (m_unit r)), (''n_control'', nat_json (m_n_control r)),
       (''n_arm'', nat_json (m_n_arm r)), (''pooled_sd'', opt_float (m_pooled_sd r)), (''control_mean'', opt_float (m_control_mean r)),
       (''mde_abs'', opt_float (m_mde_abs r)), (''mde_pct'', opt_float (m_mde_pct r)), (''alpha'', JFloat (Fin ALPHA)),
       (''power'', JFloat (Fin POWER))]"

text \<open>An arm without scheduler counters has its own, shorter record.\<close>

definition placement_arm_json :: "placement_arm \<Rightarrow> json" where
  "placement_arm_json p =
     JObj (if pl_n_with_bls p = 0 then
         [(''arm'', JStr (pl_arm p)), (''n'', nat_json (pl_n p)), (''n_with_bls'', nat_json 0), (''strict'', JNull),
          (''cross_frac_mean'', JNull), (''run_big_frac_mean'', JNull), (''run_little_frac_mean'', JNull),
          (''dsq_big_frac_mean'', JNull), (''enqueue_mean'', JNull)]
       else
         [(''arm'', JStr (pl_arm p)), (''n'', nat_json (pl_n p)), (''n_with_bls'', nat_json (pl_n_with_bls p)),
          (''strict'', pl_strict p), (''enqueue_mean'', opt_float (pl_enqueue_mean p)),
          (''cross_frac_mean'', opt_float (pl_cross_frac_mean p)), (''cross_frac_max'', opt_float (pl_cross_frac_max p)),
          (''run_big_frac_mean'', opt_float (pl_run_big_frac_mean p)), (''run_little_frac_mean'', opt_float (pl_run_little_frac_mean p)),
          (''dsq_big_frac_mean'', opt_float (pl_dsq_big_frac_mean p))])"

definition placement_json :: "placement \<Rightarrow> json" where
  "placement_json p =
     JObj [(''arms'', JArr (map placement_arm_json (pm_arms p))), (''gates'', JArr (map gate_json (pm_gates p))), (''ok'', JBool (pm_ok p))]"

definition coverage_json :: "nat \<Rightarrow> field_coverage list \<Rightarrow> json" where
  "coverage_json n fcs =
     JObj [(''n_runs'', nat_json n),
       (''fields'', JArr (map (\<lambda>f. JObj [(''field'', JStr (fc_field f)), (''present'', nat_json (fc_present f)),
          (''missing'', nat_json (fc_missing f)), (''pct'', JFloat (Fin (fc_pct f)))]) fcs))]"

definition cpu_freq_json :: "cpu_freq \<Rightarrow> json" where
  "cpu_freq_json c =
     JObj [(''cpu'', nat_json (cf_cpu c)), (''bzy_mhz'', opt_float (cf_bzy_mhz c)), (''avg_mhz'', opt_float (cf_avg_mhz c)),
       (''busy'', opt_float (cf_busy c)), (''epp'', opt_float (cf_epp c))]"

definition freq_arm_json :: "freq_arm \<Rightarrow> json" where
  "freq_arm_json f =
     JObj [(''arm'', JStr (fa_arm f)), (''n'', nat_json (fa_n f)), (''partitioned_epp'', JBool (fa_partitioned_epp f)),
       (''smt_pairs_split'', nat_json (fa_smt_pairs_split f)), (''per_cpu'', JArr (map cpu_freq_json (fa_per_cpu f))),
       (''big_bzy_mhz'', opt_float (fa_big_bzy_mhz f)), (''little_bzy_mhz'', opt_float (fa_little_bzy_mhz f)),
       (''ratio_little_over_big'', opt_float (fa_ratio f)), (''ratio_ci_lo'', opt_float (ci_lo (fa_ratio_ci f))),
       (''ratio_ci_hi'', opt_float (ci_hi (fa_ratio_ci f))), (''ratio_ci_method'', opt_str (ci_method (fa_ratio_ci f))),
       (''verdict'', JStr (freq_verdict_text f))]"

definition frequency_json :: "frequency \<Rightarrow> json" where
  "frequency_json q = JObj [(''arms'', JArr (map freq_arm_json (fq_arms q))), (''note'', JStr (freq_note_text (fq_note q)))]"

definition counts_json :: "(string \<times> nat) list \<Rightarrow> json" where
  "counts_json xs = JObj (map (\<lambda>(a, n). (a, nat_json n)) xs)"

definition erec_json :: "erec \<times> verdict_line list \<Rightarrow> json" where
  "erec_json ev =
     (let e = fst ev in
      JObj [(''experiment'', JStr (e_experiment e)), (''n_runs'', nat_json (e_n_runs e)), (''arms'', strs_json (e_arms e)),
        (''n_per_arm'', counts_json (e_n_per_arm e)), (''control_arm'', opt_str (e_control e)),
        (''control_selection'', JStr (control_reason_text (e_control_selection e))), (''metrics'', strs_json (e_metrics e)),
        (''summary'', JArr (map summary_json (e_summary e))), (''contrasts'', JArr (map (contrast_json (e_control e)) (e_contrasts e))),
        (''mde'', JArr (map mde_json (e_mde e))), (''gates'', JArr (map gate_json (e_gates e))),
        (''drift'', JArr (map drift_json (e_drift e))), (''placement'', placement_json (e_placement e)),
        (''coverage'', coverage_json (e_n_runs e) (e_coverage e)), (''frequency'', frequency_json (e_frequency e)),
        (''render_frequency'', JBool (e_render_frequency e)), (''verdict'', strs_json (map verdict_text (snd ev)))])"

definition SEED :: int where "SEED = 0"

definition config_json :: json where
  "config_json =
     JObj [(''n_boot'', nat_json N_BOOT), (''n_perm'', nat_json N_PERM), (''seed'', JInt SEED), (''alpha'', JFloat (Fin ALPHA)),
       (''power'', JFloat (Fin POWER)), (''epp_big_max'', JInt EPP_BIG_MAX),
       (''max_start_temp_spread_c'', JFloat (Fin MAX_START_TEMP_SPREAD_C)),
       (''max_cross_domain_frac'', JFloat (Fin MAX_CROSS_DOMAIN_FRAC)), (''drift_rho'', JFloat (Fin DRIFT_RHO)),
       (''freq_ratio_real'', JFloat (Fin FREQ_RATIO_REAL))]"

text \<open>The result with the entries \<open>main\<close> adds: the time, the directory, and the files that could not be loaded.\<close>

definition analysis_json :: "string \<Rightarrow> string \<Rightarrow> (string \<times> string) list \<Rightarrow> analysis \<Rightarrow> json" where
  "analysis_json now raw errors r =
     JObj [(''experiments'', JArr (map erec_json (an_experiments r))), (''coverage'', coverage_json (an_n_runs r) (an_coverage r)),
       (''n_runs'', nat_json (an_n_runs r)), (''headline'', strs_json (map headline_text (an_headline r))), (''generated'', JStr now),
       (''raw_dir'', JStr raw),
       (''load_errors'', JArr (map (\<lambda>(f, e). JObj [(''file'', JStr f), (''error'', JStr e)]) errors)), (''config'', config_json)]"

subsection \<open>What sanitising does to it\<close>

lemma public_sanitize: "public (sanitize v)"
  by (induction v rule: sanitize.induct) (auto simp: list_all_iff)

lemma sanitize_id: "public v \<Longrightarrow> sanitize v = v"
proof (induction v rule: sanitize.induct)
  case (1 kvs)
  then have "concat (map (\<lambda>(k, v). if private_key k then [] else [(k, sanitize v)]) ks) = ks" if "set ks \<subseteq> set kvs" for ks
    using that by (induction ks) (force simp: list_all_iff)+
  then show ?case by simp
qed (auto simp: list_all_iff intro: map_idI)

lemma public_leaves [simp]: "public (opt_float x)" "public (opt_str s)" "public (nat_json n)" "public (strs_json xs)"
  by (simp_all add: opt_float_def opt_str_def nat_json_def strs_json_def list_all_iff split: option.split)

lemma public_parts [simp]:
  "public (gate_json g)" "public (drift_json d)" "public (summary_json s)" "public (contrast_json control c)"
  "public (mde_json r)" "public (coverage_json n fs)" "public (cpu_freq_json cf)" "public config_json"
  by (simp_all add: gate_json_def drift_json_def summary_json_def contrast_json_def mde_json_def coverage_json_def
      cpu_freq_json_def config_json_def private_key_def list_all_iff split: option.split)

lemma public_frequency [simp]: "public (frequency_json q)"
  by (simp add: frequency_json_def freq_arm_json_def private_key_def list_all_iff)

text \<open>A result whose arms have public names and whose \<open>strict\<close> factors are public.\<close>

definition public_experiment :: "erec \<Rightarrow> erec" where
  "public_experiment e =
     e\<lparr>e_n_per_arm := filter (\<lambda>(a, n). \<not> private_key a) (e_n_per_arm e),
       e_placement := (e_placement e)\<lparr>pm_arms := map (\<lambda>p. p\<lparr>pl_strict := sanitize (pl_strict p)\<rparr>) (pm_arms (e_placement e))\<rparr>\<rparr>"

definition public_result :: "analysis \<Rightarrow> analysis" where
  "public_result r = r\<lparr>an_experiments := map (\<lambda>(e, v). (public_experiment e, v)) (an_experiments r)\<rparr>"

lemmas sanitize_public = sanitize_id [OF public_leaves(1)] sanitize_id [OF public_leaves(2)] sanitize_id [OF public_leaves(3)]
  sanitize_id [OF public_leaves(4)] sanitize_id [OF public_frequency] public_parts [THEN sanitize_id]

lemma sanitize_counts: "sanitize (counts_json xs) = counts_json (filter (\<lambda>(a, n). \<not> private_key a) xs)"
  by (induction xs) (auto simp: counts_json_def sanitize_public)

lemma sanitize_placement:
  "sanitize (placement_json p) = placement_json (p\<lparr>pm_arms := map (\<lambda>p. p\<lparr>pl_strict := sanitize (pl_strict p)\<rparr>) (pm_arms p)\<rparr>)"
  by (simp add: placement_json_def placement_arm_json_def private_key_def sanitize_public comp_def)

lemma sanitize_erec: "sanitize (erec_json (e, v)) = erec_json (public_experiment e, v)"
  by (simp add: erec_json_def Let_def public_experiment_def sanitize_counts sanitize_placement sanitize_public private_key_def
      comp_def)

subsection \<open>Properties\<close>


end
