(* ===== verification/Output.thy ===== *)
theory Output
  imports Csv AnalysisJson Calibrate
begin

text \<open>
  What \<open>scripts/analyze.py\<close> reads and writes: \<open>find_run_files\<close>, \<open>write_csv\<close>, \<open>write_markdown\<close> with its refusal to replace a
  hand-written file, and \<open>main\<close>. The file system is a map from paths to files; the directory walk,
  the outcome of reading a run file, which paths can be written and the clock are the record \<open>host\<close>.
\<close>

subsection \<open>Files\<close>

text \<open>A file that opens and decodes, one that does not open (or is a directory), one whose head is not UTF-8.\<close>

datatype content = Text string | Unreadable | NotUtf8

type_synonym files = "string \<Rightarrow> content option"

record host =
  h_isdir :: "string \<Rightarrow> bool"
  h_walk :: "string \<Rightarrow> (string \<times> string list) list"
  h_load :: "string \<Rightarrow> json option"
  h_error :: "string \<Rightarrow> string"
  h_writable :: "string \<Rightarrow> bool"
  h_now :: string

definition write_text :: "host \<Rightarrow> string \<Rightarrow> string \<Rightarrow> files \<Rightarrow> py_error + files" where
  "write_text h path text fs = (if h_writable h path then Inr (fs(path \<mapsto> Text text)) else Inl OSError)"

definition ends_with :: "string \<Rightarrow> string \<Rightarrow> bool" where
  "ends_with suffix s \<longleftrightarrow> length suffix \<le> length s \<and> drop (length s - length suffix) s = suffix"

definition find_run_files :: "host \<Rightarrow> string \<Rightarrow> string list" where
  "find_run_files h raw_dir =
     sort (concat (map (\<lambda>(d, names). map (path_join d) (filter (ends_with ''.json'') (sort names))) (h_walk h raw_dir)))"

subsection \<open>The CSV file\<close>

definition front_columns :: "string list" where
  "front_columns =
     [''file'', ''experiment'', ''arm'', ''sched'', ''epp_mode'', ''strict'', ''rep'', ''timestamp'', ''ok'', ''exit_code'', ''kernel'',
      ''on_ac'', ''governor'', ''start_temp_c'', ''wall_s'', ''pkg_j'', ''core_j'', ''uncore_j'', ''dram_j'', ''psys_j'', ''rest_j'',
      ''avg_pkg_w'', ''pkg_c_mean'', ''pkg_c_max'', ''energy_to_solution_j'', ''edp_js'', ''pkg_j_per_s'', ''rest_frac'',
      ''partitioned_epp'', ''n_big_cpus'', ''n_little_cpus'', ''big_cpus'', ''little_cpus'', ''smt_pairs_split'',
      ''bzy_mhz_big_mean'', ''bzy_mhz_little_mean'', ''bzy_ratio_little_over_big'']"

definition cpu_columns :: "string list" where
  "cpu_columns = concat (map (\<lambda>i. map (cpu_col i) [''avg_mhz'', ''bzy_mhz'', ''busy'', ''epp'']) [0..<N_CPUS])"

definition back_columns :: "string list" where
  "back_columns =
     [''pinger_present'', ''pinger_n'', ''wake_us_p50'', ''wake_us_p99'', ''wake_us_p999'', ''wake_us_mean'', ''work_us_p50'',
      ''work_us_p99'', ''work_us_mean'', ''target_work_us'', ''spin_present'', ''spin_threads'', ''spin_miters_total'',
      ''spin_miters_mean'', ''bls_present'', ''bls_enqueue'', ''bls_dsq_big'', ''bls_dsq_little'', ''bls_cross_domain'',
      ''bls_run_big_ms'', ''bls_run_little_ms'', ''bls_cross_frac'', ''bls_run_big_frac'', ''bls_run_little_frac'',
      ''bls_dsq_big_frac'', ''notes'']"

definition BASE_COLUMNS :: "string list" where
  "BASE_COLUMNS = front_columns @ cpu_columns @ back_columns"

text \<open>The dictionary of the source behind a row, but for its private keys.\<close>

definition row_items :: "row \<Rightarrow> (string \<times> json) list" where
  "row_items r =
     [(''file'', JStr (r_file r)), (''experiment'', JStr (r_experiment r)), (''arm'', JStr (r_arm r)),
      (''sched'', r_sched r), (''epp_mode'', r_epp_mode r), (''strict'', r_strict r), (''timestamp'', r_timestamp r),
      (''ok'', r_ok r), (''on_ac'', r_on_ac r),
      (''exit_code'', case r_exit_code r of None \<Rightarrow> JNull | Some n \<Rightarrow> JInt n),
      (''partitioned_epp'', JBool (r_partitioned_epp r)),
      (''big_cpus'', JStr (join_str '' '' (map nat_str (r_big_cpus r)))),
      (''little_cpus'', JStr (join_str '' '' (map nat_str (r_little_cpus r)))),
      (''n_big_cpus'', nat_json (length (r_big_cpus r))), (''n_little_cpus'', nat_json (length (r_little_cpus r))),
      (''smt_pairs_split'', nat_json (r_smt_pairs_split r)),
      (''pinger_present'', JBool (r_pinger_present r)), (''spin_present'', JBool (r_spin_present r)),
      (''bls_present'', JBool (r_bls_present r)), (''spin_threads'', nat_json (r_spin_threads r))]
     @ r_info r @ map (\<lambda>(k, v). (k, opt_float v)) (r_nums r)"

definition extra_keys :: "row list \<Rightarrow> string list" where
  "extra_keys rows = sort (remdups (concat (map (\<lambda>r. map fst (r_bls_extra r)) rows)))"

definition csv_columns :: "row list \<Rightarrow> string list" where
  "csv_columns rows =
     filter (\<lambda>c. c \<noteq> ''notes'') BASE_COLUMNS @ map (\<lambda>k. ''bls_'' @ k) (extra_keys rows) @ [''notes'']"

text \<open>The value of a column: a column that reads like an extra counter is looked up among the extra counters.\<close>

definition cell_value :: "string list \<Rightarrow> row \<Rightarrow> string \<Rightarrow> json" where
  "cell_value extra r c =
     (if take 4 c = ''bls_'' \<and> drop 4 c \<in> set extra then opt_float (at_key (r_bls_extra r) (drop 4 c))
      else case map_of (row_items r) c of None \<Rightarrow> JNull | Some v \<Rightarrow> v)"

fun cell_text :: "(real \<Rightarrow> string) \<Rightarrow> json \<Rightarrow> string" where
  "cell_text fr JNull = []"
| "cell_text fr (JBool b) = bool_str b"
| "cell_text fr (JFloat (Fin v)) = trimmed 6 v"
| "cell_text fr (JFloat NaN) = []"
| "cell_text fr (JFloat v) = repr_float fr v"
| "cell_text fr v = py_str fr v"

definition results_csv :: "(real \<Rightarrow> string) \<Rightarrow> row list \<Rightarrow> string" where
  "results_csv fr rows =
     csv_text (csv_columns rows
       # map (\<lambda>r. map (\<lambda>c. cell_text fr (cell_value (extra_keys rows) r c)) (csv_columns rows)) rows)"

definition write_csv :: "(real \<Rightarrow> string) \<Rightarrow> host \<Rightarrow> row list \<Rightarrow> string \<Rightarrow> files \<Rightarrow> py_error + files" where
  "write_csv fr h rows path fs = write_text h path (results_csv fr rows) fs"

subsection \<open>The report file\<close>

fun contains :: "string \<Rightarrow> string \<Rightarrow> bool" where
  "contains pat [] = (pat = [])"
| "contains pat (c # cs) = (take (length pat) (c # cs) = pat \<or> contains pat cs)"

definition refusal :: "string \<Rightarrow> string" where
  "refusal path =
     ''refusing to overwrite '' @ path @ '': it does not start with the generated-file marker, so it may be ''
     @ ''hand-written. Move it aside or pass --out-md.''"

text \<open>Whether \<open>write_markdown\<close> may replace what is at the path.\<close>

fun head_of :: "content \<Rightarrow> py_error + string" where
  "head_of (Text s) = Inr (take 4096 s)"
| "head_of Unreadable = Inr []"
| "head_of NotUtf8 = Inl ValueError"

definition write_markdown :: "host \<Rightarrow> string \<Rightarrow> string \<Rightarrow> files \<Rightarrow> py_error + files" where
  "write_markdown h text path fs =
     (case fs path of
        None \<Rightarrow> write_text h path text fs
      | Some f \<Rightarrow> err_bind (head_of f) (\<lambda>head.
          if contains GENERATED_MARKER head then write_text h path text fs
          else Inl (SystemExit (refusal path))))"

subsection \<open>The program\<close>

record analyze_args =
  aa_raw :: string
  aa_out_csv :: string
  aa_out_md :: string
  aa_mde :: bool
  aa_json :: bool

datatype printed = PNoDirectory | PNoRuns | PJson json | PConsole "string list"

text \<open>The entries of \<open>load_errors\<close>; \<open>h_error\<close> is the text of the exception that stopped a file from loading.\<close>

definition load_errors :: "host \<Rightarrow> string list \<Rightarrow> (string \<times> string) list" where
  "load_errors h paths =
     map (\<lambda>p. (p, case h_load h p of None \<Rightarrow> h_error h p | Some _ \<Rightarrow> ''top level is not an object'')) paths"

text \<open>What the run prints in the end: the JSON value given to \<open>json.dump\<close>, or the lines.\<close>

definition final_output :: "host \<Rightarrow> analyze_args \<Rightarrow> string list \<Rightarrow> analysis \<Rightarrow> printed" where
  "final_output h args errors r =
     (if aa_json args then PJson (sanitize (analysis_json (h_now h) (aa_raw args) (load_errors h errors) r))
      else PConsole (print_console (aa_mde args) r (aa_out_csv args) (aa_out_md args)))"

definition write_results ::
  "numerics \<Rightarrow> host \<Rightarrow> analyze_args \<Rightarrow> string list \<Rightarrow> row list \<Rightarrow> files \<Rightarrow> (py_error + printed) \<times> files" where
  "write_results nm h args errors rows fs =
     (case write_csv (float_repr nm) h rows (aa_out_csv args) fs of
        Inl e \<Rightarrow> (Inl e, fs)
      | Inr fs1 \<Rightarrow>
          let r = analyze nm rows in
          (case err_bind (render_markdown (float_repr nm) (aa_mde args) r (aa_raw args) (aa_out_csv args) (h_now h))
             (\<lambda>text. write_markdown h text (aa_out_md args) fs1) of
             Inl e \<Rightarrow> (Inl e, fs1)
           | Inr fs2 \<Rightarrow> (Inr (final_output h args errors r), fs2)))"

definition analyze_main ::
  "numerics \<Rightarrow> host \<Rightarrow> analyze_args \<Rightarrow> files \<Rightarrow> (py_error + printed) \<times> files" where
  "analyze_main nm h args fs =
     (if \<not> h_isdir h (aa_raw args) then (Inr PNoDirectory, fs)
      else
        let (runs, errors) = load_runs (map (\<lambda>p. (p, h_load h p)) (find_run_files h (aa_raw args))) in
        if runs = [] then (Inr PNoRuns, fs)
        else case err_map (\<lambda>(p, run). flatten_run p run) runs of
               Inl e \<Rightarrow> (Inl e, fs)
             | Inr rows \<Rightarrow> write_results nm h args errors rows fs)"


subsection \<open>The report replaces only itself\<close>

definition replaceable :: "content option \<Rightarrow> bool" where
  "replaceable f = (case f of None \<Rightarrow> True | Some (Text s) \<Rightarrow> contains GENERATED_MARKER (take 4096 s) | Some _ \<Rightarrow> False)"

lemma contains_prefix: "contains pat (pat @ s)"
  by (cases pat) (cases s, simp_all)

lemma rendered:
  "\<exists>rest. render_markdown fr with_mde r raw csv now = Inr (GENERATED_MARKER @ rest)"
proof -
  obtain ls where ls: "render_lines fr with_mde r raw csv now = Inr ls" using good_report unfolding good_def by blast
  then obtain more where "ls = GENERATED_MARKER # more"
    by (auto simp: render_lines_def md_cat_def err_bind_Inr plain_def title_section_def)
  then show ?thesis using ls by (cases more) (simp_all add: render_markdown_def)
qed

lemma rendered_replaceable: "replaceable (Some (Text (GENERATED_MARKER @ rest)))"
proof -
  have "length GENERATED_MARKER \<le> 4096" by (simp add: GENERATED_MARKER_def)
  then show ?thesis using contains_prefix by (simp add: replaceable_def)
qed

lemma write_markdown_cases:
  "write_markdown h text path fs =
     (if replaceable (fs path) then write_text h path text fs
      else Inl (if fs path = Some NotUtf8 then ValueError else SystemExit (refusal path)))"
  by (auto simp: write_markdown_def replaceable_def GENERATED_MARKER_def split: option.split content.split)

lemma write_results_cases:
  assumes "aa_out_csv args \<noteq> aa_out_md args"
  shows "\<exists>rest. write_results nm h args errors rows fs =
    (let csv = Text (results_csv (float_repr nm) rows); md = Text (GENERATED_MARKER @ rest) in
     if \<not> h_writable h (aa_out_csv args) then (Inl OSError, fs)
     else if \<not> replaceable (fs (aa_out_md args)) then
       (Inl (if fs (aa_out_md args) = Some NotUtf8 then ValueError else SystemExit (refusal (aa_out_md args))),
        fs(aa_out_csv args \<mapsto> csv))
     else if \<not> h_writable h (aa_out_md args) then (Inl OSError, fs(aa_out_csv args \<mapsto> csv))
     else (Inr (final_output h args errors (analyze nm rows)),
           fs(aa_out_csv args \<mapsto> csv, aa_out_md args \<mapsto> md)))"
proof -
  obtain rest where "render_markdown (float_repr nm) (aa_mde args) (analyze nm rows) (aa_raw args) (aa_out_csv args) (h_now h)
      = Inr (GENERATED_MARKER @ rest)" using rendered by blast
  then show ?thesis
    using assms by (intro exI [of _ rest]) (auto simp: write_results_def write_csv_def write_text_def write_markdown_cases Let_def)
qed

lemma write_results_spares:
  "p \<noteq> aa_out_csv args \<Longrightarrow> p \<noteq> aa_out_md args \<Longrightarrow> snd (write_results nm h args errors rows fs) p = fs p"
  by (auto simp: write_results_def write_csv_def write_text_def write_markdown_cases Let_def err_bind_def split: sum.splits)

lemma analyze_main_cases [consumes 0, case_names no_directory no_runs bad_run results]:
  obtains "analyze_main nm h args fs = (Inr PNoDirectory, fs)"
    | "analyze_main nm h args fs = (Inr PNoRuns, fs)"
    | e where "analyze_main nm h args fs = (Inl e, fs)"
    | errors rows where "analyze_main nm h args fs = write_results nm h args errors rows fs"
  by (fastforce simp: analyze_main_def Let_def split: prod.splits sum.splits if_splits)

subsection \<open>Column names\<close>

lemma cpu_columns_facts: "distinct cpu_columns" "c \<in> set cpu_columns \<Longrightarrow> take 3 c = ''cpu''"
  unfolding cpu_columns_def N_CPUS_def eight by (simp_all add: cpu_col_def nat_str_small, auto)

lemma other_columns_facts:
  "distinct (front_columns @ back_columns)" "c \<in> set (front_columns @ back_columns) \<Longrightarrow> take 3 c \<noteq> ''cpu''"
  unfolding front_columns_def back_columns_def by (simp, auto)

lemma base_columns_distinct: "distinct BASE_COLUMNS"
  using cpu_columns_facts other_columns_facts unfolding BASE_COLUMNS_def distinct_append set_append by blast

subsection \<open>Numbers in the CSV file\<close>

lemma fnum_trimmed:
  assumes "\<bar>v\<bar> \<le> 10 ^ 300"
  shows "\<exists>w. fnum (Some (trimmed 6 v)) = Some w \<and> \<bar>w - v\<bar> \<le> 1 / (2 * 10 ^ 6)"
proof -
  define L :: real where "L = 2 ^ 1024 - 2 ^ 970"
  obtain w where w: "py_float (trimmed 6 v) = Some (round_float w)" "\<bar>w - v\<bar> \<le> 1 / (2 * 10 ^ 6)"
    using py_float_trimmed [of 6 v] by auto
  have "\<bar>w\<bar> \<le> \<bar>v\<bar> + \<bar>w - v\<bar>" by linarith
  also have "\<dots> \<le> 10 ^ 300 + 1" by (rule add_mono [OF assms order_trans [OF w(2)]]) simp
  also have "\<dots> < L" by (simp add: L_def)
  finally have "round_float w = Fin w" unfolding round_float_def L_def [symmetric] by (simp add: abs_less_iff)
  moreover have "trimmed 6 v \<notin> set missing_tokens"
    using trimmed_plain(4) [of 6 v] by (auto simp: missing_tokens_def number_char_def is_digit_def code_of_def)
  ultimately show ?thesis
    using w trimmed_plain(1-3) [of 6 v] by (auto simp: fnum_def Let_def)
qed

subsection \<open>Properties\<close>

text \<open>C18: the results file is read back by a CSV reader as the header followed by one record per run, and a number
  in it is read back, by the parser of the rail model, to within half a millionth.\<close>

theorem results_csv_reads_back:
  assumes "r \<in> set rows" and "cell_value (extra_keys rows) r c = JFloat (Fin v)" and "\<bar>v\<bar> \<le> 10 ^ 300"
  shows "csv_read (results_csv fr rows)
      = csv_columns rows # map (\<lambda>r. map (\<lambda>c. cell_text fr (cell_value (extra_keys rows) r c)) (csv_columns rows)) rows
    \<and> (\<exists>w. fnum (Some (cell_text fr (cell_value (extra_keys rows) r c))) = Some w \<and> \<bar>w - v\<bar> \<le> 1 / (2 * 10 ^ 6))"
  using fnum_trimmed [OF assms(3)] by (simp add: results_csv_def csv_read_text assms(2))

theorem results_csv_reads_back_witness:
  "\<exists>w. fnum (Some (cell_text (general 17) (cell_value (extra_keys Report.demo_rows) (demo_row ''eevdf-flat'' 0 42) ''energy_to_solution_j''))) = Some w
     \<and> \<bar>w - 42\<bar> \<le> 1 / (2 * 10 ^ 6)"
proof -
  have "cell_value (extra_keys Report.demo_rows) (demo_row ''eevdf-flat'' 0 42) ''energy_to_solution_j'' = JFloat (Fin 42)"
    by (simp add: cell_value_def row_items_def demo_row_def opt_float_def)
  from results_csv_reads_back [OF _ this, of "general 17"] show ?thesis by (simp add: Report.demo_rows_def demo_control_def)
qed

text \<open>The columns of the results file have distinct names exactly when no extra scheduler counter has the name
  of a counter the file already has.\<close>

theorem csv_columns_distinct:
  "distinct (csv_columns rows) = list_all (\<lambda>k. ''bls_'' @ k \<notin> set BASE_COLUMNS) (extra_keys rows)"
proof -
  note base = base_columns_distinct
  have "distinct (extra_keys rows)" by (simp add: extra_keys_def)
  then have ext: "distinct (map (\<lambda>k. ''bls_'' @ k) (extra_keys rows))" by (simp add: distinct_map inj_on_def)
  have "''notes'' \<noteq> ''bls_'' @ k" for k by simp
  with base ext show ?thesis by (auto simp: csv_columns_def list_all_iff)
qed

text \<open>C11: a run never replaces a file it did not generate: when what is at the report path is not a generated report
  (and is not the CSV path), it is left as it was, no result is printed, and at most the CSV file changes.\<close>

theorem report_never_overwritten:
  assumes "aa_out_csv args \<noteq> aa_out_md args" and "\<not> replaceable (fs (aa_out_md args))"
  shows "snd (analyze_main nm h args fs) (aa_out_md args) = fs (aa_out_md args)
    \<and> (\<nexists>v. fst (analyze_main nm h args fs) = Inr (PJson v)) \<and> (\<nexists>ls. fst (analyze_main nm h args fs) = Inr (PConsole ls))
    \<and> (\<exists>c. snd (analyze_main nm h args fs) \<in> {fs, fs(aa_out_csv args \<mapsto> c)})"
proof -
  have W: "snd (write_results nm h args errors rows fs) (aa_out_md args) = fs (aa_out_md args)
    \<and> (\<exists>e. fst (write_results nm h args errors rows fs) = Inl e)
    \<and> (\<exists>c. snd (write_results nm h args errors rows fs) \<in> {fs, fs(aa_out_csv args \<mapsto> c)})" for errors rows
    using write_results_cases [OF assms(1), of nm h errors rows fs] assms
    by (intro conjI exI [of _ "Text (results_csv (float_repr nm) rows)"]) (auto simp: Let_def)
  show ?thesis
  proof (cases rule: analyze_main_cases [of nm h args fs])
    case (results errors rows)
    then show ?thesis using W [of errors rows] by auto
  qed auto
qed

definition blank_host :: host where
  "blank_host = \<lparr>h_isdir = \<lambda>_. True, h_walk = \<lambda>_. [([], [''a.json'', ''notes.txt''])], h_load = \<lambda>_. Some demo_run,
     h_error = \<lambda>_. [], h_writable = \<lambda>_. True, h_now = ''2025-01-01T00:00:00''\<rparr>"

definition default_args :: analyze_args where
  "default_args = \<lparr>aa_raw = ''data/raw'', aa_out_csv = ''data/results.csv'', aa_out_md = ''docs/results.md'',
     aa_mde = False, aa_json = False\<rparr>"

theorem report_never_overwritten_witness:
  "snd (analyze_main demo_numerics blank_host default_args [''docs/results.md'' \<mapsto> Text ''my notes'']) ''docs/results.md'' = Some (Text ''my notes'')"
  using report_never_overwritten [of default_args "[''docs/results.md'' \<mapsto> Text ''my notes'']" demo_numerics blank_host]
  by (simp add: default_args_def replaceable_def GENERATED_MARKER_def)



text \<open>What \<open>--json\<close> hands to \<open>json.dump\<close> has no private key, no NaN and no infinity at any depth, so \<open>allow_nan=False\<close>
  never raises; and a value that was already so is not changed.\<close>

theorem sanitize_makes_public: "public (sanitize v) \<and> (sanitize v = v) = public v"
  using public_sanitize [of v] sanitize_id [of v] by metis

end
