(* ===== verification/Pipeline.thy ===== *)
theory Pipeline
  imports SessionText Output
begin

text \<open>
  From a session to its analysis: \<open>scripts/bench.py\<close> and \<open>scripts/analyze.py\<close> meet in the record files under
  \<open>data/raw\<close>. The records a session leaves are read, flattened and grouped by the model of the analysis. Both theories
  have a record \<open>host\<close>, the files each script depends on; the one of the analysis is \<open>Output.host\<close>.
\<close>

subsection \<open>One record\<close>

text \<open>The integers of a value can be converted to floats.\<close>

fun in_range :: "json \<Rightarrow> bool" where
  "in_range (JInt n) = (\<bar>n\<bar> < 2 ^ 1024 - 2 ^ 970)"
| "in_range (JArr xs) = list_all in_range xs"
| "in_range (JObj kvs) = list_all (\<lambda>(k, v). in_range v) kvs"
| "in_range v = True"

lemma in_range_get: "in_range v \<Longrightarrow> in_range (jget v k)"
proof (cases v)
  case (JObj kvs)
  then show "in_range v \<Longrightarrow> ?thesis" by (auto simp: list_all_iff split: option.split dest!: map_of_SomeD)
qed auto

lemma in_range_reread: "in_range v \<Longrightarrow> in_range (reread v)"
  by (induction v rule: reread.induct) (auto simp: list_all_iff)

lemma in_range_obj: "in_range v \<Longrightarrow> in_range (obj_or_empty v)"
  by (simp add: obj_or_empty_def)

lemma num_of_total: "in_range v \<Longrightarrow> num_of v \<noteq> Inl e"
  by (cases v rule: num_of.cases) auto

lemma nums_of_total: "in_range d \<Longrightarrow> nums_of d ks \<noteq> Inl e"
  unfolding nums_of_def by (auto dest!: err_map_error simp: err_bind_Inl num_of_total in_range_get)

lemma arr_total: "in_range d \<Longrightarrow> arr d k \<noteq> Inl e"
proof
  assume "arr d k = Inl e" "in_range d"
  then obtain xs where xs: "jget d k = JArr xs" "err_map num_of (take N_CPUS xs) = Inl e"
    by (auto simp: arr_def err_bind_Inl split: json.splits)
  have "list_all in_range xs" using in_range_get [OF \<open>in_range d\<close>, of k] xs(1) by simp
  with xs(2) show False by (auto simp: list_all_iff num_of_total dest!: err_map_error in_set_takeD)
qed

lemma items_total:
  "in_range d \<Longrightarrow> err_map (\<lambda>kv. err_bind (num_of (snd kv)) (\<lambda>x. Inr (fst kv, x))) (filter P (items_of d)) \<noteq> Inl e"
proof
  assume "in_range d" "err_map (\<lambda>kv. err_bind (num_of (snd kv)) (\<lambda>x. Inr (fst kv, x))) (filter P (items_of d)) = Inl e"
  moreover from this obtain kv where "kv \<in> set (items_of d)" "num_of (snd kv) = Inl e"
    by (auto simp: err_bind_Inl dest!: err_map_error)
  ultimately show False using num_of_total [of "snd kv"] by (cases d) (auto simp: list_all_iff case_prod_beta)
qed

lemma rates_total: "in_range d \<Longrightarrow> err_map (\<lambda>t. num_of (jget t k)) (filter P (list_of d)) \<noteq> Inl e"
  by (cases d) (auto simp: list_all_iff num_of_total in_range_get dest!: err_map_error)

lemmas flatten_totals = num_of_total nums_of_total arr_total items_total rates_total

lemma exit_of_reread: "exit_of (reread v) \<noteq> Inl e"
proof (cases v)
  case (JFloat x)
  then show ?thesis by (cases x) auto
qed auto

lemma is_obj_reread: "is_obj (reread v) = is_obj v"
proof (cases v)
  case (JFloat x)
  then show ?thesis by (cases "is_finite x") (auto simp: is_obj_def)
qed (auto simp: is_obj_def)

lemma obj_or_empty_reread: "obj_or_empty (reread v) = reread (obj_or_empty v)"
  by (simp add: obj_or_empty_def is_obj_reread)

text \<open>A stored record is a JSON object again, and its row has its experiment, arm and repetition.\<close>

lemma record_obj: "is_obj (reread (record_json env ts rec))"
  by (simp add: record_json_def is_obj_def Let_def)

lemma record_gets:
  "jget (record_json env ts rec) ''experiment'' = JStr (rr_experiment rec)"
  "jget (record_json env ts rec) ''arm'' = JStr (rr_arm rec)"
  "jget (record_json env ts rec) ''rep'' = JInt (int (rr_rep rec))"
  "jget (record_json env ts rec) ''ok'' = JBool (rr_ok rec)"
  "jget (record_json env ts rec) ''timestamp'' = JStr ts"
  by (simp_all add: record_json_def Let_def)

lemma record_env:
  "''start_temp_c'' \<notin> fst ` set env \<Longrightarrow>
     jget (obj_or_empty (jget (record_json env ts rec) ''env'')) ''start_temp_c'' =
       opt_json (\<lambda>t. JFloat (Fin t)) (rr_start_temp rec)"
  by (simp add: record_json_def Let_def map_add_def map_of_eq_None_iff [THEN iffD2] obj_or_empty_def is_obj_def)

lemma temp_num: "num_of (reread (opt_json (\<lambda>t. JFloat (Fin t)) v)) = Inr v"
  by (cases v) (simp_all add: opt_json_def)

lemma flatten_record:
  assumes "rr_experiment rec \<noteq> []" "rr_arm rec \<noteq> []" "''start_temp_c'' \<notin> fst ` set env"
    and "flatten_run p (reread (record_json env ts rec)) = Inr r"
  shows "r_experiment r = rr_experiment rec \<and> r_arm r = rr_arm rec \<and> col r ''rep'' = Some (real (rr_rep rec))
    \<and> col r ''start_temp_c'' = rr_start_temp rec \<and> r_ok r = JBool (rr_ok rec)"
  using assms
  by (auto simp: flatten_run_def Let_def err_bind_Inr jget_reread obj_or_empty_reread record_gets record_env temp_num
      col_def case_prod_beta' split: if_splits)

text \<open>What the tools printed and the record stores can be flattened.\<close>

definition storable :: "run_record \<Rightarrow> bool" where
  "storable rec \<longleftrightarrow>
     rr_experiment rec \<noteq> [] \<and> rr_arm rec \<noteq> [] \<and> in_range (JInt (int (rr_rep rec)))
     \<and> (\<forall>k v. slot_value k (rr_slots rec) = Some v \<longrightarrow> in_range v)"

lemma storable_slot:
  assumes "storable rec"
  shows "in_range (obj_or_empty (jget (record_json env ts rec) ''energy''))"
    "in_range (obj_or_empty (jget (record_json env ts rec) ''pinger''))"
    "in_range (obj_or_empty (jget (record_json env ts rec) ''spin''))"
    "in_range (obj_or_empty (jget (record_json env ts rec) ''bls''))"
proof -
  have "in_range (opt_json id (slot_value k (rr_slots rec)))" for k
    using assms by (cases "slot_value k (rr_slots rec)") (simp_all add: storable_def opt_json_def)
  note slots = this [of SEnergy, simplified] this [of SPinger, simplified] this [of SSpin, simplified] this [of SBls, simplified]
  show "in_range (obj_or_empty (jget (record_json env ts rec) ''energy''))"
    "in_range (obj_or_empty (jget (record_json env ts rec) ''pinger''))"
    "in_range (obj_or_empty (jget (record_json env ts rec) ''spin''))"
    "in_range (obj_or_empty (jget (record_json env ts rec) ''bls''))"
    using slots by (simp_all add: record_json_def Let_def in_range_obj)
qed

lemma flatten_record_total:
  assumes "storable rec" "''start_temp_c'' \<notin> fst ` set env"
  shows "flatten_run p (reread (record_json env ts rec)) \<noteq> Inl e"
proof
  assume "flatten_run p (reread (record_json env ts rec)) = Inl e"
  moreover note slots = storable_slot [OF assms(1), of env ts, THEN in_range_reread]
  moreover have "in_range (reread (jget (obj_or_empty (jget (record_json env ts rec) k)) k'))"
    if "k \<in> {''energy'', ''pinger'', ''spin'', ''bls''}" for k k'
    using that storable_slot [OF assms(1), of env ts] by (auto intro!: in_range_reread in_range_get)
  moreover have "rr_experiment rec \<noteq> []" "rr_arm rec \<noteq> []" "\<not> \<bar>int (rr_rep rec)\<bar> \<ge> 2 ^ 1024 - 2 ^ 970"
    using assms(1) by (simp_all add: storable_def)
  ultimately show False
    using assms(2)
    by (auto simp: flatten_run_def Let_def err_bind_Inl jget_reread obj_or_empty_reread record_gets record_env temp_num
        exit_of_reread case_prod_beta' flatten_totals split: if_splits)
qed

subsection \<open>The rows of a plan\<close>

lemma planned_in:
  "(e, a, i) \<in> set (planned_runs b) \<longleftrightarrow>
     (\<exists>names. (e, names) \<in> set (planned_arms b) \<and> a \<in> set names) \<and> i < reps (b_args b)"
  unfolding planned_runs_def by (force simp: image_iff)

lemma plan_filter:
  assumes "(e, names) \<in> set (planned_arms b)" "n \<in> set names"
  shows "mset (filter (\<lambda>(e', a, i). a = n \<and> e' = e) (planned_runs b)) = mset (map (\<lambda>i. (e, n, i)) [0..<reps (b_args b)])"
proof -
  have "set (filter (\<lambda>(e', a, i). a = n \<and> e' = e) (planned_runs b)) = set (map (\<lambda>i. (e, n, i)) [0..<reps (b_args b)])"
    using assms by (auto simp: planned_in)
  moreover have "distinct (map (\<lambda>i. (e, n, i)) [0..<reps (b_args b)])" by (simp add: distinct_map inj_on_def)
  ultimately show ?thesis
    by (subst set_eq_iff_mset_eq_distinct [symmetric]) (simp_all add: planned_distinct)
qed

lemma planned_names: "(e, names) \<in> set (planned_arms b) \<Longrightarrow> e \<noteq> [] \<and> names \<noteq> [] \<and> [] \<notin> set names"
  by (auto simp: planned_arms_def e1_names_def e1b_arms_def E3_ARMS_def e2_names_def e2_conditions_def split: if_splits)

definition rep_key :: "row \<Rightarrow> string \<times> string \<times> real option" where
  "rep_key r = (r_experiment r, r_arm r, col r ''rep'')"

text \<open>The rows are those of the plan, in any order.\<close>

definition rows_of_plan :: "bench \<Rightarrow> row list \<Rightarrow> bool" where
  "rows_of_plan b rows \<longleftrightarrow>
     mset (map rep_key rows) = mset (map (\<lambda>(e, a, i). (e, a, Some (real i))) (planned_runs b))"

lemma plan_arm_reps:
  assumes "rows_of_plan b rows" "(e, names) \<in> set (planned_arms b)" "n \<in> set names"
  shows "mset (map (\<lambda>r. col r ''rep'') (filter (\<lambda>r. r_arm r = n \<and> r_experiment r = e) rows)) =
      mset (map (\<lambda>i. Some (real i)) [0..<reps (b_args b)])"
proof -
  let ?P = "\<lambda>(e', a, v). a = n \<and> e' = e"
  have "mset (map (\<lambda>r. col r ''rep'') (filter (\<lambda>r. r_arm r = n \<and> r_experiment r = e) rows)) =
      image_mset (\<lambda>(e', a, v). v) (filter_mset ?P (mset (map rep_key rows)))"
    by (simp add: filter_mset_image_mset rep_key_def image_mset.compositionality comp_def)
  also have "\<dots> = image_mset (\<lambda>(e', a, i). Some (real i)) (mset (filter (\<lambda>(e', a, i). a = n \<and> e' = e) (planned_runs b)))"
    unfolding assms(1) [unfolded rows_of_plan_def]
    by (simp add: filter_mset_image_mset image_mset.compositionality comp_def case_prod_beta')
  also have "\<dots> = mset (map (\<lambda>i. Some (real i)) [0..<reps (b_args b)])"
    unfolding plan_filter [OF assms(2,3)] by (simp add: image_mset.compositionality comp_def)
  finally show ?thesis .
qed

lemma reps_in_order:
  assumes "mset (map (\<lambda>r. col r ''rep'') rs) = mset (map (\<lambda>i. Some (real i)) [0..<n])"
  shows "map (\<lambda>r. col r ''rep'') (sort_key row_key rs) = map (\<lambda>i. Some (real i)) [0..<n]"
proof -
  let ?s = "sort_key row_key rs"
  have some: "col r ''rep'' = Some (fst (row_key r))" if "r \<in> set ?s" for r
  proof -
    have "col r ''rep'' \<in> set_mset (mset (map (\<lambda>r. col r ''rep'') rs))" using that by simp
    then show ?thesis unfolding assms by (auto simp: row_key_def)
  qed
  have "sorted (map row_key ?s)" by simp
  then have "sorted (map (\<lambda>r. fst (row_key r)) ?s)"
    by (simp add: sorted_wrt_map less_eq_prod_def) (erule sorted_wrt_mono_rel [rotated], auto)
  moreover have "sorted (map real [0..<n])" by (simp add: sorted_wrt_map sorted_wrt_mono_rel [OF _ sorted_upt])
  moreover have "mset (map (\<lambda>r. fst (row_key r)) ?s) = mset (map real [0..<n])"
  proof -
    have "map (\<lambda>r. col r ''rep'') ?s = map Some (map (\<lambda>r. fst (row_key r)) ?s)" using some by simp
    then have "image_mset Some (mset (map (\<lambda>r. fst (row_key r)) ?s)) = image_mset Some (mset (map real [0..<n]))"
      using assms by (metis (no_types, lifting) list.map_comp mset_map mset_sort comp_def map_eq_conv)
    then have "image_mset the (image_mset Some (mset (map (\<lambda>r. fst (row_key r)) ?s))) = image_mset the (image_mset Some (mset (map real [0..<n])))"
      by simp
    then show ?thesis by (simp add: image_mset.compositionality comp_def)
  qed
  ultimately have "map (\<lambda>r. fst (row_key r)) ?s = map real [0..<n]"
    by (metis properties_for_sort)
  then have "map Some (map (\<lambda>r. fst (row_key r)) ?s) = map Some (map real [0..<n])" by simp
  moreover have "map (\<lambda>r. col r ''rep'') ?s = map (\<lambda>r. Some (fst (row_key r))) ?s" using some by (intro map_cong refl)
  ultimately show ?thesis by (simp add: comp_def)
qed

text \<open>Grouping the rows of a plan gives its experiments, each with its arms, each with one row per repetition.\<close>

definition complete_groups :: "bench \<Rightarrow> (string \<times> arms) list \<Rightarrow> bool" where
  "complete_groups b groups \<longleftrightarrow>
     set (map fst groups) = set (map fst (planned_arms b))
     \<and> list_all (\<lambda>(e, names). case map_of groups e of None \<Rightarrow> False
        | Some arms \<Rightarrow>
            set (map fst arms) = set names
            \<and> list_all (\<lambda>n. map (\<lambda>r. col r ''rep'') (arm_rows arms n) = map (\<lambda>i. Some (real i)) [0..<reps (b_args b)]) names
            \<and> g_status (balance_gate arms) = PASS) (planned_arms b)"

lemma plan_rows_keys:
  assumes "rows_of_plan b rows"
  shows "length rows = fst (plan_totals b)"
    and "(\<lambda>r. (r_experiment r, r_arm r)) ` set rows = (\<lambda>(e, a, i). (e, a)) ` set (planned_runs b)"
proof -
  show "length rows = fst (plan_totals b)"
    using assms [unfolded rows_of_plan_def, THEN arg_cong, of size] by (simp add: planned_length)
  have "rep_key ` set rows = (\<lambda>(e, a, i). (e, a, Some (real i))) ` set (planned_runs b)"
    using assms [unfolded rows_of_plan_def, THEN arg_cong, of set_mset] by simp
  then have "(\<lambda>(e, a, v). (e, a)) ` rep_key ` set rows =
      (\<lambda>(e, a, v). (e, a)) ` (\<lambda>(e, a, i). (e, a, Some (real i))) ` set (planned_runs b)" by simp
  then show "(\<lambda>r. (r_experiment r, r_arm r)) ` set rows = (\<lambda>(e, a, i). (e, a)) ` set (planned_runs b)"
    by (simp add: image_comp comp_def rep_key_def case_prod_beta')
qed

lemma balanced:
  assumes "distinct (map fst arms)" "\<And>a. a \<in> set (map fst arms) \<Longrightarrow> length (arm_rows arms a) = n"
  shows "g_status (balance_gate arms) = PASS"
proof -
  have "length rs = n" if "(a, rs) \<in> set arms" for a rs
    using assms(1) assms(2) [of a] that by (force simp: arm_rows_def)
  then have "(\<lambda>(a, rs). length rs) ` set arms \<subseteq> {n}" by auto
  then have "card ((\<lambda>(a, rs). length rs) ` set arms) \<le> 1" using card_mono [of "{n}"] by fastforce
  then show ?thesis by (simp add: balance_gate_def length_remdups_card_conv)
qed

lemma grouped_plan:
  assumes plan: "rows_of_plan b rows" and reps: "0 < reps (b_args b)"
  shows "complete_groups b (group_runs rows)"
proof -
  have keys: "(e, n) \<in> (\<lambda>r. (r_experiment r, r_arm r)) ` set rows \<longleftrightarrow>
      (\<exists>names. (e, names) \<in> set (planned_arms b) \<and> n \<in> set names)" for e n
  proof -
    have "(e, n) \<in> (\<lambda>(e, a, i). (e, a)) ` set (planned_runs b) \<longleftrightarrow> (\<exists>i. (e, n, i) \<in> set (planned_runs b))" by force
    then show ?thesis unfolding plan_rows_keys(2) [OF plan] planned_in using reps by blast
  qed
  have exps: "set (map fst (group_runs rows)) = r_experiment ` set rows"
    by (simp only: group_runs_def keys_map group_by_spec(2))
  have "r_experiment ` set rows = fst ` (\<lambda>r. (r_experiment r, r_arm r)) ` set rows" by (simp add: image_comp)
  also have "\<dots> = fst ` set (planned_arms b)"
  proof (intro set_eqI iffI)
    fix e
    assume "e \<in> fst ` set (planned_arms b)"
    then obtain names where en: "(e, names) \<in> set (planned_arms b)" by force
    then obtain n where "n \<in> set names" using planned_names by (meson last_in_set)
    then have "(e, n) \<in> (\<lambda>r. (r_experiment r, r_arm r)) ` set rows" using en keys by blast
    then show "e \<in> fst ` (\<lambda>r. (r_experiment r, r_arm r)) ` set rows" by (metis fst_conv imageI)
  next
    fix e
    assume "e \<in> fst ` (\<lambda>r. (r_experiment r, r_arm r)) ` set rows"
    then show "e \<in> fst ` set (planned_arms b)" using keys by force
  qed
  finally have E: "r_experiment ` set rows = fst ` set (planned_arms b)" .
  have "case map_of (group_runs rows) e of None \<Rightarrow> False
        | Some arms \<Rightarrow>
            set (map fst arms) = set names
            \<and> list_all (\<lambda>n. map (\<lambda>r. col r ''rep'') (arm_rows arms n) = map (\<lambda>i. Some (real i)) [0..<reps (b_args b)]) names
            \<and> g_status (balance_gate arms) = PASS" if en: "(e, names) \<in> set (planned_arms b)" for e names
  proof -
    let ?F = "filter (\<lambda>r. r_experiment r = e) rows"
    have "e \<in> r_experiment ` set rows" unfolding E using en by force
    then have "?F \<noteq> []" by (auto simp: filter_empty_conv)
    then have look: "map_of (group_runs rows) e = Some (arms_of ?F)"
      by (simp only: group_runs_def map_of_map_snd group_by_spec(3) arms_of_def [symmetric]) simp
    have arms: "set (map fst (arms_of ?F)) = set names"
    proof -
      have "n \<in> r_arm ` set ?F \<longleftrightarrow> (e, n) \<in> (\<lambda>r. (r_experiment r, r_arm r)) ` set rows" for n by force
      then have "n \<in> r_arm ` set ?F \<longleftrightarrow> n \<in> set names" for n
        unfolding keys using en eq_key_imp_eq_value [OF planned_arms_ok(1) [of b] _ en] by blast
      then show ?thesis unfolding arms_of_spec(2) by blast
    qed
    have reps_of: "map (\<lambda>r. col r ''rep'') (arm_rows (arms_of ?F) n) = map (\<lambda>i. Some (real i)) [0..<reps (b_args b)]"
      if "n \<in> set names" for n
      unfolding arms_of_spec(3) using reps_in_order [OF plan_arm_reps [OF plan en that]] by (simp add: filter_filter conj_commute)
    have "length (arm_rows (arms_of ?F) n) = reps (b_args b)" if "n \<in> set (map fst (arms_of ?F))" for n
      using reps_of [of n] that unfolding arms by (metis length_map length_upt minus_nat.diff_0)
    with arms reps_of show ?thesis
      by (auto simp: look list_all_iff intro!: balanced arms_of_spec(1))
  qed
  then show ?thesis unfolding complete_groups_def exps E by (auto simp: list_all_iff)
qed

subsection \<open>From the session to the rows\<close>

text \<open>The host of the analysis finds exactly the stored records, each as \<open>json.load\<close> returns it; \<open>stamp\<close> are the time
  stamps of the records.\<close>

definition holds_records ::
  "(string \<times> json) list \<Rightarrow> (string \<Rightarrow> string) \<Rightarrow> string \<Rightarrow> (string \<Rightarrow> run_record option) \<Rightarrow> Output.host \<Rightarrow> bool" where
  "holds_records env stamp raw recs h \<longleftrightarrow>
     distinct (find_run_files h raw) \<and> set (find_run_files h raw) = path_join raw ` dom recs
     \<and> (\<forall>p rec. recs p = Some rec \<longrightarrow> h_load h (path_join raw p) = Some (reread (record_json env (stamp p) rec)))"

definition raw_rows :: "Output.host \<Rightarrow> string \<Rightarrow> py_error + row list" where
  "raw_rows h raw =
     err_map (\<lambda>(p, run). flatten_run p run) (fst (load_runs (map (\<lambda>p. (p, h_load h p)) (find_run_files h raw))))"

lemma load_objects:
  "(\<And>p. p \<in> set ps \<Longrightarrow> is_obj (v p)) \<Longrightarrow> load_runs (map (\<lambda>p. (p, Some (v p))) ps) = (map (\<lambda>p. (p, v p)) ps, [])"
  by (induction ps) (auto simp: load_runs_def)

lemma err_map_rel: "err_map f xs = Inr ys \<Longrightarrow> list_all2 (\<lambda>x y. f x = Inr y) xs ys"
  by (induction f xs arbitrary: ys rule: err_map.induct) (auto simp: err_bind_Inr)

text \<open>The records of a session from an empty store are the planned runs, each under its own path.\<close>

lemma session_stores:
  assumes "draws_ok (draw m)" "\<not> plan_only (b_args b)" "go m b problems w = (Inr 0, w')" "files w = Map.empty"
  shows "dom (files w') = set (planned_paths b)"
    and "files w' p = Some rec \<Longrightarrow>
      p = record_path (rr_experiment rec) (rr_arm rec) (rr_rep rec)
      \<and> (rr_experiment rec, rr_arm rec, rr_rep rec) \<in> set (planned_runs b) \<and> decoded m (rr_slots rec)"
proof -
  show dom: "dom (files w') = set (planned_paths b)" using go_records [OF assms(1-3)] assms(4) by simp
  assume rec: "files w' p = Some rec"
  have "well_filed m w w'" using filed.keeps_go [of m b problems] assms(3) by (auto simp: keeps_def dest: spec [of _ w])
  then have p: "p = record_path (rr_experiment rec) (rr_arm rec) (rr_rep rec)" "CHR ''/'' \<notin> set (rr_experiment rec)"
      "decoded m (rr_slots rec)"
    using rec assms(4) by (auto simp: well_filed_def)
  have "p \<in> set (planned_paths b)" using rec dom by blast
  then obtain e a i where eai: "(e, a, i) \<in> set (planned_runs b)" "p = record_path e a i"
    by (auto simp: planned_paths_def)
  from p(1) eai(2) have "record_path e a i = record_path (rr_experiment rec) (rr_arm rec) (rr_rep rec)" by simp
  from record_path_inj [OF this planned_no_slash [OF eai(1)] p(2)]
  have "(e, a, i) = (rr_experiment rec, rr_arm rec, rr_rep rec)" by simp
  then show "p = record_path (rr_experiment rec) (rr_arm rec) (rr_rep rec)
      \<and> (rr_experiment rec, rr_arm rec, rr_rep rec) \<in> set (planned_runs b) \<and> decoded m (rr_slots rec)" using p eai by simp
qed

lemma stored_names:
  "(e, a, i) \<in> set (planned_runs b) \<Longrightarrow> e \<noteq> [] \<and> a \<noteq> []"
  using planned_names by (fastforce simp: planned_in)

lemma session_rows:
  assumes recs: "dom recs = set (planned_paths b)"
      "\<And>p rec. recs p = Some rec \<Longrightarrow> p = record_path (rr_experiment rec) (rr_arm rec) (rr_rep rec)
         \<and> (rr_experiment rec, rr_arm rec, rr_rep rec) \<in> set (planned_runs b) \<and> storable rec"
    and host: "holds_records env stamp raw recs h" and env: "''start_temp_c'' \<notin> fst ` set env"
  shows "\<exists>rows. raw_rows h raw = Inr rows \<and> rows_of_plan b rows"
proof -
  let ?ps = "find_run_files h raw"
  have "\<forall>q \<in> set ?ps. \<exists>p rec. q = path_join raw p \<and> recs p = Some rec"
    using host by (auto simp: holds_records_def)
  then obtain f g where fg: "\<And>q. q \<in> set ?ps \<Longrightarrow> q = path_join raw (f q) \<and> recs (f q) = Some (g q)"
    by metis
  define v where "v q = reread (record_json env (stamp (f q)) (g q))" for q
  have load: "h_load h q = Some (v q)" if "q \<in> set ?ps" for q
    using fg [OF that] host unfolding holds_records_def v_def by metis
  have "load_runs (map (\<lambda>p. (p, h_load h p)) ?ps) = load_runs (map (\<lambda>p. (p, Some (v p))) ?ps)"
    using load by (intro arg_cong [where f = load_runs] map_cong refl) auto
  also have "\<dots> = (map (\<lambda>p. (p, v p)) ?ps, [])"
    by (rule load_objects) (simp add: v_def record_obj)
  finally have rows: "raw_rows h raw = err_map (\<lambda>(p, run). flatten_run p run) (map (\<lambda>p. (p, v p)) ?ps)"
    by (simp add: raw_rows_def)
  define key where "key q = (rr_experiment (g q), rr_arm (g q), rr_rep (g q))" for q
  have planned: "f q = (case key q of (e, a, i) \<Rightarrow> record_path e a i)" "key q \<in> set (planned_runs b)" if "q \<in> set ?ps" for q
    using recs(2) fg [OF that] by (auto simp: key_def)
  have named: "rr_experiment (g q) \<noteq> []" "rr_arm (g q) \<noteq> []" if "q \<in> set ?ps" for q
    using stored_names planned(2) [OF that] by (auto simp: key_def)
  show ?thesis
  proof (cases "raw_rows h raw")
    case (Inl e)
    then obtain q where "q \<in> set ?ps" "flatten_run q (v q) = Inl e"
      unfolding rows by (auto dest!: err_map_error)
    then show ?thesis using flatten_record_total [OF _ env] recs(2) fg unfolding v_def by blast
  next
    case (Inr rs)
    have "list_all2 (\<lambda>q r. flatten_run q (v q) = Inr r) ?ps rs"
      using err_map_rel [OF Inr [unfolded rows]] by (simp add: list_all2_map1)
    note rel = this
    have "map rep_key rs = map (\<lambda>q. case key q of (e, a, i) \<Rightarrow> (e, a, Some (real i))) ?ps"
    proof (rule nth_equalityI)
      show "length (map rep_key rs) = length (map (\<lambda>q. case key q of (e, a, i) \<Rightarrow> (e, a, Some (real i))) ?ps)"
        using list_all2_lengthD [OF rel] by simp
      fix j assume "j < length (map rep_key rs)"
      then have j: "j < length rs" "j < length ?ps" using list_all2_lengthD [OF rel] by simp_all
      from list_all2_nthD [OF rel j(2)]
      have "flatten_run (?ps ! j) (reread (record_json env (stamp (f (?ps ! j))) (g (?ps ! j)))) = Inr (rs ! j)"
        by (simp only: v_def)
      from flatten_record [OF named env this] j
      show "map rep_key rs ! j = map (\<lambda>q. case key q of (e, a, i) \<Rightarrow> (e, a, Some (real i))) ?ps ! j"
        by (simp only: nth_map rep_key_def key_def prod.case nth_mem)
    qed
    then have keys: "map rep_key rs = map (\<lambda>(e, a, i). (e, a, Some (real i))) (map key ?ps)" by (simp add: comp_def)
    have same: "mset (map key ?ps) = mset (planned_runs b)"
    proof (subst set_eq_iff_mset_eq_distinct [symmetric])
      have "inj_on key (set ?ps)"
      proof (rule inj_onI)
        fix q q' assume q: "q \<in> set ?ps" "q' \<in> set ?ps" "key q = key q'"
        then have "f q = f q'" using planned(1) [OF q(1)] planned(1) [OF q(2)] by simp
        then show "q = q'" using fg [OF q(1)] fg [OF q(2)] by (elim conjE) simp
      qed
      then show "distinct (map key ?ps)" using host by (simp add: holds_records_def distinct_map)
      show "set (map key ?ps) = set (planned_runs b)"
      proof
        show "set (planned_runs b) \<subseteq> set (map key ?ps)"
        proof
          fix t assume t: "t \<in> set (planned_runs b)"
          obtain e a i where eai: "t = (e, a, i)" by (rule prod_cases3)
          let ?q = "path_join raw (record_path e a i)"
          have "(case t of (e, a, i) \<Rightarrow> record_path e a i) \<in> dom recs"
            unfolding recs(1) planned_paths_def set_map using t by (rule imageI)
          then have q: "?q \<in> set ?ps" using host by (simp add: holds_records_def eai)
          have fq: "record_path e a i = f ?q" by (rule path_join_inj [OF conjunct1 [OF fg [OF q]]])
          obtain e' a' i' where k: "key ?q = (e', a', i')" by (rule prod_cases3)
          have "record_path e a i = record_path e' a' i'" by (rule trans [OF fq]) (simp only: planned(1) [OF q] k prod.case)
          moreover have "CHR ''/'' \<notin> set e" "CHR ''/'' \<notin> set e'"
            using planned_no_slash t planned(2) [OF q] eai k by auto
          ultimately have "key ?q = t" using record_path_inj k eai by blast
          then show "t \<in> set (map key ?ps)" using q by (metis image_eqI set_map)
        qed
      qed (use planned(2) in auto)
    qed (rule planned_distinct)
    have "mset (map rep_key rs) = image_mset (\<lambda>(e, a, i). (e, a, Some (real i))) (mset (map key ?ps))"
      by (simp only: keys mset_map)
    then have "rows_of_plan b rs" unfolding rows_of_plan_def same [unfolded mset_map] mset_map .
    then show ?thesis using Inr by blast
  qed
qed

subsection \<open>Properties\<close>

text \<open>C6: what a completed session stored into an empty directory is a complete data set for the analysis. When the integers
  the tools print are in the range of floats, reading the record files and flattening them succeeds, and grouping
  the rows gives the planned experiments, each with exactly its planned arms, each arm with one row for every
  repetition in order, so that the balance gate passes; there are as many rows as the plan printed.\<close>

theorem session_feeds_analysis:
  assumes "draws_ok (draw m)" and "\<not> plan_only a" and "0 < reps a" and "in_range (JInt (int (reps a)))"
    and "\<forall>l v. json_loads m l = Some v \<longrightarrow> in_range v"
    and "bench_partition (topology m) (big_arg a) = Some (big, little)"
    and "bench_main m a problems w = (Inr 0, w')" and "files w = Map.empty"
    and "holds_records env stamp raw (files w') h" and "''start_temp_c'' \<notin> fst ` set env"
  shows "let b = \<lparr>b_args = a, b_big = big, b_little = little, b_saved = read_epp_all m w, b_floor = None\<rparr> in
    \<exists>rows. raw_rows h raw = Inr rows \<and> length rows = fst (plan_totals b) \<and> complete_groups b (group_runs rows)"
proof -
  let ?b = "\<lparr>b_args = a, b_big = big, b_little = little, b_saved = read_epp_all m w, b_floor = None\<rparr>"
  have go: "go m ?b problems w = (Inr 0, w')" using assms(6,7) by (simp add: bench_main_def)
  have plan_only: "\<not> plan_only (b_args ?b)" and reps: "0 < reps (b_args ?b)" using assms(2,3) by simp_all
  note stored = session_stores [OF assms(1) plan_only go assms(8)]
  have "p = record_path (rr_experiment rec) (rr_arm rec) (rr_rep rec)
      \<and> (rr_experiment rec, rr_arm rec, rr_rep rec) \<in> set (planned_runs ?b) \<and> storable rec"
    if "files w' p = Some rec" for p rec
  proof -
    note rec = stored(2) [OF that]
    then have "rr_rep rec < reps a" by (auto simp: planned_in)
    then have "in_range (JInt (int (rr_rep rec)))" using assms(4) by simp
    moreover have "in_range v" if "slot_value k (rr_slots rec) = Some v" for k v
      using that rec assms(5) unfolding decoded_def by blast
    moreover have "rr_experiment rec \<noteq> [] \<and> rr_arm rec \<noteq> []" using rec stored_names by blast
    ultimately show ?thesis using rec unfolding storable_def by blast
  qed
  from session_rows [OF stored(1) this assms(9,10)]
  obtain rows where "raw_rows h raw = Inr rows" "rows_of_plan ?b rows" by blast
  then show ?thesis
    using plan_rows_keys(1) grouped_plan [OF _ reps] unfolding Let_def by blast
qed

text \<open>The description of the machine that a session stores has no such entry of its own.\<close>

lemma session_env_ok:
  "env_start m b h mf = Inr env \<Longrightarrow> ''start_temp_c'' \<notin> fst ` set (env @ env_entries b')"
  by (auto simp: env_start_def env_entries_def err_bind_Inr)

text \<open>The directory the demonstration session leaves.\<close>

definition demo_names :: "string list" where
  "demo_names = map (\<lambda>a. a @ ''.rep00.json'') (map fst e1b_arms)"

definition demo_raw :: "(string \<Rightarrow> run_record option) \<Rightarrow> Output.host" where
  "demo_raw recs =
     blank_host\<lparr>h_walk := \<lambda>d. [(d, []), (path_join d ''e1b-poison'', demo_names)],
       h_load := \<lambda>q. map_option (\<lambda>rec. reread (record_json [] [] rec)) (recs (drop 9 q))\<rparr>"

lemma demo_paths: "planned_paths demo_bench = map (\<lambda>n. ''e1b-poison/'' @ n) demo_names"
proof -
  have zero: "nat_str 0 = ''0''" by code_simp
  show ?thesis
    by (simp add: zero planned_paths_def planned_runs_def planned_arms_def selected_def demo_bench_def demo_args_def demo_names_def
      e1b_arms_def record_path_def pad2_def)
qed

lemma demo_total: "fst (plan_totals demo_bench) = 4"
  by (simp add: plan_totals_def plan_def selected_def demo_bench_def demo_args_def)

lemma demo_holds:
  assumes "dom recs = set (planned_paths demo_bench)"
  shows "holds_records [] (\<lambda>_. []) ''data/raw'' recs (demo_raw recs)"
proof -
  have join: "path_join ''data/raw'' p = ''data/raw/'' @ p" for p by (simp add: path_join_def)
  have join': "path_join ''data/raw/e1b-poison'' = (\<lambda>p. ''data/raw/e1b-poison/'' @ p)"
    by (rule ext) (simp add: path_join_def)
  have "filter (ends_with ''.json'') (sort demo_names) = sort demo_names"
    by (auto simp: filter_id_conv demo_names_def e1b_arms_def ends_with_def)
  then have m: "mset (find_run_files (demo_raw recs) ''data/raw'') = mset (map (path_join ''data/raw'') (planned_paths demo_bench))"
    by (simp add: find_run_files_def demo_raw_def demo_paths join join' image_mset.compositionality comp_def)
  have "distinct (map (path_join ''data/raw'') (planned_paths demo_bench))"
    by (simp add: distinct_map planned_paths_distinct inj_on_def join)
  then have "distinct (find_run_files (demo_raw recs) ''data/raw'')
      \<and> set (find_run_files (demo_raw recs) ''data/raw'') = path_join ''data/raw'' ` set (planned_paths demo_bench)"
    using mset_eq_setD [OF m] mset_eq_imp_distinct_iff [OF m] unfolding set_map by blast
  then show ?thesis by (simp add: holds_records_def assms) (simp add: demo_raw_def join)
qed

theorem session_feeds_analysis_witness:
  "\<exists>w' rows. bench_main demo_machine demo_args False demo_world = (Inr 0, w')
     \<and> raw_rows (demo_raw (files w')) ''data/raw'' = Inr rows \<and> length rows = 4
     \<and> complete_groups demo_bench (group_runs rows)"
proof -
  obtain w' where w': "bench_main demo_machine demo_args False demo_world = (Inr 0, w')" using demo_session by blast
  have part: "bench_partition (topology demo_machine) (big_arg demo_args) = Some ([0, 1, 4, 5], [2, 3, 6, 7])"
    using demo_partition by (simp add: demo_machine_def demo_args_def)
  have facts: "draws_ok (draw demo_machine)" "\<not> plan_only demo_args" "0 < reps demo_args" "in_range (JInt (int (reps demo_args)))"
      "\<forall>l v. json_loads demo_machine l = Some v \<longrightarrow> in_range v" "files demo_world = Map.empty"
    by (simp_all add: draws_ok_def demo_machine_def demo_args_def demo_world_def)
  have "go demo_machine demo_bench False demo_world = (Inr 0, w')"
    using w' part by (simp add: bench_main_def demo_bench_def)
  from go_records [OF facts(1) _ this] facts(2,6) have "dom (files w') = set (planned_paths demo_bench)"
    by (simp add: demo_bench_def)
  from session_feeds_analysis [OF facts(1-5) part w' facts(6) demo_holds [OF this]]
  have "''start_temp_c'' \<notin> fst ` set ([] :: (string \<times> json) list) \<Longrightarrow> ?thesis"
    unfolding Let_def demo_bench_def [symmetric] demo_total using w' by blast
  then show ?thesis by simp
qed

end
