(* ===== verification/Workload.thy ===== *)
theory Workload
  imports PyText
begin

text \<open>
  The workload generator \<open>scripts/workload.py\<close>: \<open>gen_function\<close> with the draws it makes, the files and the
  Makefile \<open>generate\<close> writes, and the stamp by which \<open>main\<close> decides whether to generate at all. A
  generated function is kept as a record and rendered to the text of the source. The file system is a map
  from paths to texts; the seeded generator is a parameter, \<open>dr seed k n\<close> its \<open>k\<close>-th draw below \<open>n\<close> and
  \<open>fr seed k\<close> the nine decimals of its \<open>k\<close>-th draw from the unit interval.
\<close>

record generator =
  int_draw :: "int \<Rightarrow> nat \<Rightarrow> nat \<Rightarrow> nat"
  frac_draw :: "int \<Rightarrow> nat \<Rightarrow> string"

definition NL :: char where "NL = CHR 0x0A"
definition TAB :: char where "TAB = CHR 0x09"

subsection \<open>One function\<close>

record decl =
  dc_var :: nat
  dc_fn :: string
  dc_left :: nat
  dc_op :: string
  dc_right :: nat
  dc_const :: string

record gen_fun =
  gf_idx :: nat
  gf_nvars :: nat
  gf_decls :: "decl list"
  gf_cases :: "nat list"

definition gen_ops :: "string list" where
  "gen_ops = [''+'', ''-'', ''*'']"

definition gen_fns :: "string list" where
  "gen_fns = [''sin'', ''cos'', ''sqrt'', ''fabs'', ''exp'', ''log1p'']"

definition gen_decl :: "generator \<Rightarrow> int \<Rightarrow> nat \<Rightarrow> nat \<Rightarrow> decl" where
  "gen_decl g seed k v =
     \<lparr>dc_var = v, dc_fn = gen_fns ! int_draw g seed (k + 3) 6, dc_left = int_draw g seed k v,
      dc_op = gen_ops ! int_draw g seed (k + 2) 3, dc_right = int_draw g seed (k + 1) v,
      dc_const = frac_draw g seed (k + 4)\<rparr>"

text \<open>The loop over the variables: five draws each.\<close>

fun gen_decls :: "generator \<Rightarrow> int \<Rightarrow> nat \<Rightarrow> nat list \<Rightarrow> decl list \<times> nat" where
  "gen_decls g seed k [] = ([], k)"
| "gen_decls g seed k (v # vs) =
     (let (ds, k') = gen_decls g seed (k + 5) vs in (gen_decl g seed k v # ds, k'))"

definition gen_function :: "generator \<Rightarrow> int \<Rightarrow> nat \<Rightarrow> nat \<Rightarrow> gen_fun \<times> nat" where
  "gen_function g seed k idx =
     (let nvars = 24 + int_draw g seed k 17;
          (ds, k') = gen_decls g seed (k + 1) [1..<nvars];
          cases = map (\<lambda>c. int_draw g seed (k' + c) nvars) [0..<8]
      in (\<lparr>gf_idx = idx, gf_nvars = nvars, gf_decls = ds, gf_cases = cases\<rparr>, k' + 8))"

subsection \<open>Its text\<close>

definition var_text :: "nat \<Rightarrow> string" where
  "var_text v = CHR ''a'' # nat_str v"

definition decl_text :: "decl \<Rightarrow> string" where
  "decl_text d =
     TAB # ''double '' @ var_text (dc_var d) @ '' = '' @ dc_fn d @ ''('' @ var_text (dc_left d) @ '' '' @ dc_op d
       @ '' '' @ var_text (dc_right d) @ '' + '' @ dc_const d @ '');''"

definition case_text :: "nat \<times> nat \<Rightarrow> string" where
  "case_text = (\<lambda>(c, v).
     TAB # ''case '' @ nat_str c @ '': return '' @ var_text v @ '' * '' @ nat_str (c + 1) @ ''.5;'')"

definition function_lines :: "gen_fun \<Rightarrow> string list" where
  "function_lines f =
     [''double f'' @ nat_str (gf_idx f) @ ''(double x, double y)'', ''{'', TAB # ''double a0 = x + y;'']
     @ map decl_text (gf_decls f)
     @ [TAB # ''switch ((int)'' @ var_text (gf_nvars f - 1) @ '' & 7) {'']
     @ map case_text (zip [0..<8] (gf_cases f))
     @ [TAB # ''}'', TAB # ''return '' @ var_text (gf_nvars f - 1) @ '';'', ''}'']"

definition function_text :: "gen_fun \<Rightarrow> string" where
  "function_text f = join_with NL (function_lines f)"

subsection \<open>The tree\<close>

definition pad3 :: "nat \<Rightarrow> string" where
  "pad3 n = (if n < 10 then ''00'' @ nat_str n else if n < 100 then ''0'' @ nat_str n else nat_str n)"

definition HEADER :: string where
  "HEADER = ''/* generated by scripts/workload.py - do not edit */'' @ NL # ''#include <stdint.h>'' @ NL
     # ''#include <math.h>'' @ [NL]"

fun gen_functions :: "generator \<Rightarrow> int \<Rightarrow> nat \<Rightarrow> nat list \<Rightarrow> gen_fun list \<times> nat" where
  "gen_functions g seed k [] = ([], k)"
| "gen_functions g seed k (idx # is) =
     (let (f, k1) = gen_function g seed k idx; (fs, k2) = gen_functions g seed k1 is in (f # fs, k2))"

fun gen_modules :: "generator \<Rightarrow> int \<Rightarrow> nat \<Rightarrow> nat \<Rightarrow> nat list \<Rightarrow> (nat \<times> gen_fun list) list" where
  "gen_modules g seed nfuncs k [] = []"
| "gen_modules g seed nfuncs k (i # is) =
     (let (fs, k') = gen_functions g seed k (map (\<lambda>j. i * nfuncs + j) [0..<nfuncs])
      in (i, fs) # gen_modules g seed nfuncs k' is)"

text \<open>\<open>'sep'.join(parts)\<close> with a blank line between the parts.\<close>

fun join_blank :: "string list \<Rightarrow> string" where
  "join_blank [] = []"
| "join_blank [p] = p"
| "join_blank (p # q # ps) = p @ NL # NL # join_blank (q # ps)"

definition module_text :: "gen_fun list \<Rightarrow> string" where
  "module_text fs = join_blank (HEADER # map function_text fs) @ [NL]"

definition module_stem :: "nat \<Rightarrow> string" where
  "module_stem i = ''mod'' @ pad3 i"

definition makefile_text :: "nat \<Rightarrow> string" where
  "makefile_text nfiles =
     ''# generated by scripts/workload.py - do not edit'' @ NL # ''CC ?= cc'' @ NL
     # ''CFLAGS ?= -O2 -fno-lto -w'' @ NL
     # ''OBJS := '' @ join_with CHR '' '' (map (\<lambda>i. module_stem i @ ''.o'') [0..<nfiles]) @ NL
     # ''all: $(OBJS)'' @ NL # ''%.o: %.c'' @ NL # TAB # ''$(CC) $(CFLAGS) -c $< -o $@'' @ NL
     # ''clean:'' @ NL # TAB # ''rm -f $(OBJS)'' @ NL # ''.PHONY: all clean'' @ [NL]"

type_synonym files = "string \<Rightarrow> string option"

definition in_dir :: "string \<Rightarrow> string \<Rightarrow> string" where
  "in_dir path name = path @ CHR ''/'' # name"

definition remove_tree :: "string \<Rightarrow> files \<Rightarrow> files" where
  "remove_tree path fs = (\<lambda>p. if take (length path + 1) p = in_dir path [] then None else fs p)"

definition write_modules :: "string \<Rightarrow> (nat \<times> gen_fun list) list \<Rightarrow> files \<Rightarrow> files" where
  "write_modules path ms fs =
     fold (\<lambda>(i, funs) fs. fs(in_dir path (module_stem i @ ''.c'') \<mapsto> module_text funs)) ms fs"

definition generate :: "generator \<Rightarrow> string \<Rightarrow> nat \<Rightarrow> nat \<Rightarrow> int \<Rightarrow> files \<Rightarrow> files" where
  "generate g path nfiles nfuncs seed fs =
     (write_modules path (gen_modules g seed nfuncs 0 [0..<nfiles]) (remove_tree path fs))
       (in_dir path ''Makefile'' \<mapsto> makefile_text nfiles)"

subsection \<open>The stamp\<close>

record workload_args =
  w_path :: string
  w_files :: nat
  w_funcs :: nat
  w_seed :: int
  w_force :: bool

definition int_str :: "int \<Rightarrow> string" where
  "int_str n = (if n < 0 then CHR ''-'' # nat_str (nat (- n)) else nat_str (nat n))"

definition stamp_text :: "workload_args \<Rightarrow> string" where
  "stamp_text a =
     nat_str (w_files a) @ CHR '':'' # nat_str (w_funcs a) @ CHR '':'' # int_str (w_seed a) @ [NL]"

definition stamp_path :: "workload_args \<Rightarrow> string" where
  "stamp_path a = in_dir (w_path a) ''.stamp''"

text \<open>\<open>main\<close> after argument parsing: whether it generated, and the files afterwards.\<close>

definition workload_main :: "generator \<Rightarrow> workload_args \<Rightarrow> files \<Rightarrow> bool \<times> files" where
  "workload_main g a fs =
     (if \<not> w_force a \<and> fs (stamp_path a) = Some (stamp_text a) then (False, fs)
      else (True, (generate g (w_path a) (w_files a) (w_funcs a) (w_seed a) fs)(stamp_path a \<mapsto> stamp_text a)))"

subsection \<open>Scoping of the generated code\<close>

definition draws_below :: "generator \<Rightarrow> bool" where
  "draws_below g \<longleftrightarrow> (\<forall>seed k n. 0 < n \<longrightarrow> int_draw g seed k n < n)"

lemma draw_below: "draws_below g \<Longrightarrow> 0 < n \<Longrightarrow> int_draw g seed k n < n"
  by (simp add: draws_below_def)

definition well_scoped :: "gen_fun \<Rightarrow> bool" where
  "well_scoped f \<longleftrightarrow>
     24 \<le> gf_nvars f \<and> gf_nvars f \<le> 40
     \<and> map dc_var (gf_decls f) = [1..<gf_nvars f]
     \<and> list_all (\<lambda>d. dc_left d < dc_var d \<and> dc_right d < dc_var d \<and> dc_op d \<in> set gen_ops \<and> dc_fn d \<in> set gen_fns)
         (gf_decls f)
     \<and> length (gf_cases f) = 8 \<and> list_all (\<lambda>v. v < gf_nvars f) (gf_cases f)"

lemma gen_decls_scoped:
  assumes "draws_below g" "\<forall>v \<in> set vs. 0 < v"
  shows "map dc_var (fst (gen_decls g seed k vs)) = vs
    \<and> list_all (\<lambda>d. dc_left d < dc_var d \<and> dc_right d < dc_var d \<and> dc_op d \<in> set gen_ops \<and> dc_fn d \<in> set gen_fns)
        (fst (gen_decls g seed k vs))"
  using assms(2)
proof (induction vs arbitrary: k)
  case (Cons v vs)
  have "gen_ops ! int_draw g seed (k + 2) 3 \<in> set gen_ops"
    using draw_below [OF assms(1), of 3 seed "k + 2"] by (intro nth_mem) (simp add: gen_ops_def)
  moreover have "gen_fns ! int_draw g seed (k + 3) 6 \<in> set gen_fns"
    using draw_below [OF assms(1), of 6 seed "k + 3"] by (intro nth_mem) (simp add: gen_fns_def)
  ultimately show ?case
    using Cons.IH [of "k + 5"] Cons.prems by (auto simp: gen_decl_def draw_below [OF assms(1)] split: prod.split)
qed simp

lemma gen_function_facts:
  assumes "draws_below g"
  shows "well_scoped (fst (gen_function g seed k idx))" "gf_idx (fst (gen_function g seed k idx)) = idx"
proof -
  obtain ds k' where d: "gen_decls g seed (k + 1) [1..<24 + int_draw g seed k 17] = (ds, k')" by (rule prod.exhaust)
  have "int_draw g seed k 17 < 17" by (rule draw_below [OF assms]) simp
  then have "24 + int_draw g seed k 17 \<le> 40" by linarith
  then show "well_scoped (fst (gen_function g seed k idx))"
    using gen_decls_scoped [OF assms, of "[1..<24 + int_draw g seed k 17]" seed "k + 1"] d
    by (auto simp: gen_function_def well_scoped_def Let_def list_all_iff draw_below [OF assms])
  show "gf_idx (fst (gen_function g seed k idx)) = idx" by (simp add: gen_function_def Let_def split: prod.split)
qed

lemma gen_functions_facts:
  "draws_below g \<Longrightarrow> map gf_idx (fst (gen_functions g seed k is)) = is
     \<and> list_all well_scoped (fst (gen_functions g seed k is))"
proof (induction "is" arbitrary: k)
  case (Cons i "is")
  show ?case
    using Cons.IH [OF Cons.prems, of "snd (gen_function g seed k i)"] gen_function_facts [OF Cons.prems, of seed k i]
    by (simp add: split_beta Let_def)
qed simp

lemma gen_modules_facts:
  assumes "draws_below g"
  shows "map (\<lambda>(i, fs). (i, map gf_idx fs)) (gen_modules g seed nfuncs k is)
      = map (\<lambda>i. (i, map (\<lambda>j. i * nfuncs + j) [0..<nfuncs])) is
    \<and> list_all (\<lambda>(i, fs). list_all well_scoped fs) (gen_modules g seed nfuncs k is)"
proof (induction "is" arbitrary: k)
  case (Cons i "is")
  let ?r = "gen_functions g seed k (map (\<lambda>j. i * nfuncs + j) [0..<nfuncs])"
  show ?case
    using Cons.IH [of "snd ?r"] gen_functions_facts [OF assms, of seed k "map (\<lambda>j. i * nfuncs + j) [0..<nfuncs]"]
    by (simp add: split_beta Let_def)
qed simp

lemma block_indices: "concat (map (\<lambda>i. map (\<lambda>j. i * m + j) [0..<m]) [0..<n]) = [0..<n * m]"
proof (induction n)
  case (Suc n)
  have "map (\<lambda>j. n * m + j) [0..<m] = [n * m..<n * m + m]"
    by (simp add: map_add_upt [symmetric] add.commute)
  then show ?case using Suc upt_add_eq_append [of 0 "n * m" m] by (simp add: add.commute)
qed simp

subsection \<open>The stamp identifies the parameters\<close>

lemma nat_str_eq: "nat_str m = nat_str n \<longleftrightarrow> m = n"
  using nat_str_val by metis

lemma digits_free: "\<not> is_digit c \<Longrightarrow> c \<notin> set (nat_str n)"
  using nat_str_chars by blast

lemma int_str_eq: "int_str m = int_str n \<longleftrightarrow> m = n"
proof -
  have no_dash: "nat_str k \<noteq> CHR ''-'' # xs" for k xs
    using digits_free [of "CHR ''-''" k] by (auto simp: is_digit_def code_of_def)
  show ?thesis
    by (auto simp: int_str_def nat_str_eq no_dash no_dash [symmetric] split: if_splits)
qed

lemma stamp_text_eq:
  "stamp_text a = stamp_text b \<longleftrightarrow> w_files a = w_files b \<and> w_funcs a = w_funcs b \<and> w_seed a = w_seed b"
proof -
  have colon: "CHR '':'' \<notin> set (nat_str n)" for n by (rule digits_free) (simp add: is_digit_def code_of_def)
  have "CHR '':'' \<notin> set (int_str n @ [NL])" for n by (auto simp: int_str_def NL_def colon)
  then have parts: "split_on CHR '':'' (stamp_text x) = [nat_str (w_files x), nat_str (w_funcs x), int_str (w_seed x) @ [NL]]" for x
    unfolding stamp_text_def by (simp add: split_on_append split_on_absent colon del: set_append)
  show ?thesis
  proof
    assume "stamp_text a = stamp_text b"
    then have "split_on CHR '':'' (stamp_text a) = split_on CHR '':'' (stamp_text b)" by simp
    then show "w_files a = w_files b \<and> w_funcs a = w_funcs b \<and> w_seed a = w_seed b"
      unfolding parts by (simp add: nat_str_eq int_str_eq)
  qed (simp add: stamp_text_def)
qed

subsection \<open>Properties\<close>

text \<open>C16: every generated function is well scoped, for any seed and any generator whose draws respect their
  bound: it declares a0 to a(n-1), n between 24 and 40, each once and in order, every right-hand side and
  every return uses declared variables only; and over the whole tree each function name occurs exactly
  once, so that the objects link.\<close>

theorem workload_well_scoped:
  assumes "draws_below g"
  shows "list_all (\<lambda>(i, fs). list_all well_scoped fs) (gen_modules g seed nfuncs 0 [0..<nfiles])
    \<and> concat (map (\<lambda>(i, fs). map gf_idx fs) (gen_modules g seed nfuncs 0 [0..<nfiles])) = [0..<nfiles * nfuncs]"
proof -
  have "map (\<lambda>(i, fs). map gf_idx fs) ms = map snd (map (\<lambda>(i, fs). (i, map gf_idx fs)) ms)" for ms :: "(nat \<times> gen_fun list) list"
    by (simp add: case_prod_beta)
  then show ?thesis
    using gen_modules_facts [OF assms, of seed nfuncs 0 "[0..<nfiles]"] block_indices [of nfuncs nfiles]
    by (simp add: comp_def del: map_map) (simp add: comp_def)
qed

definition demo_generator :: generator where
  "demo_generator = \<lparr>int_draw = \<lambda>seed k n. (5 * k + 3) mod n, frac_draw = \<lambda>seed k. ''0.500000000''\<rparr>"

theorem workload_well_scoped_witness:
  "concat (map (\<lambda>(i, fs). map gf_idx fs) (gen_modules demo_generator 7 2 0 [0..<3])) = [0, 1, 2, 3, 4, 5]"
  using workload_well_scoped [of demo_generator 7 2 3] by (simp add: draws_below_def demo_generator_def upt_rec)

text \<open>A run of the generator leaves the stamp of its parameters, and a later run without \<open>--force\<close> on
  the same path generates again exactly when the number of files, the number of functions or the seed has
  changed; otherwise it leaves every file as it is.\<close>

theorem workload_stamp:
  assumes "workload_main g a fs = (generated, fs1)" and "w_path b = w_path a" and "\<not> w_force b"
  shows "fs1 (stamp_path a) = Some (stamp_text a)
    \<and> workload_main g b fs1 =
        (if w_files b = w_files a \<and> w_funcs b = w_funcs a \<and> w_seed b = w_seed a then (False, fs1)
         else (True, (generate g (w_path b) (w_files b) (w_funcs b) (w_seed b) fs1)(stamp_path b \<mapsto> stamp_text b)))"
proof -
  have "fs1 (stamp_path a) = Some (stamp_text a)" using assms(1) by (auto simp: workload_main_def split: if_splits)
  moreover have "stamp_path b = stamp_path a" by (simp add: stamp_path_def assms(2))
  ultimately show ?thesis using assms(3) stamp_text_eq [of a b] by (auto simp: workload_main_def)
qed

theorem workload_stamp_witness:
  "fst (workload_main demo_generator \<lparr>w_path = ''p'', w_files = 2, w_funcs = 1, w_seed = 8, w_force = False\<rparr>
     (snd (workload_main demo_generator \<lparr>w_path = ''p'', w_files = 2, w_funcs = 1, w_seed = 7, w_force = True\<rparr> (\<lambda>_. None))))"
  by (subst workload_stamp [OF surjective_pairing]) simp_all

end
