(* ===== verification/Spec2Isabelle.thy ===== *)
theory Spec2Isabelle
  imports ModelPlots Pipeline Workload
begin

text \<open>
  A verification library for the Python programs of the fake-big-little repository, which ask whether
  giving the cores of a homogeneous four-core processor different energy preferences (EPP) saves energy
  when all cores share one voltage rail.

  \<^bold>\<open>The program.\<close> Four scripts. \<open>sim/rail_model.py\<close> is an energy model: voltage and leakage of a core, the
  package power on a shared rail and on split rails, three experiments over it (the rail tax, the partition
  sweep, the race to idle), and a calibration of four of its parameters from measured samples.
  \<open>scripts/workload.py\<close> generates the C tree whose compilation is measured. \<open>scripts/bench.py\<close> drives a
  measurement session on the machine: it checks the host, sets EPP values, runs the tools as processes and
  stores one record file per run. \<open>scripts/analyze.py\<close> reads the record files, flattens and groups them,
  computes intervals, tests and quality gates, and words the verdicts. The scripts meet in files only: the
  tree of the generator, the records of the session.

  \<^bold>\<open>Theories.\<close> Each opens with the part of the code it models.

  \<^item> \<open>Prelude\<close>: units, Python's \<open>min\<close> and \<open>max\<close>, exceptions, floats that may be special, hint collections.
    \<open>PyText\<close>: \<open>strip\<close>, \<open>lower\<close>, \<open>split\<close>, \<open>join\<close>, \<open>str\<close> of integers, \<open>int()\<close> and \<open>float()\<close> on texts.
    \<open>PyFormat\<close>: \<open>rjust\<close>, \<open>rstrip\<close> and the conversions of the \<open>%\<close> operator. \<open>Csv\<close>: the reader and the writer of the
    \<open>csv\<close> module. \<open>Sampling\<close>: \<open>random.shuffle\<close> and \<open>random.choices\<close>.
  \<^item> Rail model. \<open>Constants\<close>: the constants block. \<open>Physics\<close>: \<open>v_of_f\<close> to \<open>package_power\<close>. \<open>PowerCap\<close>: \<open>turbo_limit_hz\<close>
    and the bisection of \<open>freq_under_power_cap\<close>. \<open>RailTax\<close>, \<open>PartitionSweep\<close>, \<open>RaceToIdle\<close>: \<open>experiment_a\<close>,
    \<open>experiment_b\<close>, \<open>experiment_c\<close>. \<open>LinearSolve\<close>: \<open>_solve_linear\<close>, behind the locale \<open>linear_solver\<close>, whose laws
    \<open>Calibrate\<close> (\<open>_fnum\<close>, \<open>load_samples\<close>, \<open>calibrate\<close>) relies on. \<open>ModelMain\<close>: \<open>run_all\<close> with the record of predictions,
    and \<open>main\<close>. \<open>ModelText\<close>: every printed line, from \<open>print_header\<close> to \<open>print_verdict\<close>. \<open>ModelJson\<close>: the result as JSON.
    \<open>ModelPlots\<close>: the data of the figures, and what a run prints in the end.
  \<^item> Workload. \<open>Workload\<close>: \<open>gen_function\<close>, \<open>generate\<close>, \<open>main\<close> on a map from paths to texts.
  \<^item> Session. \<open>Cpulist\<close>: \<open>cpulist\<close>, \<open>parse_cpulist\<close>, \<open>default_partition\<close>. \<open>Json\<close>: JSON values, \<open>collect_json\<close>,
    \<open>classify_json\<close>. \<open>Session\<close>: class \<open>Bench\<close> from \<open>set_partitioned_epp\<close> to \<open>go\<close>, and \<open>main\<close>. \<open>Preflight\<close>: the sensors
    and \<open>preflight\<close>. The state is the record \<open>world\<close> (clock, EPP setting of every CPU, record files, running
    child processes, draws made, history of commands with the EPP they ran under); a step maps it to a
    value or an exception and the state left, so what an exception leaves behind is part of the model.
    \<open>SessionFacts\<close> states what steps keep as locales (\<open>step_relation\<close>, \<open>quiet_relation\<close>, \<open>session_relation\<close>) and
    interprets them on the model's steps; \<open>SessionRecords\<close> counts the files a step adds. \<open>SessionText\<close>: the
    messages of the preflight, the record file as JSON, the status line and the plan.
  \<^item> Analysis. \<open>Statistics\<close>: \<open>num\<close>, means, ranks, correlation. \<open>Quantiles\<close>: \<open>norm_ppf\<close>, \<open>betainc\<close>, \<open>t_ppf\<close>.
    \<open>Resampling\<close>: \<open>bootstrap_ci\<close>, \<open>permutation_p\<close>, \<open>hedges_g\<close>, \<open>mde\<close>. \<open>Runs\<close>: \<open>load_runs\<close>, \<open>flatten_run\<close>, \<open>group_runs\<close>,
    \<open>pick_control\<close>; a row is the record \<open>row\<close>. \<open>Contrasts\<close>: \<open>summarize_arm\<close>, \<open>contrast\<close>. \<open>Gates\<close>: \<open>quality_gates\<close>,
    \<open>placement_sanity\<close>, \<open>frequency_divergence\<close>, \<open>coverage\<close>. \<open>Report\<close>: \<open>analyze\<close>, \<open>experiment_verdict\<close>,
    \<open>overall_headline\<close>, whose texts are in \<open>Wording\<close>. \<open>Fmt\<close>: \<open>fmt\<close>, \<open>pct\<close>, \<open>md_table\<close>. \<open>Markdown\<close>: \<open>render_markdown\<close> and
    \<open>print_console\<close>. \<open>AnalysisJson\<close>: the result as JSON and \<open>sanitize\<close>. \<open>Output\<close>: \<open>find_run_files\<close>, \<open>write_csv\<close>,
    \<open>write_markdown\<close>, \<open>main\<close>, on a map from paths to files.
  \<^item> Composition. \<open>Pipeline\<close>: the record files of a session, read, flattened and grouped by the analysis.

  \<^bold>\<open>What the lemmas show.\<close> Rail model: the rail tax is never negative; the package power is monotone; the
  bisection returns the best frequency under the cap; Gaussian elimination solves the system and fails
  exactly on singular ones; the calibration minimises its objective and its design is the power model;
  the experiments pick true optima, and for the default parameters their headline numbers lie in proved
  bounds. Workload: the generated code is well scoped and links; the stamp decides regeneration. Session:
  the EPP settings found at the start are restored however the session ends; every measurement runs under
  the settings of its arm; a completed session has stored exactly the planned records; a session with a
  failed check touches nothing. Analysis: the loops compute the statistics they stand for; intervals lie
  within the data and carry their true label; a verdict names a direction only when its interval excludes
  zero; a saving reaches the headline only from an experiment all of whose runs and gates are clean. Files: the
  report shows every gate; tables and the CSV file are read back as what was written; a file not generated by
  the program is never replaced; the rail model fails in exactly the stated cases; its tables mark the optimum
  they report. Composition: the files of a completed session are a complete, balanced data set for the analysis.

  \<^bold>\<open>Numbers, bounds and fuel.\<close> Floats are real numbers: rounding is not modelled, while NaN and infinity are
  values of the type \<open>pyfloat\<close> where the code produces or tests for them, and \<open>OverflowError\<close> is modelled where an integer is
  converted. The bisection of the power cap has the 60 rounds of the source (16 are enough for its
  tolerance) and that of \<open>t_ppf\<close> its 200 (it never uses them up); the bootstrap and the permutation test
  have their 10000 rounds. Loops over time (\<open>floor_loop\<close>, \<open>cool_loop\<close>, \<open>attach_loop\<close>) and over frequencies terminate by a
  measure on the distance to their end.

  \<^bold>\<open>Parameters.\<close> The machine around the session (sensors, tools, processes, the JSON decoder, the random
  generator) is the record \<open>machine\<close>; \<open>math.erf\<close>, \<open>math.lgamma\<close> and the seeded draws of the analysis are the record
  \<open>numerics\<close>, with the digits of \<open>repr\<close> of a float. The directory walk, the decoded run files, the writable paths and
  the clock of the analysis are the record \<open>host\<close>. Properties assume of them only that a draw below n is below n.

  \<^bold>\<open>Not modelled.\<close> The layout of \<open>json.dump\<close> and the rendering of figures, which are library code; argument parsing; opening and decoding files, of which the outcome is an
  argument; the BPF scheduler and the measurement tools in C.
\<close>

end
